theory Spec2Isabelle
  imports Complex_Main
begin

chapter \<open>The model\<close>

section \<open>Python strings\<close>

text \<open>
  A Python \<^verbatim>\<open>str\<close> is a sequence of Unicode code points, so it is modelled as a list
  of natural numbers. ASCII literals of the script are written through \<open>ascii\<close>.
\<close>

type_synonym pystr = "nat list"

definition ascii :: "string \<Rightarrow> pystr" where
  "ascii s = map of_char s"

text \<open>\<^verbatim>\<open>sep.join(parts)\<close>\<close>

fun str_join :: "pystr \<Rightarrow> pystr list \<Rightarrow> pystr" where
  "str_join sep [] = []"
| "str_join sep [x] = x"
| "str_join sep (x # y # ys) = x @ sep @ str_join sep (y # ys)"

text \<open>\<^verbatim>\<open>s.replace(c, new)\<close> for a one-character pattern \<open>c\<close>\<close>

fun str_replace1 :: "nat \<Rightarrow> pystr \<Rightarrow> pystr \<Rightarrow> pystr" where
  "str_replace1 c new [] = []"
| "str_replace1 c new (x # xs) =
     (if x = c then new @ str_replace1 c new xs else x # str_replace1 c new xs)"

text \<open>
  \<^verbatim>\<open>str.isspace\<close> per character, as \<^verbatim>\<open>str.strip()\<close> uses it, and the line boundaries of
  \<^verbatim>\<open>str.splitlines()\<close> (CPython's \<^verbatim>\<open>Py_UNICODE_ISSPACE\<close> and \<^verbatim>\<open>Py_UNICODE_ISLINEBREAK\<close>).
\<close>

definition is_space :: "nat \<Rightarrow> bool" where
  "is_space c \<longleftrightarrow>
     (9 \<le> c \<and> c \<le> 13) \<or> (28 \<le> c \<and> c \<le> 32) \<or> c = 133 \<or> c = 160 \<or> c = 5760
     \<or> (8192 \<le> c \<and> c \<le> 8202) \<or> c = 8232 \<or> c = 8233 \<or> c = 8239 \<or> c = 8287 \<or> c = 12288"

definition is_linebreak :: "nat \<Rightarrow> bool" where
  "is_linebreak c \<longleftrightarrow>
     (10 \<le> c \<and> c \<le> 13) \<or> (28 \<le> c \<and> c \<le> 30) \<or> c = 133 \<or> c = 8232 \<or> c = 8233"

definition lstrip :: "pystr \<Rightarrow> pystr" where
  "lstrip s = dropWhile is_space s"

definition rstrip :: "pystr \<Rightarrow> pystr" where
  "rstrip s = rev (dropWhile is_space (rev s))"

definition strip :: "pystr \<Rightarrow> pystr" where
  "strip s = rstrip (lstrip s)"

fun startswith :: "pystr \<Rightarrow> pystr \<Rightarrow> bool" where
  "startswith s [] = True"
| "startswith [] (p # ps) = False"
| "startswith (c # cs) (p # ps) = (c = p \<and> startswith cs ps)"

definition endswith :: "pystr \<Rightarrow> pystr \<Rightarrow> bool" where
  "endswith s p = startswith (rev s) (rev p)"

text \<open>\<^verbatim>\<open>pattern in buf\<close>: plain substring containment\<close>

fun str_contains :: "pystr \<Rightarrow> pystr \<Rightarrow> bool" where
  "str_contains pat [] = (pat = [])"
| "str_contains pat (c # cs) = (startswith (c # cs) pat \<or> str_contains pat cs)"

text \<open>
  \<^verbatim>\<open>s.splitlines()\<close>: a line ends at a line boundary, \<^verbatim>\<open>\r\n\<close> counting as one; the
  boundaries are dropped, and a string that ends with a boundary has no empty last
  line. The first argument is the line read so far.
\<close>

fun splitlines_from :: "pystr \<Rightarrow> pystr \<Rightarrow> pystr list" where
  "splitlines_from cur [] = (if cur = [] then [] else [cur])"
| "splitlines_from cur (c # cs) =
     (if is_linebreak c then
        (case cs of
           d # ds \<Rightarrow>
             if c = 13 \<and> d = 10 then cur # splitlines_from [] ds
             else cur # splitlines_from [] cs
         | [] \<Rightarrow> cur # splitlines_from [] cs)
      else splitlines_from (cur @ [c]) cs)"

definition splitlines :: "pystr \<Rightarrow> pystr list" where
  "splitlines s = splitlines_from [] s"

text \<open>\<^verbatim>\<open>s.split(sep)\<close> for a one-character separator: always at least one field\<close>

fun split_from :: "nat \<Rightarrow> pystr \<Rightarrow> pystr \<Rightarrow> pystr list" where
  "split_from sep cur [] = [cur]"
| "split_from sep cur (c # cs) =
     (if c = sep then cur # split_from sep [] cs else split_from sep (cur @ [c]) cs)"

definition str_split :: "nat \<Rightarrow> pystr \<Rightarrow> pystr list" where
  "str_split sep s = split_from sep [] s"

text \<open>\<^verbatim>\<open>str(n)\<close> for an integer, and zero-padded decimals for \<^verbatim>\<open>strftime\<close>\<close>

fun str_nat :: "nat \<Rightarrow> pystr" where
  "str_nat n = (if n < 10 then [48 + n] else str_nat (n div 10) @ [48 + n mod 10])"

declare str_nat.simps [simp del]

definition str_int :: "int \<Rightarrow> pystr" where
  "str_int i = (if i < 0 then 45 # str_nat (nat (- i)) else str_nat (nat i))"

definition zero_pad :: "nat \<Rightarrow> nat \<Rightarrow> pystr" where
  "zero_pad width n = replicate (width - length (str_nat n)) 48 @ str_nat n"

text \<open>Truth value of an optional string: \<^verbatim>\<open>None\<close> and \<^verbatim>\<open>""\<close> are false.\<close>

fun truthy :: "pystr option \<Rightarrow> bool" where
  "truthy None = False"
| "truthy (Some s) = (s \<noteq> [])"

section \<open>Paths\<close>

text \<open>
  \<^verbatim>\<open>os.path.join(a, b)\<close> on POSIX, and the string of \<^verbatim>\<open>pathlib.Path(s)\<close>: the root is
  \<^verbatim>\<open>/\<close> (or \<^verbatim>\<open>//\<close> for exactly two leading slashes), empty components and \<^verbatim>\<open>.\<close> components
  are dropped, and the empty path prints as \<^verbatim>\<open>.\<close>. \<^verbatim>\<open>Path(p) / name\<close> joins the two raw
  strings and parses the result.
\<close>

definition posix_join :: "pystr \<Rightarrow> pystr \<Rightarrow> pystr" where
  "posix_join a b =
     (if startswith b [47] then b
      else if a = [] \<or> endswith a [47] then a @ b
      else a @ [47] @ b)"

definition splitroot :: "pystr \<Rightarrow> pystr \<times> pystr" where
  "splitroot p =
     (if \<not> startswith p [47] then ([], p)
      else if take 1 (drop 1 p) \<noteq> [47] \<or> take 1 (drop 2 p) = [47] then ([47], drop 1 p)
      else ([47, 47], drop 2 p))"

definition path_str :: "pystr \<Rightarrow> pystr" where
  "path_str s =
     (let (root, rel) = splitroot s;
          tail = filter (\<lambda>x. x \<noteq> [] \<and> x \<noteq> [46]) (str_split 47 rel);
          r = root @ str_join [47] tail
      in if r = [] then [46] else r)"

definition path_div :: "pystr \<Rightarrow> pystr \<Rightarrow> pystr" where
  "path_div p name = path_str (posix_join p name)"

datatype oserror = FileNotFoundError | PermissionError | OtherOSError

datatype exn =
    OSError oserror
  | CalledProcessError int "pystr list"
  | ValueError string

section \<open>The standard library's shlex\<close>

text \<open>
  \<^verbatim>\<open>shlex.quote\<close>: the empty string becomes \<^verbatim>\<open>''\<close>; a string of safe characters only
  (\<^verbatim>\<open>[A-Za-z0-9_@%+=:,./-]\<close>, the pattern is compiled with \<^verbatim>\<open>re.ASCII\<close>) is returned
  unchanged; any other string is wrapped in single quotes, each embedded single quote
  being replaced by \<^verbatim>\<open>'"'"'\<close>.
\<close>

definition safe_char :: "nat \<Rightarrow> bool" where
  "safe_char c \<longleftrightarrow>
     (48 \<le> c \<and> c \<le> 57) \<or> (65 \<le> c \<and> c \<le> 90) \<or> (97 \<le> c \<and> c \<le> 122) \<or> c = 95
     \<or> c = 64 \<or> c = 37 \<or> c = 43 \<or> c = 61 \<or> c = 58 \<or> c = 44 \<or> c = 46 \<or> c = 47 \<or> c = 45"

definition shlex_quote :: "pystr \<Rightarrow> pystr" where
  "shlex_quote s =
     (if s = [] then [39, 39]
      else if list_all safe_char s then s
      else [39] @ str_replace1 39 [39, 34, 39, 34, 39] s @ [39])"

text \<open>
  \<^verbatim>\<open>shlex.split(s)\<close> runs the \<^verbatim>\<open>shlex\<close> lexer in POSIX mode with
  \<^verbatim>\<open>whitespace_split = True\<close> and no comment characters. The lexer's states are
  \<^verbatim>\<open>' '\<close> (between tokens), \<^verbatim>\<open>'a'\<close> (inside a word), a quote character (inside quotes)
  and the escape character (after a backslash, remembering the state to return to).
  \<open>shlex_read\<close> follows \<^verbatim>\<open>read_token\<close> character by character and collects the tokens
  that iterating over the lexer yields; the registers are the token read so far and the
  flag \<^verbatim>\<open>quoted\<close>. Reaching the end of the input inside quotes or after a backslash raises
  \<^verbatim>\<open>ValueError\<close>.
\<close>

datatype esc_from = From_word | From_dquote

datatype lex_state = St_ws | St_word | St_quote nat | St_esc esc_from

definition lex_whitespace :: "nat \<Rightarrow> bool" where
  "lex_whitespace c \<longleftrightarrow> c = 32 \<or> c = 9 \<or> c = 13 \<or> c = 10"

definition lex_quotes :: "nat \<Rightarrow> bool" where
  "lex_quotes c \<longleftrightarrow> c = 39 \<or> c = 34"

definition lex_escape :: "nat \<Rightarrow> bool" where
  "lex_escape c \<longleftrightarrow> c = 92"

definition emit :: "pystr \<Rightarrow> bool \<Rightarrow> exn + pystr list \<Rightarrow> exn + pystr list" where
  "emit tok quoted rest =
     (if tok \<noteq> [] \<or> quoted
      then (case rest of Inl e \<Rightarrow> Inl e | Inr ts \<Rightarrow> Inr (tok # ts))
      else rest)"

fun shlex_read :: "lex_state \<Rightarrow> pystr \<Rightarrow> bool \<Rightarrow> pystr \<Rightarrow> exn + pystr list" where
  "shlex_read St_ws tok quoted [] = emit tok quoted (Inr [])"
| "shlex_read St_word tok quoted [] = emit tok quoted (Inr [])"
| "shlex_read (St_quote q) tok quoted [] = Inl (ValueError ''No closing quotation'')"
| "shlex_read (St_esc r) tok quoted [] = Inl (ValueError ''No escaped character'')"
| "shlex_read St_ws tok quoted (c # cs) =
     (if lex_whitespace c then
        (if tok \<noteq> [] \<or> quoted then emit tok quoted (shlex_read St_ws [] False cs)
         else shlex_read St_ws tok quoted cs)
      else if lex_escape c then shlex_read (St_esc From_word) tok quoted cs
      else if lex_quotes c then shlex_read (St_quote c) tok quoted cs
      else shlex_read St_word [c] quoted cs)"
| "shlex_read St_word tok quoted (c # cs) =
     (if lex_whitespace c then
        (if tok \<noteq> [] \<or> quoted then emit tok quoted (shlex_read St_ws [] False cs)
         else shlex_read St_ws tok quoted cs)
      else if lex_quotes c then shlex_read (St_quote c) tok quoted cs
      else if lex_escape c then shlex_read (St_esc From_word) tok quoted cs
      else shlex_read St_word (tok @ [c]) quoted cs)"
| "shlex_read (St_quote q) tok quoted (c # cs) =
     (if c = q then shlex_read St_word tok True cs
      else if lex_escape c \<and> q = 34 then shlex_read (St_esc From_dquote) tok True cs
      else shlex_read (St_quote q) (tok @ [c]) True cs)"
| "shlex_read (St_esc From_word) tok quoted (c # cs) =
     shlex_read St_word (tok @ [c]) quoted cs"
| "shlex_read (St_esc From_dquote) tok quoted (c # cs) =
     (if c \<noteq> 92 \<and> c \<noteq> 34 then shlex_read (St_quote 34) (tok @ [92, c]) quoted cs
      else shlex_read (St_quote 34) (tok @ [c]) quoted cs)"

definition shlex_split :: "pystr \<Rightarrow> exn + pystr list" where
  "shlex_split s = shlex_read St_ws [] False s"

text \<open>The command line of the log header (line 116 of the script).\<close>

definition command_line :: "pystr list \<Rightarrow> pystr" where
  "command_line cmd = str_join [32] (map shlex_quote cmd)"

section \<open>The environment of the script\<close>

text \<open>
  Everything the script reads from or does to its surroundings goes through a
  \<open>world\<close>: the answers of the operating system (read-only fields), a clock in seconds, the
  trace of effects so far, and the contents of files. A child process started at time
  \<open>t\<close> with an argument vector either cannot be started (\<^verbatim>\<open>OSError\<close>) or runs to a
  \<open>completed\<close> result; how long an operation takes is the environment's choice too.
  Floating-point time is idealised as a rational number.
\<close>

record completed =
  returncode :: int
  out_text :: pystr
  err_text :: pystr

record struct_time =
  tm_year :: nat
  tm_mon :: nat
  tm_mday :: nat
  tm_hour :: nat
  tm_min :: nat
  tm_sec :: nat

datatype event =
    Print_out pystr
  | Print_err pystr
  | Spawn "pystr list" "pystr option"
  | Spawn_detached "pystr list" "pystr option"
  | Feed "pystr list" pystr
  | Slept rat
  | Made_dirs pystr

record world =
  environ_PATH :: "pystr option"
  path_exists :: "pystr \<Rightarrow> oserror + bool"
  path_is_file :: "pystr \<Rightarrow> oserror + bool"
  os_access_x :: "pystr \<Rightarrow> bool"
  os_getcwd :: pystr
  localtime :: "rat \<Rightarrow> struct_time"
  child :: "rat \<Rightarrow> pystr list \<Rightarrow> pystr option \<Rightarrow> oserror + completed"
  child_duration :: "rat \<Rightarrow> pystr list \<Rightarrow> rat"
  child_pid :: "rat \<Rightarrow> pystr list \<Rightarrow> nat"
  oversleep :: "rat \<Rightarrow> rat"
  io_latency :: "rat \<Rightarrow> rat"
  makedirs_error :: "pystr \<Rightarrow> oserror option"
  open_error :: "pystr \<Rightarrow> oserror option"
  clock :: rat
  events :: "event list"
  files :: "pystr \<Rightarrow> pystr option"
  buffers :: "pystr \<Rightarrow> pystr"

text \<open>
  A computation either does not return (\<open>None\<close>), or returns an exception or a value
  together with the new world.
\<close>

type_synonym 'a prog = "world \<Rightarrow> ((exn + 'a) \<times> world) option"

definition ret :: "'a \<Rightarrow> 'a prog" where
  "ret x = (\<lambda>w. Some (Inr x, w))"

definition raise :: "exn \<Rightarrow> 'a prog" where
  "raise e = (\<lambda>w. Some (Inl e, w))"

definition bind :: "'a prog \<Rightarrow> ('a \<Rightarrow> 'b prog) \<Rightarrow> 'b prog" where
  "bind m f =
     (\<lambda>w. case m w of
             None \<Rightarrow> None
           | Some (Inl e, w') \<Rightarrow> Some (Inl e, w')
           | Some (Inr x, w') \<Rightarrow> f x w')"

text \<open>\<^verbatim>\<open>try: m  except <caught>: handler\<close>\<close>

definition try_except :: "'a prog \<Rightarrow> (exn \<Rightarrow> bool) \<Rightarrow> 'a prog \<Rightarrow> 'a prog" where
  "try_except m caught handler =
     (\<lambda>w. case m w of
             None \<Rightarrow> None
           | Some (Inl e, w') \<Rightarrow> if caught e then handler w' else Some (Inl e, w')
           | Some (Inr x, w') \<Rightarrow> Some (Inr x, w'))"

text \<open>\<^verbatim>\<open>try: m  finally: cleanup\<close>, as the \<^verbatim>\<open>with\<close> statement does\<close>

definition try_finally :: "'a prog \<Rightarrow> unit prog \<Rightarrow> 'a prog" where
  "try_finally m cleanup =
     (\<lambda>w. case m w of
             None \<Rightarrow> None
           | Some (r, w') \<Rightarrow>
               (case cleanup w' of
                  None \<Rightarrow> None
                | Some (Inl e, w'') \<Rightarrow> Some (Inl e, w'')
                | Some (Inr u, w'') \<Rightarrow> Some (r, w'')))"

fun is_OSError :: "exn \<Rightarrow> bool" where
  "is_OSError (OSError e) = True"
| "is_OSError e = False"

fun is_CalledProcessError :: "exn \<Rightarrow> bool" where
  "is_CalledProcessError (CalledProcessError rc argv) = True"
| "is_CalledProcessError e = False"

definition any_exception :: "exn \<Rightarrow> bool" where
  "any_exception e = True"

subsection \<open>Primitive operations\<close>

definition log_event :: "event \<Rightarrow> world \<Rightarrow> world" where
  "log_event ev w = w\<lparr>events := events w @ [ev]\<rparr>"

text \<open>
  Text written to the standard output and to the error stream; \<^verbatim>\<open>print(s)\<close> writes
  \<open>s\<close> and a newline.
\<close>

definition write_stdout :: "pystr \<Rightarrow> unit prog" where
  "write_stdout s = (\<lambda>w. Some (Inr (), log_event (Print_out s) w))"

definition write_stderr :: "pystr \<Rightarrow> unit prog" where
  "write_stderr s = (\<lambda>w. Some (Inr (), log_event (Print_err s) w))"

definition print_out :: "pystr \<Rightarrow> unit prog" where
  "print_out s = write_stdout (s @ [10])"

definition print_err :: "pystr \<Rightarrow> unit prog" where
  "print_err s = write_stderr (s @ [10])"

definition time_time :: "rat prog" where
  "time_time = (\<lambda>w. Some (Inr (clock w), w))"

text \<open>\<^verbatim>\<open>time.sleep(d)\<close> raises \<^verbatim>\<open>ValueError\<close> for a negative \<open>d\<close>.\<close>

definition time_sleep :: "rat \<Rightarrow> unit prog" where
  "time_sleep d =
     (\<lambda>w. if d < 0 then Some (Inl (ValueError ''sleep length must be non-negative''), w)
           else Some (Inr (), log_event (Slept d) (w\<lparr>clock := clock w + d + oversleep w (clock w)\<rparr>)))"

definition strftime_compact :: "struct_time \<Rightarrow> pystr" where
  "strftime_compact tm =
     zero_pad 4 (tm_year tm) @ zero_pad 2 (tm_mon tm) @ zero_pad 2 (tm_mday tm) @ [45]
     @ zero_pad 2 (tm_hour tm) @ zero_pad 2 (tm_min tm) @ zero_pad 2 (tm_sec tm)"

definition strftime_iso :: "struct_time \<Rightarrow> pystr" where
  "strftime_iso tm =
     zero_pad 4 (tm_year tm) @ [45] @ zero_pad 2 (tm_mon tm) @ [45] @ zero_pad 2 (tm_mday tm)
     @ [32] @ zero_pad 2 (tm_hour tm) @ [58] @ zero_pad 2 (tm_min tm) @ [58]
     @ zero_pad 2 (tm_sec tm)"

text \<open>\<^verbatim>\<open>time.strftime(fmt)\<close> formats the local time of the moment of the call.\<close>

definition time_strftime :: "(struct_time \<Rightarrow> pystr) \<Rightarrow> pystr prog" where
  "time_strftime fmt = (\<lambda>w. Some (Inr (fmt (localtime w (clock w))), w))"

definition getcwd :: "pystr prog" where
  "getcwd = (\<lambda>w. Some (Inr (os_getcwd w), w))"

text \<open>
  \<^verbatim>\<open>Path(p).exists()\<close> and \<^verbatim>\<open>Path(p).is_file()\<close> answer, or raise an \<^verbatim>\<open>OSError\<close> such as
  \<^verbatim>\<open>PermissionError\<close> when the file cannot be examined.
\<close>

definition exists_path :: "pystr \<Rightarrow> bool prog" where
  "exists_path p =
     (\<lambda>w. case path_exists w (path_str p) of
             Inl e \<Rightarrow> Some (Inl (OSError e), w)
           | Inr b \<Rightarrow> Some (Inr b, w))"

definition is_file :: "pystr \<Rightarrow> bool prog" where
  "is_file p =
     (\<lambda>w. case path_is_file w p of
             Inl e \<Rightarrow> Some (Inl (OSError e), w)
           | Inr b \<Rightarrow> Some (Inr b, w))"

definition access_x :: "pystr \<Rightarrow> bool prog" where
  "access_x p = (\<lambda>w. Some (Inr (os_access_x w p), w))"

definition environ_get_PATH :: "pystr \<Rightarrow> pystr prog" where
  "environ_get_PATH dflt =
     (\<lambda>w. Some (Inr (case environ_PATH w of None \<Rightarrow> dflt | Some p \<Rightarrow> p), w))"

definition io_step :: "world \<Rightarrow> world" where
  "io_step w = w\<lparr>clock := clock w + io_latency w (clock w)\<rparr>"

definition os_makedirs :: "pystr \<Rightarrow> unit prog" where
  "os_makedirs d =
     (\<lambda>w. case makedirs_error w d of
             Some e \<Rightarrow> Some (Inl (OSError e), io_step w)
           | None \<Rightarrow> Some (Inr (), log_event (Made_dirs d) (io_step w)))"

text \<open>
  An open text file is named by its path. \<^verbatim>\<open>open(path, "w")\<close> truncates the file;
  \<^verbatim>\<open>write\<close> fills the buffer of the file object, \<^verbatim>\<open>flush\<close> and \<^verbatim>\<open>close\<close> move the buffer
  to the end of the file.
\<close>

definition open_w :: "pystr \<Rightarrow> pystr prog" where
  "open_w path =
     (\<lambda>w. case open_error w path of
             Some e \<Rightarrow> Some (Inl (OSError e), io_step w)
           | None \<Rightarrow>
               Some (Inr path,
                 (io_step w)\<lparr>files := (files w)(path \<mapsto> []), buffers := (buffers w)(path := [])\<rparr>))"

definition file_write :: "pystr \<Rightarrow> pystr \<Rightarrow> unit prog" where
  "file_write lf s = (\<lambda>w. Some (Inr (), w\<lparr>buffers := (buffers w)(lf := buffers w lf @ s)\<rparr>))"

definition append_file :: "pystr \<Rightarrow> pystr \<Rightarrow> world \<Rightarrow> world" where
  "append_file path s w =
     w\<lparr>files := (files w)(path \<mapsto> (case files w path of None \<Rightarrow> [] | Some c \<Rightarrow> c) @ s)\<rparr>"

definition file_flush :: "pystr \<Rightarrow> unit prog" where
  "file_flush lf =
     (\<lambda>w. Some (Inr (), (append_file lf (buffers w lf) (io_step w))\<lparr>buffers := (buffers w)(lf := [])\<rparr>))"

definition with_open_w :: "pystr \<Rightarrow> (pystr \<Rightarrow> 'a prog) \<Rightarrow> 'a prog" where
  "with_open_w path body = bind (open_w path) (\<lambda>lf. try_finally (body lf) (file_flush lf))"

text \<open>
  \<^verbatim>\<open>subprocess.run(argv, cwd=cwd)\<close>: the child runs to its end and the caller waits.
  \<^verbatim>\<open>check_call\<close> and \<^verbatim>\<open>check_output\<close> raise \<^verbatim>\<open>CalledProcessError\<close> on a non-zero exit
  code.
\<close>

definition subprocess_run :: "pystr list \<Rightarrow> pystr option \<Rightarrow> completed prog" where
  "subprocess_run argv cwd =
     (\<lambda>w. case child w (clock w) argv cwd of
             Inl e \<Rightarrow> Some (Inl (OSError e), w)
           | Inr c \<Rightarrow>
               Some (Inr c,
                 log_event (Spawn argv cwd) (w\<lparr>clock := clock w + child_duration w (clock w) argv\<rparr>)))"

definition check_call :: "pystr list \<Rightarrow> unit prog" where
  "check_call argv =
     bind (subprocess_run argv None)
       (\<lambda>c. if returncode c \<noteq> 0 then raise (CalledProcessError (returncode c) argv) else ret ())"

definition check_output :: "pystr list \<Rightarrow> pystr prog" where
  "check_output argv =
     bind (subprocess_run argv None)
       (\<lambda>c. if returncode c \<noteq> 0 then raise (CalledProcessError (returncode c) argv)
            else ret (out_text c))"

text \<open>
  \<^verbatim>\<open>subprocess.Popen(argv, cwd=cwd, stdout=lf, stderr=STDOUT, stdin=DEVNULL,
  start_new_session=True)\<close>: the caller does not wait. The child writes to the file
  itself, past the buffer of the file object; its whole combined output, \<open>out_text\<close>,
  follows what the file holds when the child starts.
\<close>

definition popen_detached :: "pystr list \<Rightarrow> pystr option \<Rightarrow> pystr option \<Rightarrow> nat prog" where
  "popen_detached argv cwd logf =
     (\<lambda>w. case child w (clock w) argv cwd of
             Inl e \<Rightarrow> Some (Inl (OSError e), w)
           | Inr c \<Rightarrow>
               Some (Inr (child_pid w (clock w) argv),
                 log_event (Spawn_detached argv cwd)
                   (case logf of None \<Rightarrow> io_step w
                    | Some lf \<Rightarrow> append_file lf (out_text c) (io_step w))))"

text \<open>\<^verbatim>\<open>Popen(argv, stdin=PIPE)\<close> followed by \<^verbatim>\<open>communicate(input=text)\<close>\<close>

definition popen_communicate :: "pystr list \<Rightarrow> pystr \<Rightarrow> unit prog" where
  "popen_communicate argv text =
     (\<lambda>w. case child w (clock w) argv None of
             Inl e \<Rightarrow> Some (Inl (OSError e), w)
           | Inr c \<Rightarrow>
               Some (Inr (),
                 log_event (Feed argv text) (w\<lparr>clock := clock w + child_duration w (clock w) argv\<rparr>)))"

section \<open>The script\<close>

subsection \<open>Parsed arguments\<close>

datatype mode_flag = Auto | Headless | Interactive

record args =
  prompt :: "pystr option"
  mode :: mode_flag
  permission_mode :: "pystr option"
  allowed_tools :: "pystr option"
  output_format :: "pystr option"
  json_schema :: "pystr option"
  append_system_prompt :: "pystr option"
  system_prompt :: "pystr option"
  continue_latest :: bool
  resume :: "pystr option"
  claude_bin :: pystr
  cwd :: "pystr option"
  notify :: bool
  clipboard :: bool
  background :: bool
  log_dir :: pystr
  tmux_session :: pystr
  interactive_wait_s :: int
  interactive_send_delay_ms :: int
  extra :: "pystr list"

subsection \<open>which\<close>

fun which_scan :: "pystr \<Rightarrow> pystr list \<Rightarrow> (pystr option) prog" where
  "which_scan name [] = ret None"
| "which_scan name (p # ps) =
     (let cand = path_div p name in
      bind (try_except
              (bind (is_file cand) (\<lambda>f. if f then access_x cand else ret False))
              is_OSError
              (ret False))
        (\<lambda>hit. if hit then ret (Some cand) else which_scan name ps))"

definition which :: "pystr \<Rightarrow> (pystr option) prog" where
  "which name = bind (environ_get_PATH []) (\<lambda>path. which_scan name (str_split 58 path))"

subsection \<open>looks\_like\_slash\_commands\<close>

definition looks_like_slash_commands :: "pystr option \<Rightarrow> bool" where
  "looks_like_slash_commands p =
     (case p of
        None \<Rightarrow> False
      | Some s \<Rightarrow>
          if s = [] then False
          else list_ex (\<lambda>line. startswith (strip line) [47]) (splitlines s))"

subsection \<open>Notifications and the clipboard\<close>

definition notify_macos :: "pystr \<Rightarrow> pystr \<Rightarrow> unit prog" where
  "notify_macos title message =
     try_except
       (let script = ascii ''display notification '' @ [34] @ message @ [34]
                     @ ascii '' with title '' @ [34] @ title @ [34]
        in bind (subprocess_run [ascii ''osascript'', ascii ''-e'', script] None) (\<lambda>c. ret ()))
       any_exception
       (ret ())"

definition copy_to_clipboard :: "pystr \<Rightarrow> unit prog" where
  "copy_to_clipboard text =
     try_except (popen_communicate [ascii ''pbcopy''] text) any_exception (ret ())"

subsection \<open>build\_headless\_cmd\<close>

definition opt_flag :: "pystr \<Rightarrow> pystr option \<Rightarrow> pystr list" where
  "opt_flag flag v = (case v of None \<Rightarrow> [] | Some s \<Rightarrow> if s = [] then [] else [flag, s])"

definition build_headless_cmd :: "args \<Rightarrow> pystr list" where
  "build_headless_cmd a =
     [claude_bin a]
     @ opt_flag (ascii ''--permission-mode'') (permission_mode a)
     @ (case prompt a of None \<Rightarrow> [] | Some p \<Rightarrow> [ascii ''-p'', p])
     @ opt_flag (ascii ''--allowedTools'') (allowed_tools a)
     @ opt_flag (ascii ''--output-format'') (output_format a)
     @ opt_flag (ascii ''--json-schema'') (json_schema a)
     @ opt_flag (ascii ''--append-system-prompt'') (append_system_prompt a)
     @ opt_flag (ascii ''--system-prompt'') (system_prompt a)
     @ (if continue_latest a then [ascii ''--continue''] else [])
     @ opt_flag (ascii ''--resume'') (resume a)
     @ extra a"

subsection \<open>run\_background\<close>

definition script_wrap :: "pystr \<Rightarrow> pystr list \<Rightarrow> pystr list" where
  "script_wrap script_bin cmd = [script_bin, ascii ''-q'', ascii ''/dev/null''] @ cmd"

definition cwd_or_getcwd :: "pystr option \<Rightarrow> pystr prog" where
  "cwd_or_getcwd d = (case d of None \<Rightarrow> getcwd | Some s \<Rightarrow> if s = [] then getcwd else ret s)"

definition log_file_name :: "pystr \<Rightarrow> pystr" where
  "log_file_name timestamp = ascii ''claude-'' @ timestamp @ ascii ''.log''"

definition watcher_script :: "nat \<Rightarrow> pystr" where
  "watcher_script pid =
     ascii ''while kill -0 '' @ str_nat pid @ ascii '' 2>/dev/null; do sleep 2; done; ''
     @ ascii ''osascript -e '' @ [39] @ ascii ''display notification '' @ [34]
     @ ascii ''Background task finished (PID '' @ str_nat pid @ ascii '')'' @ [34, 32]
     @ ascii ''with title '' @ [34] @ ascii ''Claude Code'' @ [34, 39]"

definition write_header :: "pystr \<Rightarrow> pystr list \<Rightarrow> pystr option \<Rightarrow> unit prog" where
  "write_header lf cmd wd =
     bind (file_write lf (ascii ''# Command: '' @ command_line cmd @ [10])) (\<lambda>u1.
     bind (time_strftime strftime_iso) (\<lambda>started.
     bind (file_write lf (ascii ''# Started: '' @ started @ [10])) (\<lambda>u2.
     bind (cwd_or_getcwd wd) (\<lambda>d.
     bind (file_write lf (ascii ''# CWD: '' @ d @ [10, 10])) (\<lambda>u3.
     file_flush lf)))))"

definition launch_logged :: "pystr \<Rightarrow> pystr list \<Rightarrow> pystr option \<Rightarrow> nat prog" where
  "launch_logged lf cmd wd =
     bind (which (ascii ''script'')) (\<lambda>script_bin.
     let full_cmd = (case script_bin of
                       None \<Rightarrow> cmd
                     | Some sb \<Rightarrow> if sb = [] then cmd else script_wrap sb cmd)
     in popen_detached full_cmd wd (Some lf))"

definition report_background :: "nat \<Rightarrow> pystr \<Rightarrow> unit prog" where
  "report_background pid log_file =
     bind (print_out (ascii ''Background process started:'')) (\<lambda>u1.
     bind (print_out (ascii ''  PID:  '' @ str_nat pid)) (\<lambda>u2.
     bind (print_out (ascii ''  Log:  '' @ log_file)) (\<lambda>u3.
     bind (print_out (ascii ''  Tail: tail -f '' @ shlex_quote log_file)) (\<lambda>u4.
     print_out (ascii ''  Stop: kill '' @ str_nat pid)))))"

definition run_background :: "pystr list \<Rightarrow> pystr option \<Rightarrow> pystr \<Rightarrow> bool \<Rightarrow> int prog" where
  "run_background cmd wd logdir ntfy =
     bind (os_makedirs logdir) (\<lambda>u0.
     bind (time_strftime strftime_compact) (\<lambda>timestamp.
     let log_file = posix_join logdir (log_file_name timestamp) in
     bind (with_open_w log_file (\<lambda>lf.
             bind (write_header lf cmd wd) (\<lambda>u1. launch_logged lf cmd wd))) (\<lambda>pid.
     bind (report_background pid log_file) (\<lambda>u2.
     bind (if ntfy
           then bind (popen_detached [ascii ''bash'', ascii ''-c'', watcher_script pid] None None)
                  (\<lambda>wpid. ret ())
           else ret ()) (\<lambda>u3.
     ret 0)))))"

subsection \<open>run\_with\_pty\<close>

definition run_with_pty :: "pystr list \<Rightarrow> pystr option \<Rightarrow> int prog" where
  "run_with_pty cmd wd =
     bind (which (ascii ''script'')) (\<lambda>script_bin.
     case script_bin of
       None \<Rightarrow> bind (subprocess_run cmd wd) (\<lambda>proc. ret (returncode proc))
     | Some sb \<Rightarrow>
         if sb = [] then bind (subprocess_run cmd wd) (\<lambda>proc. ret (returncode proc))
         else bind (subprocess_run (script_wrap sb cmd) wd) (\<lambda>proc. ret (returncode proc)))"

subsection \<open>The tmux session controller\<close>

definition tmux_cmd :: "pystr list \<Rightarrow> pystr list" where
  "tmux_cmd as = ascii ''tmux'' # as"

definition tmux_capture :: "pystr \<Rightarrow> int \<Rightarrow> pystr prog" where
  "tmux_capture target lines =
     check_output (tmux_cmd [ascii ''capture-pane'', ascii ''-p'', ascii ''-J'', ascii ''-t'',
                             target, ascii ''-S'', 45 # str_int lines])"

text \<open>The body of the \<^verbatim>\<open>try\<close> in the polling loop: was the pattern seen in this poll?\<close>

definition poll_pane :: "pystr \<Rightarrow> pystr \<Rightarrow> bool prog" where
  "poll_pane target pattern =
     try_except
       (bind (tmux_capture target 200) (\<lambda>buf. ret (str_contains pattern buf)))
       is_CalledProcessError
       (ret False)"

text \<open>
  The loop \<^verbatim>\<open>while time.time() < deadline\<close>. It stops only when the clock passes the
  deadline or the pattern is seen, so it is a partial function: \<open>None\<close> stands for a loop
  that runs forever.
\<close>

partial_function (option) wait_loop ::
  "pystr \<Rightarrow> pystr \<Rightarrow> rat \<Rightarrow> rat \<Rightarrow> world \<Rightarrow> ((exn + bool) \<times> world) option" where
  "wait_loop target pattern deadline poll_s w =
     (if clock w < deadline then
        (case poll_pane target pattern w of
           None \<Rightarrow> None
         | Some (Inl e, w1) \<Rightarrow> Some (Inl e, w1)
         | Some (Inr found, w1) \<Rightarrow>
             if found then Some (Inr True, w1)
             else (case time_sleep poll_s w1 of
                     None \<Rightarrow> None
                   | Some (Inl e, w2) \<Rightarrow> Some (Inl e, w2)
                   | Some (Inr u, w2) \<Rightarrow> wait_loop target pattern deadline poll_s w2))
      else Some (Inr False, w))"

definition tmux_wait_for_text :: "pystr \<Rightarrow> pystr \<Rightarrow> int \<Rightarrow> rat \<Rightarrow> bool prog" where
  "tmux_wait_for_text target pattern timeout_s poll_s =
     bind time_time (\<lambda>now. wait_loop target pattern (now + of_int timeout_s) poll_s)"

definition send_keys :: "pystr \<Rightarrow> pystr list \<Rightarrow> pystr list" where
  "send_keys target keys = tmux_cmd ([ascii ''send-keys'', ascii ''-t'', target] @ keys)"

definition trust_text :: pystr where
  "trust_text = ascii ''Yes, I trust this folder''"

text \<open>Lines 253 to 259: the workspace trust prompt.\<close>

definition handle_trust_prompt :: "pystr \<Rightarrow> unit prog" where
  "handle_trust_prompt target =
     bind (tmux_wait_for_text target trust_text 20 (1 / 2)) (\<lambda>found.
     if found then
       bind (subprocess_run (send_keys target [ascii ''Enter'']) None) (\<lambda>c1.
       bind (time_sleep (4 / 5)) (\<lambda>u1.
       bind (tmux_wait_for_text target trust_text 2 (1 / 2)) (\<lambda>again.
       if again then
         bind (subprocess_run (send_keys target [ascii ''1'']) None) (\<lambda>c2.
         bind (subprocess_run (send_keys target [ascii ''Enter'']) None) (\<lambda>c3. ret ()))
       else ret ())))
     else ret ())"

fun send_lines :: "pystr \<Rightarrow> rat \<Rightarrow> pystr list \<Rightarrow> unit prog" where
  "send_lines target delay [] = ret ()"
| "send_lines target delay (line # rest) =
     bind (check_call (send_keys target [ascii ''-l'', ascii ''--'', line])) (\<lambda>u1.
     bind (check_call (send_keys target [ascii ''Enter''])) (\<lambda>u2.
     bind (time_sleep delay) (\<lambda>u3.
     send_lines target delay rest)))"

definition claude_parts :: "args \<Rightarrow> pystr list" where
  "claude_parts a =
     [claude_bin a]
     @ opt_flag (ascii ''--permission-mode'') (permission_mode a)
     @ opt_flag (ascii ''--allowedTools'') (allowed_tools a)
     @ opt_flag (ascii ''--append-system-prompt'') (append_system_prompt a)
     @ opt_flag (ascii ''--system-prompt'') (system_prompt a)
     @ (if continue_latest a then [ascii ''--continue''] else [])
     @ opt_flag (ascii ''--resume'') (resume a)
     @ extra a"

definition report_session :: "pystr \<Rightarrow> pystr \<Rightarrow> unit prog" where
  "report_session session target =
     bind (print_out (ascii ''Interactive Claude Code started in tmux session: '' @ session)) (\<lambda>u1.
     bind (print_out (ascii ''  Attach:   tmux attach -t '' @ shlex_quote session)) (\<lambda>u2.
     print_out (ascii ''  Snapshot: tmux capture-pane -p -J -t '' @ shlex_quote target
                @ ascii '' -S -200'')))"

definition snapshot :: "pystr \<Rightarrow> int \<Rightarrow> unit prog" where
  "snapshot target wait_s =
     (if wait_s > 0 then
        bind (time_sleep (of_int wait_s)) (\<lambda>u1.
        try_except
          (bind (tmux_capture target 200) (\<lambda>snap.
           bind (print_out ([10] @ ascii ''--- tmux snapshot (last 200 lines) ---'' @ [10])) (\<lambda>u2.
           print_out snap)))
          is_CalledProcessError
          (ret ()))
      else ret ())"

definition run_interactive_tmux :: "args \<Rightarrow> int prog" where
  "run_interactive_tmux a =
     bind (which (ascii ''tmux'')) (\<lambda>tmux_bin.
     if \<not> truthy tmux_bin then
       bind (print_err (ascii ''Error: tmux not found. Install via: brew install tmux'')) (\<lambda>u. ret 2)
     else
       let session = tmux_session a; target = session @ ascii '':0.0'' in
       bind (subprocess_run (tmux_cmd [ascii ''kill-session'', ascii ''-t'', session]) None) (\<lambda>c0.
       bind (check_call (tmux_cmd [ascii ''new'', ascii ''-d'', ascii ''-s'', session,
                                   ascii ''-n'', ascii ''claude''])) (\<lambda>u1.
       bind (cwd_or_getcwd (cwd a)) (\<lambda>wd.
       let launch = ascii ''cd '' @ shlex_quote wd @ ascii '' && '' @ command_line (claude_parts a) in
       bind (check_call (send_keys target [ascii ''-l'', ascii ''--'', launch])) (\<lambda>u2.
       bind (check_call (send_keys target [ascii ''Enter''])) (\<lambda>u3.
       bind (handle_trust_prompt target) (\<lambda>u4.
       bind (case prompt a of
               None \<Rightarrow> ret ()
             | Some p \<Rightarrow>
                 if p = [] then ret ()
                 else send_lines target (of_int (interactive_send_delay_ms a) / 1000)
                        (filter (\<lambda>ln. strip ln \<noteq> []) (splitlines p))) (\<lambda>u5.
       bind (report_session session target) (\<lambda>u6.
       bind (snapshot target (interactive_wait_s a)) (\<lambda>u7.
       ret 0))))))))))"

subsection \<open>main\<close>

text \<open>Lines 385 to 388: a leading \<^verbatim>\<open>--\<close> of the passthrough arguments is dropped.\<close>

definition strip_dashes :: "pystr list \<Rightarrow> pystr list" where
  "strip_dashes ex = (case ex of [] \<Rightarrow> [] | x # xs \<Rightarrow> if x = ascii ''--'' then xs else ex)"

text \<open>Lines 390 to 400: the claude binary; \<open>None\<close> after the diagnostic has been printed.\<close>

definition report_missing_claude :: "args \<Rightarrow> unit prog" where
  "report_missing_claude a =
     bind (print_err (ascii ''Error: claude binary not found at '' @ claude_bin a)) (\<lambda>u1.
     bind (print_err (ascii ''Install: npm install -g @anthropic-ai/claude-code'')) (\<lambda>u2.
     print_err (ascii ''Or set CLAUDE_CODE_BIN=/path/to/claude'')))"

definition resolve_claude :: "args \<Rightarrow> (args option) prog" where
  "resolve_claude a =
     bind (exists_path (claude_bin a)) (\<lambda>ex.
     if \<not> ex then
       bind (which (ascii ''claude'')) (\<lambda>found.
       case found of
         None \<Rightarrow> bind (report_missing_claude a) (\<lambda>u. ret None)
       | Some f \<Rightarrow>
           if f = [] then bind (report_missing_claude a) (\<lambda>u. ret None)
           else ret (Some (a\<lparr>claude_bin := f\<rparr>)))
     else ret (Some a))"

text \<open>Lines 403 to 405.\<close>

definition determine_mode :: "args \<Rightarrow> mode_flag" where
  "determine_mode a =
     (if mode a = Auto \<and> looks_like_slash_commands (prompt a) then Interactive else mode a)"

text \<open>Lines 415 to 427: the headless run whose output goes to the clipboard.\<close>

definition run_clipboard :: "pystr list \<Rightarrow> pystr option \<Rightarrow> int prog" where
  "run_clipboard cmd wd =
     bind (subprocess_run (script_wrap (ascii ''script'') cmd) wd) (\<lambda>proc.
     bind (write_stdout (out_text proc)) (\<lambda>u1.
     bind (if err_text proc \<noteq> [] then write_stderr (err_text proc) else ret ()) (\<lambda>u2.
     bind (copy_to_clipboard (out_text proc)) (\<lambda>u3.
     ret (returncode proc)))))"

text \<open>Lines 402 to 436: the mode is determined and the run is dispatched.\<close>

definition dispatch :: "args \<Rightarrow> int prog" where
  "dispatch a =
     (let m = determine_mode a in
      if background a \<and> m \<noteq> Interactive then
        run_background (build_headless_cmd a) (cwd a) (log_dir a) (notify a)
      else
        bind (if m = Interactive then run_interactive_tmux a
              else if clipboard a then run_clipboard (build_headless_cmd a) (cwd a)
              else run_with_pty (build_headless_cmd a) (cwd a)) (\<lambda>rc.
        bind (if notify a
              then notify_macos (ascii ''Claude Code'')
                     (ascii ''Headless task ''
                      @ (if rc = 0 then ascii ''completed''
                         else ascii ''failed (exit '' @ str_int rc @ ascii '')''))
              else ret ()) (\<lambda>u.
        ret rc)))"

definition main :: "args \<Rightarrow> int prog" where
  "main a0 =
     bind (resolve_claude (a0\<lparr>extra := strip_dashes (extra a0)\<rparr>)) (\<lambda>r.
     case r of
       None \<Rightarrow> ret 2
     | Some a \<Rightarrow> dispatch a)"

section \<open>Notions used to state the properties\<close>

text \<open>
  The directories of the search path, the candidate paths of a name in their order, and
  what makes a candidate a match: it is a regular file and may be executed. A candidate
  whose file test fails with an error is no match.
\<close>

definition search_dirs :: "world \<Rightarrow> pystr list" where
  "search_dirs w = str_split 58 (case environ_PATH w of None \<Rightarrow> [] | Some p \<Rightarrow> p)"

definition candidates :: "world \<Rightarrow> pystr \<Rightarrow> pystr list" where
  "candidates w name = map (\<lambda>p. path_div p name) (search_dirs w)"

definition runnable :: "world \<Rightarrow> pystr \<Rightarrow> bool" where
  "runnable w c \<longleftrightarrow> path_is_file w c = Inr True \<and> os_access_x w c"

text \<open>
  The heuristic in the words of the specification: some line of the prompt, after
  trimming whitespace, begins with a slash. A missing prompt has no lines.
\<close>

definition has_slash_line :: "pystr option \<Rightarrow> bool" where
  "has_slash_line p \<longleftrightarrow>
     (\<exists>s. p = Some s \<and> (\<exists>line \<in> set (splitlines s). startswith (strip line) [47]))"

text \<open>
  The same heuristic as one pass over the characters: \<open>fresh\<close> says that only
  whitespace has been read since the start of the line, and a slash read while \<open>fresh\<close>
  holds is the first visible character of its line.
\<close>

fun slash_scan :: "bool \<Rightarrow> pystr \<Rightarrow> bool" where
  "slash_scan fresh [] = False"
| "slash_scan fresh (c # cs) =
     (if c = 47 then fresh \<or> slash_scan False cs
      else if is_linebreak c then slash_scan True cs
      else if is_space c then slash_scan fresh cs
      else slash_scan False cs)"

text \<open>
  Where the claude binary is found: at the configured path, else as the first match on
  the search path, else nowhere; the test of the configured path may itself fail.
\<close>

datatype resolved = Missing | Located pystr | Unreadable oserror

definition locate_claude :: "world \<Rightarrow> pystr \<Rightarrow> resolved" where
  "locate_claude w bin =
     (case path_exists w (path_str bin) of
        Inl e \<Rightarrow> Unreadable e
      | Inr True \<Rightarrow> Located bin
      | Inr False \<Rightarrow>
          (case find (runnable w) (candidates w (ascii ''claude'')) of
             None \<Rightarrow> Missing
           | Some f \<Rightarrow> if f = [] then Missing else Located f))"

text \<open>
  A background launch in a world \<open>w\<close>: the moments at which the log directory has been
  made, the log file opened and the header flushed; the path of the log file; the
  working directory named in the header; the header; and the command that is launched.
\<close>

definition after_io :: "world \<Rightarrow> rat \<Rightarrow> rat" where
  "after_io w t = t + io_latency w t"

definition log_path :: "world \<Rightarrow> pystr \<Rightarrow> pystr" where
  "log_path w logdir =
     posix_join logdir
       (ascii ''claude-'' @ strftime_compact (localtime w (after_io w (clock w))) @ ascii ''.log'')"

definition header_cwd :: "world \<Rightarrow> pystr option \<Rightarrow> pystr" where
  "header_cwd w wd = (case wd of None \<Rightarrow> os_getcwd w | Some s \<Rightarrow> if s = [] then os_getcwd w else s)"

definition header_lines :: "world \<Rightarrow> pystr list \<Rightarrow> pystr option \<Rightarrow> pystr list" where
  "header_lines w cmd wd =
     [ascii ''# Command: '' @ command_line cmd,
      ascii ''# Started: '' @ strftime_iso (localtime w (after_io w (after_io w (clock w)))),
      ascii ''# CWD: '' @ header_cwd w wd]"

definition log_header :: "world \<Rightarrow> pystr list \<Rightarrow> pystr option \<Rightarrow> pystr" where
  "log_header w cmd wd = concat (map (\<lambda>l. l @ [10]) (header_lines w cmd wd)) @ [10]"

definition launch_time :: "world \<Rightarrow> rat" where
  "launch_time w = after_io w (after_io w (after_io w (clock w)))"

definition launched_cmd :: "world \<Rightarrow> pystr list \<Rightarrow> pystr list" where
  "launched_cmd w cmd =
     (case find (runnable w) (candidates w (ascii ''script'')) of
        None \<Rightarrow> cmd
      | Some sb \<Rightarrow> if sb = [] then cmd else script_wrap sb cmd)"

definition watcher_cmd :: "world \<Rightarrow> pystr list \<Rightarrow> pystr list" where
  "watcher_cmd w cmd =
     [ascii ''bash'', ascii ''-c'',
      watcher_script (child_pid w (launch_time w) (launched_cmd w cmd))]"

text \<open>
  The argument vectors of the child processes started so far, in order, and the
  arguments main works with once the binary has been located at \<open>f\<close>.
\<close>

fun launches :: "event list \<Rightarrow> pystr list list" where
  "launches [] = []"
| "launches (Spawn argv wd # es) = argv # launches es"
| "launches (Spawn_detached argv wd # es) = argv # launches es"
| "launches (Feed argv text # es) = argv # launches es"
| "launches (e # es) = launches es"

definition resolved_args :: "args \<Rightarrow> pystr \<Rightarrow> args" where
  "resolved_args a f = a\<lparr>extra := strip_dashes (extra a), claude_bin := f\<rparr>"

definition report_lines :: "nat \<Rightarrow> pystr \<Rightarrow> event list" where
  "report_lines pid lf =
     [Print_out (ascii ''Background process started:'' @ [10]),
      Print_out (ascii ''  PID:  '' @ str_nat pid @ [10]),
      Print_out (ascii ''  Log:  '' @ lf @ [10]),
      Print_out (ascii ''  Tail: tail -f '' @ shlex_quote lf @ [10]),
      Print_out (ascii ''  Stop: kill '' @ str_nat pid @ [10])]"

text \<open>
  Polling a pane. \<open>capture_argv\<close> is the command of one capture; a capture started at
  time \<open>t\<close> shows the pattern when it succeeds and its output contains the pattern, and
  misses it when the capture runs but exits with an error or prints something else.
  \<open>after_poll\<close> is the world after one poll that missed and the sleep that follows it.
\<close>

definition capture_argv :: "pystr \<Rightarrow> pystr list" where
  "capture_argv target =
     tmux_cmd [ascii ''capture-pane'', ascii ''-p'', ascii ''-J'', ascii ''-t'', target,
               ascii ''-S'', 45 # str_int 200]"

definition pane_shows :: "world \<Rightarrow> pystr \<Rightarrow> pystr \<Rightarrow> rat \<Rightarrow> bool" where
  "pane_shows w target pattern t =
     (case child w t (capture_argv target) None of
        Inl e \<Rightarrow> False
      | Inr c \<Rightarrow> returncode c = 0 \<and> str_contains pattern (out_text c))"

definition pane_misses :: "world \<Rightarrow> pystr \<Rightarrow> pystr \<Rightarrow> rat \<Rightarrow> bool" where
  "pane_misses w target pattern t =
     (case child w t (capture_argv target) None of
        Inl e \<Rightarrow> False
      | Inr c \<Rightarrow> \<not> (returncode c = 0 \<and> str_contains pattern (out_text c)))"

definition capture_exits_nonzero :: "world \<Rightarrow> pystr \<Rightarrow> rat \<Rightarrow> bool" where
  "capture_exits_nonzero w target t =
     (case child w t (capture_argv target) None of
        Inl e \<Rightarrow> False
      | Inr c \<Rightarrow> returncode c \<noteq> 0)"

definition after_run :: "world \<Rightarrow> pystr list \<Rightarrow> world" where
  "after_run w argv =
     w\<lparr>clock := clock w + child_duration w (clock w) argv, events := events w @ [Spawn argv None]\<rparr>"

definition after_sleep :: "world \<Rightarrow> rat \<Rightarrow> world" where
  "after_sleep w d =
     w\<lparr>clock := clock w + d + oversleep w (clock w), events := events w @ [Slept d]\<rparr>"

definition after_poll :: "world \<Rightarrow> pystr \<Rightarrow> rat \<Rightarrow> world" where
  "after_poll w target poll_s = after_sleep (after_run w (capture_argv target)) poll_s"

text \<open>
  Time does not run backwards: a capture and the extra delay of a sleep take no
  negative time. The bounds \<open>C\<close> and \<open>D\<close> limit how long a capture takes and how much
  longer than asked a sleep lasts.
\<close>

definition clock_advances :: "world \<Rightarrow> pystr \<Rightarrow> bool" where
  "clock_advances w target \<longleftrightarrow>
     (\<forall>t. 0 \<le> child_duration w t (capture_argv target)) \<and> (\<forall>t. 0 \<le> oversleep w t)"

definition delays_within :: "world \<Rightarrow> pystr \<Rightarrow> rat \<Rightarrow> rat \<Rightarrow> bool" where
  "delays_within w target C D \<longleftrightarrow>
     (\<forall>t. child_duration w t (capture_argv target) \<le> C) \<and> (\<forall>t. oversleep w t \<le> D)"

text \<open>
  What an interactive run types into the pane: the line that starts claude in the working
  directory, and the lines of the prompt that are not blank.
\<close>

definition launch_line :: "world \<Rightarrow> args \<Rightarrow> pystr" where
  "launch_line w a =
     ascii ''cd '' @ shlex_quote (header_cwd w (cwd a)) @ ascii '' && '' @ command_line (claude_parts a)"

definition prompt_lines :: "pystr option \<Rightarrow> pystr list" where
  "prompt_lines p =
     (case p of None \<Rightarrow> [] | Some s \<Rightarrow> filter (\<lambda>ln. strip ln \<noteq> []) (splitlines s))"

text \<open>
  An interactive run needs a tmux that can be started whenever it is called and whose
  \<^verbatim>\<open>new\<close> and \<^verbatim>\<open>send-keys\<close> commands succeed. A world is \<open>later\<close> than another one when
  it is the same machine at another time, with more events on record.
\<close>

definition tmux_obeys :: "world \<Rightarrow> bool" where
  "tmux_obeys w \<longleftrightarrow>
     (\<forall>t as. case child w t (ascii ''tmux'' # as) None of
               Inl e \<Rightarrow> False
             | Inr c \<Rightarrow> take 1 as = [ascii ''new''] \<or> take 1 as = [ascii ''send-keys'']
                         \<longrightarrow> returncode c = 0)"

definition later :: "world \<Rightarrow> world \<Rightarrow> bool" where
  "later w w' \<longleftrightarrow> (\<exists>t evs. w' = w\<lparr>clock := t, events := events w @ evs\<rparr>)"

section \<open>Example environments\<close>

text \<open>
  A small machine used to run the definitions on concrete inputs: the search path has
  two directories, the first of which cannot be read; claude and tmux are installed in
  the second one and the script helper is not installed. Every child process exits
  with code 3 after two fifths of a second, having written one line.
\<close>

definition base_world :: world where
  "base_world =
     \<lparr>environ_PATH = Some (ascii ''/locked:/opt/bin''),
      path_exists = (\<lambda>p. Inr (p = ascii ''/opt/bin/claude'')),
      path_is_file = (\<lambda>p. if startswith p (ascii ''/locked/'') then Inl PermissionError
                          else Inr (p = ascii ''/opt/bin/claude'' \<or> p = ascii ''/opt/bin/tmux'')),
      os_access_x = (\<lambda>p. True),
      os_getcwd = ascii ''/home/u'',
      localtime = (\<lambda>t. \<lparr>tm_year = 2026, tm_mon = 11, tm_mday = 6,
                          tm_hour = 3, tm_min = 4, tm_sec = 5\<rparr>),
      child = (\<lambda>t argv wd. Inr \<lparr>returncode = 3, out_text = ascii ''out'' @ [10], err_text = []\<rparr>),
      child_duration = (\<lambda>t argv. 2 / 5),
      child_pid = (\<lambda>t argv. 4242),
      oversleep = (\<lambda>t. 0),
      io_latency = (\<lambda>t. 0),
      makedirs_error = (\<lambda>d. None),
      open_error = (\<lambda>p. None),
      clock = 0,
      events = [],
      files = (\<lambda>p. None),
      buffers = (\<lambda>p. [])\<rparr>"

definition base_args :: args where
  "base_args =
     \<lparr>prompt = Some (ascii ''hello world''),
      mode = Auto,
      permission_mode = None,
      allowed_tools = None,
      output_format = None,
      json_schema = None,
      append_system_prompt = None,
      system_prompt = None,
      continue_latest = False,
      resume = None,
      claude_bin = ascii ''/opt/bin/claude'',
      cwd = None,
      notify = False,
      clipboard = False,
      background = False,
      log_dir = ascii ''logs'',
      tmux_session = ascii ''claude-code'',
      interactive_wait_s = 0,
      interactive_send_delay_ms = 800,
      extra = []\<rparr>"

text \<open>
  Variants of that machine: one on which claude is nowhere to be found, one without
  tmux, one whose panes show a shell prompt, one whose panes show the trust prompt, one
  whose panes show the trust prompt during the first second only, and one on which
  no program called \<^verbatim>\<open>script\<close> can be started.
\<close>

definition no_claude_world :: world where
  "no_claude_world = base_world\<lparr>environ_PATH := None, path_exists := (\<lambda>p. Inr False)\<rparr>"

definition no_tmux_world :: world where
  "no_tmux_world = base_world\<lparr>path_is_file := (\<lambda>p. Inr (p = ascii ''/opt/bin/claude''))\<rparr>"

definition quiet_world :: world where
  "quiet_world =
     base_world\<lparr>child := (\<lambda>t argv wd. Inr \<lparr>returncode = 0, out_text = ascii ''$ '', err_text = []\<rparr>)\<rparr>"

definition trust_screen :: completed where
  "trust_screen =
     \<lparr>returncode = 0, out_text = ascii ''1. Yes, I trust this folder'', err_text = []\<rparr>"

definition trusting_world :: world where
  "trusting_world = base_world\<lparr>child := (\<lambda>t argv wd. Inr trust_screen)\<rparr>"

definition fading_world :: world where
  "fading_world =
     base_world\<lparr>child := (\<lambda>t argv wd. if t < 1 then Inr trust_screen
                     else Inr \<lparr>returncode = 0, out_text = ascii ''$ '', err_text = []\<rparr>)\<rparr>"

definition no_script_world :: world where
  "no_script_world =
     base_world\<lparr>child := (\<lambda>t argv wd. if take 1 argv = [ascii ''script''] then Inl FileNotFoundError
                     else Inr \<lparr>returncode = 0, out_text = [], err_text = []\<rparr>)\<rparr>"

chapter \<open>Lemmas\<close>

section \<open>Round trip of the escaped command line\<close>

lemma safe_not_special: "safe_char c \<Longrightarrow> \<not> lex_whitespace c \<and> \<not> lex_quotes c \<and> \<not> lex_escape c"
  by (auto simp: safe_char_def lex_whitespace_def lex_quotes_def lex_escape_def)

lemma read_word_safe:
  "list_all safe_char s \<Longrightarrow> shlex_read St_word tok q (s @ rest) = shlex_read St_word (tok @ s) q rest"
  by (induction s arbitrary: tok) (auto dest: safe_not_special)

lemma read_ws_safe:
  "list_all safe_char s \<Longrightarrow> s \<noteq> [] \<Longrightarrow>
   shlex_read St_ws [] False (s @ rest) = shlex_read St_word s False rest"
  by (cases s) (auto dest: safe_not_special simp: read_word_safe)

lemma read_quote_body:
  "shlex_read (St_quote 39) tok q (str_replace1 39 [39, 34, 39, 34, 39] s @ 39 # rest)
     = shlex_read St_word (tok @ s) True rest"
  by (induction s arbitrary: tok q) (auto simp: lex_whitespace_def lex_quotes_def lex_escape_def)

lemma read_ws_quote:
  "shlex_read St_ws [] False (shlex_quote s @ rest) =
     shlex_read St_word s (s = [] \<or> \<not> list_all safe_char s) rest"
proof (cases "s = []")
  case True
  then show ?thesis
    by (simp add: shlex_quote_def lex_whitespace_def lex_quotes_def lex_escape_def)
next
  case nonempty: False
  show ?thesis
  proof (cases "list_all safe_char s")
    case True
    with nonempty show ?thesis
      by (simp add: shlex_quote_def read_ws_safe)
  next
    case False
    have "shlex_read St_ws [] False (39 # str_replace1 39 [39, 34, 39, 34, 39] s @ 39 # rest)
            = shlex_read (St_quote 39) [] False (str_replace1 39 [39, 34, 39, 34, 39] s @ 39 # rest)"
      by (simp add: lex_whitespace_def lex_quotes_def lex_escape_def)
    also have "\<dots> = shlex_read St_word s True rest"
      using read_quote_body [of "[]" False s rest] by simp
    finally show ?thesis
      using nonempty False by (simp add: shlex_quote_def)
  qed
qed

lemma read_word_end:
  "s = [] \<longrightarrow> q \<Longrightarrow> shlex_read St_word s q [] = Inr [s]"
  by (auto simp: emit_def)

lemma read_word_space:
  "s = [] \<longrightarrow> q \<Longrightarrow>
   shlex_read St_word s q (32 # rest) = emit s q (shlex_read St_ws [] False rest)"
  by (auto simp: lex_whitespace_def)

lemma read_command_line:
  "shlex_read St_ws [] False (str_join [32] (map shlex_quote cmd)) = Inr cmd"
proof (induction cmd rule: induct_list012)
  case 1
  show ?case by (simp add: emit_def)
next
  case (2 x)
  have "shlex_read St_ws [] False (shlex_quote x @ []) = Inr [x]"
    unfolding read_ws_quote by (rule read_word_end) simp
  then show ?case by simp
next
  case (3 x y zs)
  have "shlex_read St_ws [] False (shlex_quote x @ 32 # str_join [32] (map shlex_quote (y # zs)))
          = emit x (x = [] \<or> \<not> list_all safe_char x)
              (shlex_read St_ws [] False (str_join [32] (map shlex_quote (y # zs))))"
    unfolding read_ws_quote by (rule read_word_space) simp
  also have "\<dots> = Inr (x # y # zs)"
    using "3.IH"(2) by (auto simp: emit_def)
  finally show ?case by simp
qed

section \<open>The program step by step\<close>

lemmas prog_defs = ret_def raise_def bind_def try_except_def

lemma which_scan_find:
  "which_scan name ps w = Some (Inr (find (runnable w) (map (\<lambda>p. path_div p name) ps)), w)"
proof (induction ps)
  case Nil
  show ?case by (simp add: ret_def)
next
  case (Cons p ps)
  show ?case
  proof (cases "path_is_file w (path_div p name)")
    case (Inl e)
    then show ?thesis
      using Cons.IH by (simp add: prog_defs is_file_def runnable_def Let_def)
  next
    case (Inr b)
    then show ?thesis
      using Cons.IH by (simp add: prog_defs is_file_def access_x_def runnable_def Let_def)
  qed
qed

lemma which_find: "which name w = Some (Inr (find (runnable w) (candidates w name)), w)"
  by (simp add: which_def bind_def environ_get_PATH_def which_scan_find candidates_def search_dirs_def)

lemma splitlines_Nil: "splitlines [] = []"
  by (simp add: splitlines_def)

lemma looks_like_has_slash_line: "looks_like_slash_commands p = has_slash_line p"
  by (cases p) (auto simp: looks_like_slash_commands_def has_slash_line_def list_ex_iff splitlines_Nil)

lemma run_interactive_tmux_mode: "run_interactive_tmux (a\<lparr>mode := m\<rparr>) = run_interactive_tmux a"
  by (simp add: run_interactive_tmux_def claude_parts_def Let_def cong: if_cong option.case_cong)

lemma build_headless_cmd_mode: "build_headless_cmd (a\<lparr>mode := m\<rparr>) = build_headless_cmd a"
  by (simp add: build_headless_cmd_def)

lemma dispatch_mode:
  assumes "(determine_mode (a\<lparr>mode := m\<rparr>) = Interactive) = (determine_mode (a\<lparr>mode := m'\<rparr>) = Interactive)"
  shows "dispatch (a\<lparr>mode := m\<rparr>) = dispatch (a\<lparr>mode := m'\<rparr>)"
  using assms
  by (simp add: dispatch_def Let_def run_interactive_tmux_mode build_headless_cmd_mode)

lemma report_missing_claude_eq:
  "report_missing_claude a w =
     Some (Inr (), w\<lparr>events := events w @
        [Print_err (ascii ''Error: claude binary not found at '' @ claude_bin a @ [10]),
         Print_err (ascii ''Install: npm install -g @anthropic-ai/claude-code'' @ [10]),
         Print_err (ascii ''Or set CLAUDE_CODE_BIN=/path/to/claude'' @ [10])]\<rparr>)"
  by (simp add: report_missing_claude_def bind_def ret_def print_err_def write_stderr_def log_event_def)

lemma main_cases:
  "main a w =
     (case locate_claude w (claude_bin a) of
        Missing \<Rightarrow>
          Some (Inr 2, w\<lparr>events := events w @
            [Print_err (ascii ''Error: claude binary not found at '' @ claude_bin a @ [10]),
             Print_err (ascii ''Install: npm install -g @anthropic-ai/claude-code'' @ [10]),
             Print_err (ascii ''Or set CLAUDE_CODE_BIN=/path/to/claude'' @ [10])]\<rparr>)
      | Located f \<Rightarrow> dispatch (a\<lparr>extra := strip_dashes (extra a), claude_bin := f\<rparr>) w
      | Unreadable e \<Rightarrow> Some (Inl (OSError e), w))"
  by (simp add: main_def resolve_claude_def exists_path_def bind_def which_find ret_def
      locate_claude_def report_missing_claude_eq split: option.splits sum.splits bool.splits)

lemma main_mode:
  assumes "(determine_mode (a\<lparr>mode := m\<rparr>) = Interactive) = (determine_mode (a\<lparr>mode := m'\<rparr>) = Interactive)"
  shows "main (a\<lparr>mode := m\<rparr>) = main (a\<lparr>mode := m'\<rparr>)"
proof
  fix w
  have *: "dispatch (a\<lparr>mode := m, extra := e, claude_bin := f\<rparr>)
         = dispatch (a\<lparr>mode := m', extra := e, claude_bin := f\<rparr>)" for e f
  proof -
    have "dispatch (a\<lparr>extra := e, claude_bin := f\<rparr>\<lparr>mode := m\<rparr>)
            = dispatch (a\<lparr>extra := e, claude_bin := f\<rparr>\<lparr>mode := m'\<rparr>)"
      by (rule dispatch_mode) (use assms in \<open>auto simp add: determine_mode_def split: if_splits\<close>)
    moreover have "a\<lparr>extra := e, claude_bin := f\<rparr>\<lparr>mode := m\<rparr> = a\<lparr>mode := m, extra := e, claude_bin := f\<rparr>"
      "a\<lparr>extra := e, claude_bin := f\<rparr>\<lparr>mode := m'\<rparr> = a\<lparr>mode := m', extra := e, claude_bin := f\<rparr>"
      by simp_all
    ultimately show ?thesis by simp
  qed
  show "main (a\<lparr>mode := m\<rparr>) w = main (a\<lparr>mode := m'\<rparr>) w"
    using * by (simp add: main_cases split: resolved.splits)
qed

section \<open>Missing binaries\<close>

lemma determine_mode_fields:
  "determine_mode (a\<lparr>extra := e\<rparr>) = determine_mode a"
  "determine_mode (a\<lparr>claude_bin := f\<rparr>) = determine_mode a"
  by (simp_all add: determine_mode_def)

lemma notify_macos_returns:
  "\<exists>w'. notify_macos title message w = Some (Inr (), w')
        \<and> (\<exists>evs. events w' = events w @ evs \<and> (\<forall>e \<in> set evs. \<exists>argv wd. e = Spawn argv wd))"
  by (auto simp: notify_macos_def try_except_def bind_def ret_def subprocess_run_def Let_def
      any_exception_def log_event_def split: sum.splits)

lemma run_interactive_tmux_no_tmux:
  assumes "find (runnable w) (candidates w (ascii ''tmux'')) = None"
  shows "run_interactive_tmux a w =
     Some (Inr 2, w\<lparr>events := events w @
       [Print_err (ascii ''Error: tmux not found. Install via: brew install tmux'' @ [10])]\<rparr>)"
  using assms
  by (simp add: run_interactive_tmux_def bind_def which_find print_err_def write_stderr_def
      log_event_def ret_def)

lemma claude_message_names_claude:
  "str_contains (ascii ''claude'') (ascii ''Error: claude binary not found at '' @ bin @ [10])"
  by (simp add: ascii_def)

lemma tmux_message_names_tmux:
  "str_contains (ascii ''tmux'') (ascii ''Error: tmux not found. Install via: brew install tmux'' @ [10])"
  by (simp add: ascii_def)

section \<open>The background launcher\<close>

lemma runnable_frame [simp]:
  "runnable (w\<lparr>events := ev\<rparr>) = runnable w"
  "runnable (w\<lparr>clock := t\<rparr>) = runnable w"
  "runnable (w\<lparr>files := fs\<rparr>) = runnable w"
  "runnable (w\<lparr>buffers := bs\<rparr>) = runnable w"
  by (simp_all add: runnable_def fun_eq_iff)

lemma candidates_frame [simp]:
  "candidates (w\<lparr>events := ev\<rparr>) = candidates w"
  "candidates (w\<lparr>clock := t\<rparr>) = candidates w"
  "candidates (w\<lparr>files := fs\<rparr>) = candidates w"
  "candidates (w\<lparr>buffers := bs\<rparr>) = candidates w"
  by (simp_all add: candidates_def search_dirs_def fun_eq_iff)

lemma header_cwd_frame [simp]:
  "header_cwd (w\<lparr>events := ev\<rparr>) = header_cwd w"
  "header_cwd (w\<lparr>clock := t\<rparr>) = header_cwd w"
  "header_cwd (w\<lparr>files := fs\<rparr>) = header_cwd w"
  "header_cwd (w\<lparr>buffers := bs\<rparr>) = header_cwd w"
  by (simp_all add: header_cwd_def fun_eq_iff split: option.splits)

lemma launched_cmd_frame [simp]:
  "launched_cmd (w\<lparr>events := ev\<rparr>) = launched_cmd w"
  "launched_cmd (w\<lparr>clock := t\<rparr>) = launched_cmd w"
  "launched_cmd (w\<lparr>files := fs\<rparr>) = launched_cmd w"
  "launched_cmd (w\<lparr>buffers := bs\<rparr>) = launched_cmd w"
  by (simp_all add: launched_cmd_def fun_eq_iff)

lemma cwd_or_getcwd_eq: "cwd_or_getcwd wd w = Some (Inr (header_cwd w wd), w)"
  by (simp add: cwd_or_getcwd_def header_cwd_def getcwd_def ret_def split: option.splits)

lemma launch_logged_eq:
  "launch_logged lf cmd wd w = popen_detached (launched_cmd w cmd) wd (Some lf) w"
  by (simp add: launch_logged_def bind_def which_find launched_cmd_def Let_def split: option.splits)

lemma report_background_eq:
  "report_background pid lf w =
     Some (Inr (), w\<lparr>events := events w @ report_lines pid lf\<rparr>)"
  by (simp add: report_background_def bind_def print_out_def write_stdout_def log_event_def
      report_lines_def)

lemma run_background_ok:
  assumes mk: "makedirs_error w logdir = None"
    and op: "open_error w (log_path w logdir) = None"
    and ch: "child w (launch_time w) (launched_cmd w cmd) wd = Inr c"
    and wa: "ntfy \<longrightarrow> (\<forall>t. \<exists>c'. child w t (watcher_cmd w cmd) None = Inr c')"
  shows "\<exists>w'. run_background cmd wd logdir ntfy w = Some (Inr 0, w')
            \<and> files w' (log_path w logdir) = Some (log_header w cmd wd @ out_text c)
            \<and> events w' = events w
                 @ [Made_dirs logdir, Spawn_detached (launched_cmd w cmd) wd]
                 @ report_lines (child_pid w (launch_time w) (launched_cmd w cmd)) (log_path w logdir)
                 @ (if ntfy then [Spawn_detached (watcher_cmd w cmd) None] else [])"
proof -
  define lf where "lf = log_path w logdir"
  define w1 where "w1 = log_event (Made_dirs logdir) (io_step w)"
  define w2 where "w2 = w\<lparr>clock := after_io w (after_io w (clock w)),
      events := events w @ [Made_dirs logdir],
      files := (files w)(lf \<mapsto> []), buffers := (buffers w)(lf := [])\<rparr>"
  define w3 where "w3 = w2\<lparr>clock := launch_time w, files := (files w)(lf \<mapsto> log_header w cmd wd)\<rparr>"
  define w4 where "w4 = w3\<lparr>clock := after_io w (launch_time w),
      events := events w3 @ [Spawn_detached (launched_cmd w cmd) wd],
      files := (files w)(lf \<mapsto> log_header w cmd wd @ out_text c)\<rparr>"
  define w5 where "w5 = w4\<lparr>clock := after_io w (after_io w (launch_time w))\<rparr>"
  define pid where "pid = child_pid w (launch_time w) (launched_cmd w cmd)"
  define w6 where "w6 = w5\<lparr>events := events w5 @ report_lines pid lf\<rparr>"
  have s1: "os_makedirs logdir w = Some (Inr (), w1)"
    using mk by (simp add: os_makedirs_def w1_def)
  have lf: "posix_join logdir (log_file_name (strftime_compact (localtime w1 (clock w1)))) = lf"
    by (simp add: lf_def log_path_def log_file_name_def io_step_def after_io_def w1_def log_event_def)
  have s2: "open_w lf w1 = Some (Inr lf, w2)"
    using op by (simp add: open_w_def lf_def w2_def w1_def log_event_def io_step_def after_io_def)
  have s3: "write_header lf cmd wd w2 = Some (Inr (), w3)"
    by (simp add: write_header_def bind_def file_write_def time_strftime_def cwd_or_getcwd_eq
        file_flush_def io_step_def append_file_def w2_def w3_def launch_time_def after_io_def
        log_header_def header_lines_def)
  have s4: "launch_logged lf cmd wd w3 = Some (Inr pid, w4)"
    using ch
    by (simp add: launch_logged_eq popen_detached_def w3_def w2_def w4_def pid_def io_step_def
        append_file_def log_event_def after_io_def launch_time_def)
  have s5: "file_flush lf w4 = Some (Inr (), w5)"
    by (simp add: file_flush_def w5_def w4_def w3_def w2_def io_step_def append_file_def after_io_def
        launch_time_def)
  have s6: "with_open_w lf (\<lambda>lf. bind (write_header lf cmd wd) (\<lambda>u1. launch_logged lf cmd wd)) w1
              = Some (Inr pid, w5)"
    by (simp add: with_open_w_def bind_def try_finally_def s2 s3 s4 s5)
  have s7: "report_background pid lf w5 = Some (Inr (), w6)"
    by (simp add: report_background_eq w6_def)
  have f6: "files w6 lf = Some (log_header w cmd wd @ out_text c)"
    by (simp add: w6_def w5_def w4_def)
  have e6: "events w6 = events w @ [Made_dirs logdir, Spawn_detached (launched_cmd w cmd) wd]
                 @ report_lines pid lf"
    by (simp add: w6_def w5_def w4_def w3_def w2_def)
  have main_part: "run_background cmd wd logdir ntfy w =
      bind (if ntfy
           then bind (popen_detached [ascii ''bash'', ascii ''-c'', watcher_script pid] None None)
                  (\<lambda>wpid. ret ())
           else ret ()) (\<lambda>u3. ret 0) w6"
    by (simp add: run_background_def bind_def s1 time_strftime_def Let_def lf s6 [unfolded bind_def] s7)
  show ?thesis
  proof (cases ntfy)
    case False
    then show ?thesis
      using f6 e6 main_part by (simp add: bind_def ret_def lf_def [symmetric] pid_def [symmetric])
  next
    case True
    have o6: "child w6 = child w" "child_pid w6 = child_pid w"
      by (simp_all add: w6_def w5_def w4_def w3_def w2_def)
    from True wa obtain c' where "child w (clock w6) (watcher_cmd w cmd) None = Inr c'"
      by blast
    then have "popen_detached [ascii ''bash'', ascii ''-c'', watcher_script pid] None None w6
        = Some (Inr (child_pid w (clock w6) (watcher_cmd w cmd)),
                (io_step w6)\<lparr>events := events w6 @ [Spawn_detached (watcher_cmd w cmd) None]\<rparr>)"
      by (simp add: popen_detached_def o6 watcher_cmd_def pid_def log_event_def io_step_def)
    with True show ?thesis
      using f6 e6 main_part
      by (simp add: bind_def ret_def lf_def [symmetric] pid_def [symmetric] io_step_def)
  qed
qed

lemma str_nat_digits: "c \<in> set (str_nat n) \<Longrightarrow> 48 \<le> c \<and> c \<le> 57"
proof (induction n rule: str_nat.induct)
  case (1 n)
  show ?case
  proof (cases "n < 10")
    case True
    with "1.prems" show ?thesis by (simp add: str_nat.simps [of n])
  next
    case False
    with "1.prems" have "c \<in> set (str_nat (n div 10)) \<or> c = 48 + n mod 10"
      by (auto simp add: str_nat.simps [of n])
    with False "1.IH" show ?thesis by auto
  qed
qed

lemma zero_pad_digits: "c \<in> set (zero_pad k n) \<Longrightarrow> 48 \<le> c \<and> c \<le> 57"
  by (auto simp: zero_pad_def dest: str_nat_digits)

lemma strftime_iso_no_newline: "10 \<notin> set (strftime_iso tm)"
  by (auto simp: strftime_iso_def dest: zero_pad_digits)

lemma str_replace1_set: "set (str_replace1 c new s) \<subseteq> set s \<union> set new"
  by (induction s) auto

lemma shlex_quote_set: "set (shlex_quote s) \<subseteq> set s \<union> {39, 34}"
  using str_replace1_set [of 39 "[39, 34, 39, 34, 39]" s]
  by (auto simp: shlex_quote_def)

lemma str_join_set: "set (str_join sep xs) \<subseteq> (\<Union>x \<in> set xs. set x) \<union> set sep"
  by (induction sep xs rule: str_join.induct) auto

lemma command_line_no_newline:
  assumes "\<forall>x \<in> set cmd. 10 \<notin> set x"
  shows "10 \<notin> set (command_line cmd)"
proof
  assume "10 \<in> set (command_line cmd)"
  then have "10 \<in> (\<Union>x \<in> set (map shlex_quote cmd). set x) \<union> set [32]"
    using str_join_set [of "[32]" "map shlex_quote cmd"] by (auto simp: command_line_def)
  then obtain x where "x \<in> set cmd" "10 \<in> set (shlex_quote x)" by auto
  with shlex_quote_set [of x] assms show False by auto
qed

lemma split_from_line:
  "sep \<notin> set a \<Longrightarrow> split_from sep cur (a @ sep # rest) = (cur @ a) # split_from sep [] rest"
  by (induction a arbitrary: cur) auto

lemma str_split_line:
  "sep \<notin> set a \<Longrightarrow> str_split sep (a @ sep # rest) = a # str_split sep rest"
  by (simp add: str_split_def split_from_line)

lemma str_split_empty_line: "str_split sep (sep # rest) = [] # str_split sep rest"
  by (simp add: str_split_def)

lemma header_three_lines:
  assumes "\<forall>x \<in> set cmd. 10 \<notin> set x" and "10 \<notin> set (header_cwd w wd)"
  shows "take 4 (str_split 10 (log_header w cmd wd @ out)) = header_lines w cmd wd @ [[]]"
proof -
  have 1: "10 \<notin> set (ascii ''# Command: '' @ command_line cmd)"
    using command_line_no_newline [OF assms(1)] by (simp add: ascii_def)
  have 2: "10 \<notin> set (ascii ''# Started: '' @ strftime_iso tm)" for tm
    using strftime_iso_no_newline [of tm] by (simp add: ascii_def)
  have 3: "10 \<notin> set (ascii ''# CWD: '' @ header_cwd w wd)"
    using assms(2) by (simp add: ascii_def)
  show ?thesis
    using str_split_line [OF 1] str_split_line [OF 2] str_split_line [OF 3] 
    by (simp add: log_header_def header_lines_def str_split_empty_line)
qed

lemma posix_join_plain:
  assumes "a \<noteq> []" and "last a \<noteq> 47" and "\<not> startswith b [47]"
  shows "posix_join a b = a @ [47] @ b"
proof -
  from assms(1) obtain y ys where "rev a = y # ys" by (cases "rev a") auto
  moreover from this assms(1) have "last a = y" by (metis list.sel(1) hd_rev)
  ultimately show ?thesis
    using assms by (simp add: posix_join_def endswith_def)
qed

section \<open>The synchronous runs and the dispatch\<close>

lemma bind_returnsE:
  assumes "bind m f w = Some (Inr r, w')"
  obtains x w1 where "m w = Some (Inr x, w1)" and "f x w1 = Some (Inr r, w')"
  using assms by (auto simp: bind_def split: option.splits sum.splits prod.splits)

lemma bind_Inr: "m w = Some (Inr x, w1) \<Longrightarrow> bind m f w = f x w1"
  by (simp add: bind_def)

lemma bind_Inl: "m w = Some (Inl e, w1) \<Longrightarrow> bind m f w = Some (Inl e, w1)"
  by (simp add: bind_def)

lemma run_with_pty_eq:
  "run_with_pty cmd wd w = bind (subprocess_run (launched_cmd w cmd) wd) (\<lambda>proc. ret (returncode proc)) w"
  by (simp add: run_with_pty_def bind_def which_find launched_cmd_def split: option.splits)

lemma subprocess_run_ok:
  "child w (clock w) argv wd = Inr c \<Longrightarrow>
   subprocess_run argv wd w =
     Some (Inr c, w\<lparr>clock := clock w + child_duration w (clock w) argv,
                     events := events w @ [Spawn argv wd]\<rparr>)"
  by (simp add: subprocess_run_def log_event_def)

lemma subprocess_run_fails:
  "child w (clock w) argv wd = Inl e \<Longrightarrow> subprocess_run argv wd w = Some (Inl (OSError e), w)"
  by (simp add: subprocess_run_def)

lemma copy_to_clipboard_returns:
  "\<exists>w'. copy_to_clipboard text w = Some (Inr (), w') \<and> (\<exists>evs. events w' = events w @ evs)"
  by (auto simp: copy_to_clipboard_def try_except_def popen_communicate_def ret_def
      any_exception_def log_event_def split: sum.splits)

lemma notify_if_returns:
  "\<exists>w'. (if n then notify_macos title message else ret ()) w = Some (Inr (), w')
        \<and> (\<exists>evs. events w' = events w @ evs)"
  using notify_macos_returns [of title message w] by (auto simp: ret_def)

lemma build_headless_cmd_fields:
  "build_headless_cmd (a\<lparr>extra := e, claude_bin := f\<rparr>) = build_headless_cmd (a\<lparr>extra := e, claude_bin := f\<rparr>)"
  by simp

lemma dispatch_pty:
  assumes "determine_mode a \<noteq> Interactive" "\<not> background a" "\<not> clipboard a"
    and "child w (clock w) (launched_cmd w (build_headless_cmd a)) (cwd a) = Inr c"
  shows "\<exists>w' evs. dispatch a w = Some (Inr (returncode c), w')
           \<and> events w' = events w @ Spawn (launched_cmd w (build_headless_cmd a)) (cwd a) # evs"
proof -
  let ?w1 = "w\<lparr>clock := clock w + child_duration w (clock w) (launched_cmd w (build_headless_cmd a)),
                events := events w @ [Spawn (launched_cmd w (build_headless_cmd a)) (cwd a)]\<rparr>"
  have "run_with_pty (build_headless_cmd a) (cwd a) w = Some (Inr (returncode c), ?w1)"
    by (simp add: run_with_pty_eq bind_def subprocess_run_ok [OF assms(4)] ret_def)
  moreover obtain w2 evs where "(if notify a
          then notify_macos (ascii ''Claude Code'')
                 (ascii ''Headless task ''
                  @ (if returncode c = 0 then ascii ''completed''
                     else ascii ''failed (exit '' @ str_int (returncode c) @ ascii '')''))
          else ret ()) ?w1 = Some (Inr (), w2)" and "events w2 = events ?w1 @ evs"
    using notify_if_returns by blast
  ultimately show ?thesis
    using assms(1-3) by (simp add: dispatch_def Let_def bind_def ret_def)
qed

lemma run_clipboard_ok:
  assumes "child w (clock w) (script_wrap (ascii ''script'') cmd) wd = Inr c"
  shows "\<exists>w' evs. run_clipboard cmd wd w = Some (Inr (returncode c), w')
           \<and> events w' = events w @ Spawn (script_wrap (ascii ''script'') cmd) wd # evs"
proof -
  let ?argv = "script_wrap (ascii ''script'') cmd"
  define w1 where "w1 = w\<lparr>clock := clock w + child_duration w (clock w) ?argv,
                events := events w @ [Spawn ?argv wd]\<rparr>"
  define w1' where "w1' = log_event (Print_out (out_text c)) w1"
  have s1: "subprocess_run ?argv wd w = Some (Inr c, w1)"
    unfolding w1_def by (rule subprocess_run_ok [OF assms])
  have s2: "write_stdout (out_text c) w1 = Some (Inr (), w1')"
    by (simp add: write_stdout_def w1'_def)
  have "\<exists>w2 evs. (if err_text c \<noteq> [] then write_stderr (err_text c) else ret ()) w1' = Some (Inr (), w2)
     \<and> events w2 = events w1' @ evs"
    by (cases "err_text c = []") (simp_all add: write_stderr_def ret_def log_event_def)
  then obtain w2 evs where s3: "(if err_text c \<noteq> [] then write_stderr (err_text c) else ret ()) w1'
        = Some (Inr (), w2)"
     and e2: "events w2 = events w1' @ evs"
    by blast
  obtain w3 evs3 where s4: "copy_to_clipboard (out_text c) w2 = Some (Inr (), w3)"
     and e3: "events w3 = events w2 @ evs3"
    using copy_to_clipboard_returns by blast
  have "run_clipboard cmd wd w = Some (Inr (returncode c), w3)"
    by (simp add: run_clipboard_def bind_def s1 s2 s3 s4 ret_def)
  with e2 e3 show ?thesis by (simp add: w1'_def w1_def log_event_def)
qed

lemma run_clipboard_fails:
  assumes "child w (clock w) (script_wrap (ascii ''script'') cmd) wd = Inl e"
  shows "run_clipboard cmd wd w = Some (Inl (OSError e), w)"
  using subprocess_run_fails [OF assms] by (simp add: run_clipboard_def bind_def)

lemma dispatch_clipboard_ok:
  assumes "determine_mode a \<noteq> Interactive" "\<not> background a" "clipboard a"
    and "child w (clock w) (script_wrap (ascii ''script'') (build_headless_cmd a)) (cwd a) = Inr c"
  shows "\<exists>w' evs. dispatch a w = Some (Inr (returncode c), w')
           \<and> events w' = events w
               @ Spawn (script_wrap (ascii ''script'') (build_headless_cmd a)) (cwd a) # evs"
proof -
  obtain w1 evs1 where 1: "run_clipboard (build_headless_cmd a) (cwd a) w = Some (Inr (returncode c), w1)"
    and e1: "events w1 = events w
               @ Spawn (script_wrap (ascii ''script'') (build_headless_cmd a)) (cwd a) # evs1"
    using run_clipboard_ok [OF assms(4)] by blast
  obtain w2 evs where "(if notify a
          then notify_macos (ascii ''Claude Code'')
                 (ascii ''Headless task ''
                  @ (if returncode c = 0 then ascii ''completed''
                     else ascii ''failed (exit '' @ str_int (returncode c) @ ascii '')''))
          else ret ()) w1 = Some (Inr (), w2)" and "events w2 = events w1 @ evs"
    using notify_if_returns by blast
  with 1 e1 show ?thesis
    using assms(1-3) by (simp add: dispatch_def Let_def bind_def ret_def)
qed

lemma dispatch_clipboard_fails:
  assumes "determine_mode a \<noteq> Interactive" "\<not> background a" "clipboard a"
    and "child w (clock w) (script_wrap (ascii ''script'') (build_headless_cmd a)) (cwd a) = Inl e"
  shows "dispatch a w = Some (Inl (OSError e), w)"
  using assms(1-3) run_clipboard_fails [OF assms(4)] by (simp add: dispatch_def Let_def bind_def)

lemma dispatch_background:
  assumes "determine_mode a \<noteq> Interactive" "background a"
  shows "dispatch a = run_background (build_headless_cmd a) (cwd a) (log_dir a) (notify a)"
  using assms by (simp add: dispatch_def Let_def)

lemma run_background_returns_0:
  assumes "run_background cmd wd logdir ntfy w = Some (Inr rc, w')"
  shows "rc = 0"
  using assms
  by (auto simp: run_background_def Let_def ret_def elim!: bind_returnsE)

lemma run_interactive_tmux_returns:
  assumes "run_interactive_tmux a w = Some (Inr rc, w')"
  shows "rc = 0 \<or> rc = 2"
  using assms
  by (auto simp: run_interactive_tmux_def Let_def ret_def elim!: bind_returnsE split: if_splits)

lemma dispatch_interactive_returns:
  assumes "determine_mode a = Interactive" and "dispatch a w = Some (Inr rc, w')"
  shows "rc = 0 \<or> rc = 2"
  using assms
  by (auto simp: dispatch_def Let_def ret_def elim!: bind_returnsE dest: run_interactive_tmux_returns)

section \<open>The polling loop\<close>

lemma tmux_capture_argv: "tmux_capture target 200 = check_output (capture_argv target)"
  by (simp add: tmux_capture_def capture_argv_def)

lemma poll_pane_runs:
  assumes "child w (clock w) (capture_argv target) None = Inr c"
  shows "poll_pane target pattern w
           = Some (Inr (returncode c = 0 \<and> str_contains pattern (out_text c)),
                   after_run w (capture_argv target))"
  using assms
  by (simp add: poll_pane_def try_except_def tmux_capture_argv check_output_def bind_def
      subprocess_run_def raise_def ret_def after_run_def log_event_def)

lemma poll_pane_raises:
  assumes "child w (clock w) (capture_argv target) None = Inl e"
  shows "poll_pane target pattern w = Some (Inl (OSError e), w)"
  using assms
  by (simp add: poll_pane_def try_except_def tmux_capture_argv check_output_def bind_def
      subprocess_run_def)

lemma time_sleep_ok: "0 \<le> d \<Longrightarrow> time_sleep d w = Some (Inr (), after_sleep w d)"
  by (simp add: time_sleep_def after_sleep_def log_event_def)

lemma wait_loop_miss:
  assumes "clock w < deadline" and "pane_misses w target pattern (clock w)" and "0 \<le> poll_s"
  shows "wait_loop target pattern deadline poll_s w
           = wait_loop target pattern deadline poll_s (after_poll w target poll_s)"
proof -
  from assms(2) obtain c where c: "child w (clock w) (capture_argv target) None = Inr c"
    and miss: "\<not> (returncode c = 0 \<and> str_contains pattern (out_text c))"
    by (auto simp: pane_misses_def split: sum.splits)
  show ?thesis
    using assms(1) miss
    by (subst wait_loop.simps)
       (auto simp add: poll_pane_runs [OF c] time_sleep_ok [OF assms(3)] after_poll_def)
qed

lemma wait_loop_late: "deadline \<le> clock w \<Longrightarrow> wait_loop target pattern deadline poll_s w = Some (Inr False, w)"
  by (subst wait_loop.simps) simp

lemma wait_loop_hit:
  assumes "clock w < deadline" and "pane_shows w target pattern (clock w)"
  shows "wait_loop target pattern deadline poll_s w = Some (Inr True, after_run w (capture_argv target))"
proof -
  from assms(2) obtain c where c: "child w (clock w) (capture_argv target) None = Inr c"
    and hit: "returncode c = 0 \<and> str_contains pattern (out_text c)"
    by (auto simp: pane_shows_def split: sum.splits)
  show ?thesis
    using assms(1) hit by (subst wait_loop.simps) (auto simp add: poll_pane_runs [OF c])
qed

lemma after_poll_frame [simp]:
  "child (after_poll w target p) = child w"
  "child_duration (after_poll w target p) = child_duration w"
  "oversleep (after_poll w target p) = oversleep w"
  by (simp_all add: after_poll_def after_sleep_def after_run_def)

lemma after_poll_notions [simp]:
  "pane_misses (after_poll w target p) = pane_misses w"
  "clock_advances (after_poll w target p) = clock_advances w"
  "delays_within (after_poll w target p) = delays_within w"
  by (simp_all add: pane_misses_def clock_advances_def delays_within_def fun_eq_iff)

lemma after_poll_clock:
  "clock (after_poll w target p)
     = clock w + child_duration w (clock w) (capture_argv target) + p
       + oversleep w (clock w + child_duration w (clock w) (capture_argv target))"
  by (simp add: after_poll_def after_sleep_def after_run_def)

lemma wait_loop_absent:
  assumes "0 < poll_s"
  shows "clock_advances w target \<Longrightarrow> (\<forall>t. pane_misses w target pattern t) \<Longrightarrow>
         deadline - clock w \<le> of_nat n * poll_s \<Longrightarrow>
         \<exists>w'. wait_loop target pattern deadline poll_s w = Some (Inr False, w')
             \<and> deadline \<le> clock w'
             \<and> (\<forall>C D. delays_within w target C D \<longrightarrow>
                   clock w' \<le> max (clock w) (deadline + poll_s + C + D))"
proof (induction n arbitrary: w)
  case 0
  then have "deadline \<le> clock w" by simp
  then show ?case by (simp add: wait_loop_late)
next
  case (Suc n)
  show ?case
  proof (cases "deadline \<le> clock w")
    case True
    then show ?thesis by (simp add: wait_loop_late)
  next
    case False
    let ?w1 = "after_poll w target poll_s"
    let ?d = "child_duration w (clock w) (capture_argv target)"
    let ?o = "oversleep w (clock w + ?d)"
    from Suc.prems(1) have nonneg: "0 \<le> ?d" "0 \<le> ?o"
      by (simp_all add: clock_advances_def)
    have c1: "clock ?w1 = clock w + ?d + poll_s + ?o"
      by (rule after_poll_clock)
    from Suc.prems(3) nonneg have "deadline - clock ?w1 \<le> of_nat n * poll_s"
      unfolding c1 by (simp add: algebra_simps)
    with Suc.IH [of ?w1] Suc.prems(1,2) obtain w' where
      w': "wait_loop target pattern deadline poll_s ?w1 = Some (Inr False, w')"
      and lo: "deadline \<le> clock w'"
      and hi: "\<forall>C D. delays_within w target C D \<longrightarrow>
                   clock w' \<le> max (clock ?w1) (deadline + poll_s + C + D)"
      by auto
    have step: "wait_loop target pattern deadline poll_s w = wait_loop target pattern deadline poll_s ?w1"
      using False Suc.prems(2) assms by (intro wait_loop_miss) auto
    have "clock w' \<le> max (clock w) (deadline + poll_s + C + D)" if dw: "delays_within w target C D" for C D
    proof -
      from dw have "?d \<le> C" "?o \<le> D" by (simp_all add: delays_within_def)
      with False have "clock ?w1 \<le> deadline + poll_s + C + D" unfolding c1 by simp
      with hi dw show ?thesis by fastforce
    qed
    with step w' lo show ?thesis by simp
  qed
qed

lemma tmux_wait_for_text_eq:
  "tmux_wait_for_text target pattern timeout_s poll_s w
     = wait_loop target pattern (clock w + of_int timeout_s) poll_s w"
  by (simp add: tmux_wait_for_text_def bind_def time_time_def)

lemma subprocess_run_after:
  "child w (clock w) argv None = Inr c \<Longrightarrow> subprocess_run argv None w = Some (Inr c, after_run w argv)"
  by (simp add: subprocess_run_ok after_run_def)

lemma capture_failure_misses:
  "capture_exits_nonzero w target t \<Longrightarrow> pane_misses w target pattern t"
  by (auto simp: capture_exits_nonzero_def pane_misses_def split: sum.splits)

lemma enough_polls:
  fixes poll_s :: rat
  assumes "0 < poll_s"
  shows "\<exists>n. x \<le> of_nat n * poll_s"
proof -
  obtain n :: nat where "x / poll_s \<le> of_nat n"
    using real_arch_simple by blast
  with assms have "x \<le> of_nat n * poll_s"
    by (simp add: pos_divide_le_eq)
  then show ?thesis ..
qed

lemma determine_mode_resolved [simp]: "determine_mode (resolved_args a f) = determine_mode a"
  by (simp add: resolved_args_def determine_mode_def)

lemma resolved_args_fields [simp]:
  "cwd (resolved_args a f) = cwd a"
  "background (resolved_args a f) = background a"
  "clipboard (resolved_args a f) = clipboard a"
  "notify (resolved_args a f) = notify a"
  "log_dir (resolved_args a f) = log_dir a"
  by (simp_all add: resolved_args_def)

lemma main_located:
  "locate_claude w (claude_bin a) = Located f \<Longrightarrow> main a w = dispatch (resolved_args a f) w"
  by (simp add: main_cases resolved_args_def)

lemma after_run_fields [simp]:
  "clock (after_run w argv) = clock w + child_duration w (clock w) argv"
  "events (after_run w argv) = events w @ [Spawn argv None]"
  "child (after_run w argv) = child w"
  "child_duration (after_run w argv) = child_duration w"
  "oversleep (after_run w argv) = oversleep w"
  by (simp_all add: after_run_def)

lemma after_sleep_fields [simp]:
  "clock (after_sleep w d) = clock w + d + oversleep w (clock w)"
  "events (after_sleep w d) = events w @ [Slept d]"
  "child (after_sleep w d) = child w"
  "child_duration (after_sleep w d) = child_duration w"
  "oversleep (after_sleep w d) = oversleep w"
  by (simp_all add: after_sleep_def)

lemma after_poll_events [simp]:
  "events (after_poll w target p) = events w @ [Spawn (capture_argv target) None, Slept p]"
  by (simp add: after_poll_def)

lemma pane_frame [simp]:
  "pane_shows (after_run w argv) = pane_shows w"
  "pane_shows (after_sleep w d) = pane_shows w"
  "pane_shows (after_poll w target p) = pane_shows w"
  "pane_misses (after_run w argv) = pane_misses w"
  "pane_misses (after_sleep w d) = pane_misses w"
  by (simp_all add: pane_shows_def pane_misses_def fun_eq_iff)

lemma wait_loop_seen:
  assumes ret: "wait_loop target pattern deadline poll_s w = Some (Inr True, w1)"
  shows "\<exists>t<deadline. pane_shows w target pattern t"
proof -
  have "\<forall>w1. y = (Inr True, w1) \<longrightarrow> (\<exists>t<deadline. pane_shows w target pattern t)"
    if "wait_loop target pattern deadline poll_s w = Some y" for y
    using that
  proof (induction rule: wait_loop.raw_induct [rotated 1, consumes 1, case_names step])
    case (step f target pattern deadline poll_s w y)
    note IH = step(1) and body = step(2)
    show "\<forall>w1. y = (Inr True, w1) \<longrightarrow> (\<exists>t<deadline. pane_shows w target pattern t)"
    proof (intro allI impI)
      fix w1
      assume y: "y = (Inr True, w1)"
      with body have early: "clock w < deadline"
        by (auto split: if_splits)
      show "\<exists>t<deadline. pane_shows w target pattern t"
      proof (cases "child w (clock w) (capture_argv target) None")
        case (Inl e)
        with body y early show ?thesis
          by (simp add: poll_pane_raises)
      next
        case (Inr c)
        show ?thesis
        proof (cases "returncode c = 0 \<and> str_contains pattern (out_text c)")
          case True
          with Inr have "pane_shows w target pattern (clock w)"
            by (simp add: pane_shows_def)
          with early show ?thesis by blast
        next
          case False
          show ?thesis
          proof (cases "poll_s < 0")
            case True
            with body y early Inr False show ?thesis
              by (auto simp add: poll_pane_runs time_sleep_def)
          next
            case nonneg: False
            with body early Inr False
            have "f target pattern deadline poll_s (after_sleep (after_run w (capture_argv target)) poll_s) = Some y"
              by (auto simp add: poll_pane_runs time_sleep_ok)
            from IH [OF this] y show ?thesis
              by simp
          qed
        qed
      qed
    qed
  qed
  from this [OF ret] show ?thesis by simp
qed

section \<open>The example environments\<close>

lemma two_dirs:
  "environ_PATH w = Some (ascii ''/locked:/opt/bin'') \<Longrightarrow>
   candidates w name = [path_div (ascii ''/locked'') name, path_div (ascii ''/opt/bin'') name]"
  by (simp add: candidates_def search_dirs_def str_split_def ascii_def)

lemma example_paths:
  "path_div (ascii ''/locked'') (ascii ''script'') = ascii ''/locked/script''"
  "path_div (ascii ''/opt/bin'') (ascii ''script'') = ascii ''/opt/bin/script''"
  "path_div (ascii ''/locked'') (ascii ''tmux'') = ascii ''/locked/tmux''"
  "path_div (ascii ''/opt/bin'') (ascii ''tmux'') = ascii ''/opt/bin/tmux''"
  "path_div (ascii ''/locked'') (ascii ''claude'') = ascii ''/locked/claude''"
  "path_div (ascii ''/opt/bin'') (ascii ''claude'') = ascii ''/opt/bin/claude''"
  "path_div [] (ascii ''claude'') = ascii ''claude''"
  "path_str (ascii ''/opt/bin/claude'') = ascii ''/opt/bin/claude''"
  by (simp_all add: path_div_def path_str_def posix_join_def splitroot_def endswith_def
      str_split_def ascii_def)

lemma base_fields [simp]:
  "environ_PATH base_world = Some (ascii ''/locked:/opt/bin'')"
  "path_exists base_world = (\<lambda>p. Inr (p = ascii ''/opt/bin/claude''))"
  "path_is_file base_world = (\<lambda>p. if startswith p (ascii ''/locked/'') then Inl PermissionError
                          else Inr (p = ascii ''/opt/bin/claude'' \<or> p = ascii ''/opt/bin/tmux''))"
  "os_access_x base_world = (\<lambda>p. True)"
  "child_duration base_world = (\<lambda>t argv. 2 / 5)"
  "child_pid base_world = (\<lambda>t argv. 4242)"
  "oversleep base_world = (\<lambda>t. 0)"
  "events base_world = []"
  "makedirs_error base_world = (\<lambda>d. None)"
  "open_error base_world = (\<lambda>d. None)"
  "io_latency base_world = (\<lambda>t. 0)"
  "clock base_world = 0"
  "os_getcwd base_world = ascii ''/home/u''"
  "child base_world = (\<lambda>t argv wd. Inr \<lparr>returncode = 3, out_text = ascii ''out'' @ [10], err_text = []\<rparr>)"
  "localtime base_world = (\<lambda>t. \<lparr>tm_year = 2026, tm_mon = 11, tm_mday = 6,
                          tm_hour = 3, tm_min = 4, tm_sec = 5\<rparr>)"
  by (simp_all add: base_world_def)

lemma base_runnable:
  "runnable base_world p \<longleftrightarrow>
     \<not> startswith p (ascii ''/locked/'') \<and> (p = ascii ''/opt/bin/claude'' \<or> p = ascii ''/opt/bin/tmux'')"
  by (simp add: runnable_def)

lemma base_no_script: "find (runnable base_world) (candidates base_world (ascii ''script'')) = None"
  unfolding two_dirs [OF base_fields(1)] example_paths by (simp add: base_runnable ascii_def)

lemma base_tmux:
  "find (runnable base_world) (candidates base_world (ascii ''tmux'')) = Some (ascii ''/opt/bin/tmux'')"
  unfolding two_dirs [OF base_fields(1)] example_paths by (simp add: base_runnable ascii_def)

lemma base_launched [simp]: "launched_cmd base_world cmd = cmd"
  by (simp add: launched_cmd_def base_no_script)

lemma base_locate [simp]:
  "locate_claude base_world (ascii ''/opt/bin/claude'') = Located (ascii ''/opt/bin/claude'')"
  by (simp add: locate_claude_def example_paths)

lemma stamp_compact: "strftime_compact \<lparr>tm_year = 2026, tm_mon = 11, tm_mday = 6,
                          tm_hour = 3, tm_min = 4, tm_sec = 5\<rparr> = ascii ''20261106-030405''"
  by (simp add: strftime_compact_def zero_pad_def str_nat.simps ascii_def)

lemma stamp_iso: "strftime_iso \<lparr>tm_year = 2026, tm_mon = 11, tm_mday = 6,
                          tm_hour = 3, tm_min = 4, tm_sec = 5\<rparr> = ascii ''2026-11-06 03:04:05''"
  by (simp add: strftime_iso_def zero_pad_def str_nat.simps ascii_def)

lemma base_args_fields [simp]:
  "prompt base_args = Some (ascii ''hello world'')"
  "mode base_args = Auto"
  "claude_bin base_args = ascii ''/opt/bin/claude''"
  "cwd base_args = None"
  "notify base_args = False"
  "clipboard base_args = False"
  "background base_args = False"
  "log_dir base_args = ascii ''logs''"
  "extra base_args = []"
  by (simp_all add: base_args_def)

lemma base_headless_cmd:
  "build_headless_cmd (resolved_args (base_args\<lparr>mode := m, clipboard := c, background := b\<rparr>)
       (ascii ''/opt/bin/claude''))
     = [ascii ''/opt/bin/claude'', ascii ''-p'', ascii ''hello world'']"
  by (simp add: build_headless_cmd_def resolved_args_def base_args_def opt_flag_def strip_dashes_def)

lemma child_update_frame [simp]:
  "candidates (w\<lparr>child := ch\<rparr>) = candidates w"
  "runnable (w\<lparr>child := ch\<rparr>) = runnable w"
  by (simp_all add: candidates_def search_dirs_def runnable_def fun_eq_iff)

lemma child_update_frame2 [simp]:
  "launched_cmd (w\<lparr>child := ch\<rparr>) = launched_cmd w"
  "locate_claude (w\<lparr>child := ch\<rparr>) = locate_claude w"
  by (simp_all add: launched_cmd_def locate_claude_def fun_eq_iff split: sum.splits bool.splits)

lemma base_plain_prompt [simp]:
  "determine_mode (base_args\<lparr>mode := m, clipboard := c, background := b\<rparr>) = m"
  by (cases m)
     (simp_all add: determine_mode_def looks_like_slash_commands_def splitlines_def strip_def
        lstrip_def rstrip_def is_space_def is_linebreak_def ascii_def)

lemma base_args_update:
  "base_args = base_args\<lparr>mode := Auto, clipboard := False, background := False\<rparr>"
  by (simp add: base_args_def)

lemma base_report_launches [simp]: "launches (report_lines pid lf) = []"
  by (simp add: report_lines_def)

lemma no_claude_missing:
  "path_exists no_claude_world (path_str (ascii ''/opt/bin/claude'')) = Inr False"
  "\<forall>c \<in> set (candidates no_claude_world (ascii ''claude'')). \<not> runnable no_claude_world c"
proof -
  show "path_exists no_claude_world (path_str (ascii ''/opt/bin/claude'')) = Inr False"
    by (simp add: no_claude_world_def)
  have "candidates no_claude_world (ascii ''claude'') = [ascii ''claude'']"
    by (simp add: candidates_def search_dirs_def str_split_def no_claude_world_def example_paths)
  then show "\<forall>c \<in> set (candidates no_claude_world (ascii ''claude'')). \<not> runnable no_claude_world c"
    by (simp add: runnable_def no_claude_world_def ascii_def)
qed

lemma no_tmux_missing:
  "locate_claude no_tmux_world (ascii ''/opt/bin/claude'') = Located (ascii ''/opt/bin/claude'')"
  "\<forall>c \<in> set (candidates no_tmux_world (ascii ''tmux'')). \<not> runnable no_tmux_world c"
proof -
  show "locate_claude no_tmux_world (ascii ''/opt/bin/claude'') = Located (ascii ''/opt/bin/claude'')"
    by (simp add: locate_claude_def no_tmux_world_def example_paths)
  have "candidates no_tmux_world (ascii ''tmux'') = [ascii ''/locked/tmux'', ascii ''/opt/bin/tmux'']"
    by (simp add: two_dirs no_tmux_world_def example_paths)
  then show "\<forall>c \<in> set (candidates no_tmux_world (ascii ''tmux'')). \<not> runnable no_tmux_world c"
    by (simp add: runnable_def no_tmux_world_def ascii_def)
qed

lemma quiet_world_facts:
  "clock quiet_world = 0"
  "clock_advances quiet_world target"
  "delays_within quiet_world target (2 / 5) 0"
  "pane_misses quiet_world target trust_text t"
  "child_duration quiet_world = (\<lambda>t argv. 2 / 5)"
  "oversleep quiet_world = (\<lambda>t. 0)"
  by (simp_all add: quiet_world_def clock_advances_def delays_within_def pane_misses_def
      trust_text_def ascii_def)

lemma base_world_captures:
  "clock_advances base_world target"
  "capture_exits_nonzero base_world target t"
  "pane_misses base_world target pattern t"
  by (simp_all add: clock_advances_def capture_exits_nonzero_def pane_misses_def)

lemma trust_screen_shows: "returncode trust_screen = 0 \<and> str_contains trust_text (out_text trust_screen)"
  by (simp add: trust_screen_def trust_text_def ascii_def)

section \<open>Slash lines\<close>

lemma startswith_slash: "startswith l [47] \<longleftrightarrow> (\<exists>post. l = 47 # post)"
  by (cases l) auto

lemma linebreak_is_space: "is_linebreak c \<Longrightarrow> is_space c"
  by (auto simp: is_linebreak_def is_space_def)

lemma slash_not_space: "\<not> is_space 47" "\<not> is_linebreak 47"
  by (simp_all add: is_space_def is_linebreak_def)

lemma strip_slash: "startswith (strip l) [47] \<longleftrightarrow> (\<exists>post. dropWhile is_space l = 47 # post)"
proof -
  define x where "x = dropWhile is_space l"
  have "startswith (rev (dropWhile is_space (rev x))) [47] \<longleftrightarrow> (\<exists>post. x = 47 # post)"
  proof
    assume "startswith (rev (dropWhile is_space (rev x))) [47]"
    then obtain post where p: "rev (dropWhile is_space (rev x)) = 47 # post"
      by (auto simp: startswith_slash)
    have "x = rev (dropWhile is_space (rev x)) @ rev (takeWhile is_space (rev x))"
      by (metis rev_append rev_rev_ident takeWhile_dropWhile_id)
    with p show "\<exists>post. x = 47 # post"
      by (metis append_Cons)
  next
    assume "\<exists>post. x = 47 # post"
    then obtain post where "x = 47 # post" ..
    then have "rev x = rev post @ [47]" by simp
    then have "\<exists>ys. dropWhile is_space (rev x) = ys @ [47]"
      by (cases "\<forall>c \<in> set (rev post). is_space c")
         (auto simp: dropWhile_append slash_not_space dropWhile_append1 dropWhile_append2)
    then obtain ys where "dropWhile is_space (rev x) = ys @ [47]" ..
    then have "rev (dropWhile is_space (rev x)) = 47 # rev ys" by simp
    then show "startswith (rev (dropWhile is_space (rev x))) [47]"
      unfolding startswith_slash by blast
  qed
  then show ?thesis
    by (simp add: strip_def rstrip_def lstrip_def x_def)
qed

lemma strip_slash_snoc:
  "startswith (strip (cur @ [c])) [47]
     \<longleftrightarrow> startswith (strip cur) [47] \<or> (list_all is_space cur \<and> c = 47)"
proof (cases "list_all is_space cur")
  case True
  then have a: "dropWhile is_space cur = []"
    and b: "dropWhile is_space (cur @ [c]) = dropWhile is_space [c]"
    by (simp_all add: list_all_iff dropWhile_append2)
  show ?thesis
    unfolding strip_slash a b using True by (auto simp: slash_not_space)
next
  case False
  then obtain y where "y \<in> set cur" "\<not> is_space y"
    by (auto simp: list_all_iff)
  then have "dropWhile is_space (cur @ [c]) = dropWhile is_space cur @ [c]"
    and "dropWhile is_space cur \<noteq> []"
    by (auto simp: dropWhile_append1)
  with False show ?thesis
    by (cases "dropWhile is_space cur") (auto simp: strip_slash)
qed

lemma splitlines_from_lf: "splitlines_from cur (10 # ds) = cur # splitlines_from [] ds"
  by (cases ds) (simp_all add: is_linebreak_def)

lemma splitlines_from_scan:
  "list_ex (\<lambda>line. startswith (strip line) [47]) (splitlines_from cur s)
     \<longleftrightarrow> startswith (strip cur) [47] \<or> slash_scan (list_all is_space cur) s"
proof (induction s arbitrary: cur)
  case Nil
  show ?case
    by (simp add: strip_slash)
next
  case (Cons c cs)
  show ?case
  proof (cases "is_linebreak c")
    case True
    then have "c \<noteq> 47" using slash_not_space by auto
    have empty: "\<not> startswith (strip []) [47]"
      by (simp add: strip_slash)
    show ?thesis
    proof (cases cs)
      case Nil
      with True \<open>c \<noteq> 47\<close> show ?thesis by (simp add: empty)
    next
      case (Cons d ds)
      show ?thesis
      proof (cases "c = 13 \<and> d = 10")
        case crlf: True
        then have "is_linebreak d" "d \<noteq> 47" by (simp_all add: is_linebreak_def)
        have "list_ex (\<lambda>line. startswith (strip line) [47]) (splitlines_from [] ds)
            \<longleftrightarrow> slash_scan True ds"
          using Cons.IH [of "[]"] crlf Cons
          by (auto simp add: empty is_linebreak_def split: list.splits)
        with True \<open>c \<noteq> 47\<close> Cons crlf show ?thesis
          by (simp add: is_linebreak_def)
      next
        case False
        with True \<open>c \<noteq> 47\<close> Cons Cons.IH [of "[]"] show ?thesis
          by (auto simp add: empty)
      qed
    qed
  next
    case False
    then show ?thesis
      using Cons.IH [of "cur @ [c]"]
      by (auto simp add: strip_slash_snoc slash_not_space)
  qed
qed

lemma has_slash_line_scan: "has_slash_line (Some s) \<longleftrightarrow> slash_scan True s"
  using splitlines_from_scan [of "[]" s]
  by (simp add: has_slash_line_def splitlines_def list_ex_iff strip_slash)

section \<open>The interactive run\<close>

lemma later_refl [simp]: "later w w"
  unfolding later_def by (rule exI [of _ "clock w"], rule exI [of _ "[]"]) simp

lemma later_trans:
  assumes "later w w1" and "later w1 w2"
  shows "later w w2"
proof -
  from assms(1) obtain t evs where 1: "w1 = w\<lparr>clock := t, events := events w @ evs\<rparr>"
    unfolding later_def by blast
  from assms(2) obtain t' evs' where 2: "w2 = w1\<lparr>clock := t', events := events w1 @ evs'\<rparr>"
    unfolding later_def by blast
  have "w2 = w\<lparr>clock := t', events := events w @ (evs @ evs')\<rparr>"
    unfolding 2 1 by simp
  then show ?thesis
    unfolding later_def by blast
qed

lemma later_steps [simp]:
  "later w (after_run w argv)"
  "later w (after_sleep w d)"
  "later w (log_event e w)"
proof -
  show "later w (after_run w argv)"
    unfolding later_def after_run_def by blast
  show "later w (after_sleep w d)"
    unfolding later_def after_sleep_def by blast
  have "log_event e w = w\<lparr>clock := clock w, events := events w @ [e]\<rparr>"
    by (simp add: log_event_def)
  then show "later w (log_event e w)"
    unfolding later_def by blast
qed

lemma later_after_poll [simp]: "later w (after_poll w target p)"
  unfolding after_poll_def by (rule later_trans [of _ "after_run w (capture_argv target)"]) simp_all

lemma later_machine:
  assumes "later w w'"
  shows "child w' = child w" "child_duration w' = child_duration w" "oversleep w' = oversleep w"
    "os_getcwd w' = os_getcwd w" "\<exists>evs. events w' = events w @ evs"
  using assms unfolding later_def by auto

lemma later_events: "later w w' \<Longrightarrow> e \<in> set (events w) \<Longrightarrow> e \<in> set (events w')"
  unfolding later_def by auto

lemma later_notions:
  assumes "later w w'"
  shows "tmux_obeys w' = tmux_obeys w" "clock_advances w' = clock_advances w"
  using later_machine [OF assms]
  by (simp_all add: tmux_obeys_def clock_advances_def fun_eq_iff)

lemma tmux_runs:
  assumes "tmux_obeys w"
  shows "\<exists>c. subprocess_run (ascii ''tmux'' # as) None w = Some (Inr c, after_run w (ascii ''tmux'' # as))"
proof -
  from assms have "case child w (clock w) (ascii ''tmux'' # as) None of
               Inl e \<Rightarrow> False
             | Inr c \<Rightarrow> take 1 as = [ascii ''new''] \<or> take 1 as = [ascii ''send-keys'']
                         \<longrightarrow> returncode c = 0"
    unfolding tmux_obeys_def by blast
  then obtain c where "child w (clock w) (ascii ''tmux'' # as) None = Inr c"
    by (auto split: sum.splits)
  then show ?thesis
    by (auto dest: subprocess_run_after)
qed

lemma tmux_checked:
  assumes "tmux_obeys w" and "take 1 as = [ascii ''new''] \<or> take 1 as = [ascii ''send-keys'']"
  shows "check_call (ascii ''tmux'' # as) w = Some (Inr (), after_run w (ascii ''tmux'' # as))"
proof -
  from assms(1) have "case child w (clock w) (ascii ''tmux'' # as) None of
               Inl e \<Rightarrow> False
             | Inr c \<Rightarrow> take 1 as = [ascii ''new''] \<or> take 1 as = [ascii ''send-keys'']
                         \<longrightarrow> returncode c = 0"
    unfolding tmux_obeys_def by blast
  with assms(2) obtain c where "child w (clock w) (ascii ''tmux'' # as) None = Inr c" "returncode c = 0"
    by (auto split: sum.splits)
  then show ?thesis
    by (simp add: check_call_def bind_def subprocess_run_after ret_def)
qed

lemma capture_argv_tmux:
  "capture_argv target = ascii ''tmux'' # [ascii ''capture-pane'', ascii ''-p'', ascii ''-J'', ascii ''-t'',
      target, ascii ''-S'', 45 # str_int 200]"
  by (simp add: capture_argv_def tmux_cmd_def)

lemma poll_pane_tmux:
  assumes "tmux_obeys w"
  shows "\<exists>b. poll_pane target pattern w = Some (Inr b, after_run w (capture_argv target))"
proof -
  from tmux_runs [OF assms] obtain c where
    "subprocess_run (capture_argv target) None w = Some (Inr c, after_run w (capture_argv target))"
    unfolding capture_argv_tmux by blast
  then have "child w (clock w) (capture_argv target) None = Inr c"
    by (auto simp: subprocess_run_def split: sum.splits)
  then show ?thesis
    by (simp add: poll_pane_runs)
qed

lemma wait_loop_returns:
  assumes "0 < poll_s"
  shows "clock_advances w target \<Longrightarrow> tmux_obeys w \<Longrightarrow>
         deadline - clock w \<le> of_nat n * poll_s \<Longrightarrow>
         \<exists>b w'. wait_loop target pattern deadline poll_s w = Some (Inr b, w') \<and> later w w'"
proof (induction n arbitrary: w)
  case 0
  then have "deadline \<le> clock w" by simp
  then show ?case by (intro exI [of _ False] exI [of _ w]) (simp add: wait_loop_late)
next
  case (Suc n)
  show ?case
  proof (cases "deadline \<le> clock w")
    case True
    then show ?thesis by (intro exI [of _ False] exI [of _ w]) (simp add: wait_loop_late)
  next
    case False
    let ?w0 = "after_run w (capture_argv target)"
    let ?w1 = "after_poll w target poll_s"
    let ?d = "child_duration w (clock w) (capture_argv target)"
    let ?o = "oversleep w (clock w + ?d)"
    from poll_pane_tmux [OF Suc.prems(2)] obtain b where
      b: "poll_pane target pattern w = Some (Inr b, ?w0)" by blast
    show ?thesis
    proof (cases b)
      case True
      with False b have "wait_loop target pattern deadline poll_s w = Some (Inr True, ?w0)"
        by (subst wait_loop.simps) simp
      then show ?thesis by auto
    next
      case miss: False
      from Suc.prems(1) have nonneg: "0 \<le> ?d" "0 \<le> ?o"
        by (simp_all add: clock_advances_def)
      have c1: "clock ?w1 = clock w + ?d + poll_s + ?o"
        by (rule after_poll_clock)
      from Suc.prems(3) nonneg have "deadline - clock ?w1 \<le> of_nat n * poll_s"
        unfolding c1 by (simp add: algebra_simps)
      moreover have "tmux_obeys ?w1"
        using Suc.prems(2) by (simp add: later_notions [of w ?w1])
      ultimately obtain b' w' where
        w': "wait_loop target pattern deadline poll_s ?w1 = Some (Inr b', w')" and l: "later ?w1 w'"
        using Suc.IH [of ?w1] Suc.prems(1) by auto
      from assms have "0 \<le> poll_s" by simp
      with False b miss
      have "wait_loop target pattern deadline poll_s w = wait_loop target pattern deadline poll_s ?w1"
        by (subst wait_loop.simps) (simp add: time_sleep_ok after_poll_def)
      moreover have "later w w'"
        using l by (rule later_trans [rotated]) simp
      ultimately show ?thesis using w' by auto
    qed
  qed
qed

lemma tmux_wait_returns:
  assumes "0 < poll_s" and "clock_advances w target" and "tmux_obeys w"
  shows "\<exists>b w'. tmux_wait_for_text target pattern timeout_s poll_s w = Some (Inr b, w') \<and> later w w'"
proof -
  obtain n where "clock w + of_int timeout_s - clock w \<le> of_nat n * poll_s"
    using enough_polls [OF assms(1)] by blast
  from wait_loop_returns [OF assms(1,2,3) this] show ?thesis
    by (simp add: tmux_wait_for_text_eq)
qed

lemma send_keys_tmux:
  "send_keys target keys = ascii ''tmux'' # ascii ''send-keys'' # ascii ''-t'' # target # keys"
  by (simp add: send_keys_def tmux_cmd_def)

lemma send_keys_checked:
  "tmux_obeys w \<Longrightarrow> check_call (send_keys target keys) w = Some (Inr (), after_run w (send_keys target keys))"
  unfolding send_keys_tmux by (rule tmux_checked) simp_all

lemma send_keys_runs:
  "tmux_obeys w \<Longrightarrow>
   \<exists>c. subprocess_run (send_keys target keys) None w = Some (Inr c, after_run w (send_keys target keys))"
  unfolding send_keys_tmux by (rule tmux_runs)

lemma handle_trust_prompt_returns:
  assumes "tmux_obeys w" and "clock_advances w target"
  shows "\<exists>w'. handle_trust_prompt target w = Some (Inr (), w') \<and> later w w'"
proof -
  from tmux_wait_returns [of "1 / 2" w target trust_text 20] assms obtain b w1 where
    first: "tmux_wait_for_text target trust_text 20 (1 / 2) w = Some (Inr b, w1)" and l1: "later w w1"
    by auto
  show ?thesis
  proof (cases b)
    case False
    with first l1 show ?thesis
      by (simp add: handle_trust_prompt_def bind_def ret_def)
  next
    case True
    let ?enter = "send_keys target [ascii ''Enter'']"
    let ?one = "send_keys target [ascii ''1'']"
    define w2 where "w2 = after_sleep (after_run w1 ?enter) (4 / 5)"
    have o1: "tmux_obeys w1" "clock_advances w1 target"
      using assms by (simp_all add: later_notions [OF l1])
    from send_keys_runs [OF o1(1)] obtain c1 where
      e: "subprocess_run ?enter None w1 = Some (Inr c1, after_run w1 ?enter)" by blast
    have s: "time_sleep (4 / 5) (after_run w1 ?enter) = Some (Inr (), w2)"
      by (simp add: time_sleep_ok w2_def)
    have l2: "later w w2"
      unfolding w2_def
      by (rule later_trans [OF l1], rule later_trans [of _ "after_run w1 ?enter"]) simp_all
    have o2: "tmux_obeys w2" "clock_advances w2 target"
      using assms by (simp_all add: later_notions [OF l2])
    from tmux_wait_returns [of "1 / 2" w2 target trust_text 2] o2 obtain b2 w3 where
      second: "tmux_wait_for_text target trust_text 2 (1 / 2) w2 = Some (Inr b2, w3)" and l3: "later w2 w3"
      by auto
    have l3': "later w w3" using l2 l3 by (rule later_trans)
    have start: "handle_trust_prompt target w
      = bind (tmux_wait_for_text target trust_text 2 (1 / 2)) (\<lambda>again.
         if again then
           bind (subprocess_run ?one None) (\<lambda>c2.
           bind (subprocess_run ?enter None) (\<lambda>c3. ret ()))
         else ret ()) w2"
      using True by (simp add: handle_trust_prompt_def bind_def first e s)
    show ?thesis
    proof (cases b2)
      case False
      with second l3' show ?thesis
        by (simp add: start bind_def ret_def)
    next
      case again: True
      have o3: "tmux_obeys w3"
        using assms by (simp add: later_notions [OF l3'])
      from send_keys_runs [OF o3] obtain c2 where
        k1: "subprocess_run ?one None w3 = Some (Inr c2, after_run w3 ?one)" by blast
      have "tmux_obeys (after_run w3 ?one)"
        using o3 by (simp add: later_notions [of w3 "after_run w3 ?one"])
      from send_keys_runs [OF this] obtain c3 where
        k2: "subprocess_run ?enter None (after_run w3 ?one)
               = Some (Inr c3, after_run (after_run w3 ?one) ?enter)" by blast
      have "later w (after_run (after_run w3 ?one) ?enter)"
        by (rule later_trans [OF l3'], rule later_trans [of _ "after_run w3 ?one"]) simp_all
      with again second show ?thesis
        by (simp add: start bind_def ret_def k1 k2)
    qed
  qed
qed

lemma send_lines_returns:
  assumes "0 \<le> delay"
  shows "tmux_obeys w \<Longrightarrow>
         \<exists>w'. send_lines target delay ls w = Some (Inr (), w') \<and> later w w'
            \<and> (\<forall>line \<in> set ls. Spawn (send_keys target [ascii ''-l'', ascii ''--'', line]) None
                  \<in> set (events w'))"
proof (induction ls arbitrary: w)
  case Nil
  then show ?case by (simp add: ret_def)
next
  case (Cons line rest)
  let ?keys = "send_keys target [ascii ''-l'', ascii ''--'', line]"
  let ?enter = "send_keys target [ascii ''Enter'']"
  define w1 where "w1 = after_run w ?keys"
  define w2 where "w2 = after_run w1 ?enter"
  define w3 where "w3 = after_sleep w2 delay"
  have l1: "later w w1" by (simp add: w1_def)
  have l12: "later w1 w2" by (simp add: w2_def)
  have l23: "later w2 w3" by (simp add: w3_def)
  have l2: "later w w2" using l1 l12 by (rule later_trans)
  have l3: "later w w3" using l2 l23 by (rule later_trans)
  have o: "tmux_obeys w1" "tmux_obeys w3"
    using Cons.prems by (simp_all add: later_notions [OF l1] later_notions [OF l3])
  have s1: "check_call ?keys w = Some (Inr (), w1)"
    unfolding w1_def using Cons.prems by (rule send_keys_checked)
  have s2: "check_call ?enter w1 = Some (Inr (), w2)"
    unfolding w2_def using o(1) by (rule send_keys_checked)
  have s3: "time_sleep delay w2 = Some (Inr (), w3)"
    unfolding w3_def using assms by (rule time_sleep_ok)
  from Cons.IH [OF o(2)] obtain w' where
    r: "send_lines target delay rest w3 = Some (Inr (), w')" and l: "later w3 w'"
    and sent: "\<forall>line \<in> set rest. Spawn (send_keys target [ascii ''-l'', ascii ''--'', line]) None
                  \<in> set (events w')"
    by blast
  have "later w1 w'"
    using l12 l23 l by (blast intro: later_trans)
  moreover have "Spawn ?keys None \<in> set (events w1)"
    by (simp add: w1_def)
  ultimately have "Spawn ?keys None \<in> set (events w')"
    by (rule later_events)
  moreover have "later w w'" using l3 l by (rule later_trans)
  ultimately show ?case
    using r sent by (simp add: bind_def s1 s2 s3)
qed

lemma report_session_returns:
  "\<exists>w'. report_session session target w = Some (Inr (), w') \<and> later w w'"
proof -
  have "later w (log_event e3 (log_event e2 (log_event e1 w)))" for e1 e2 e3
    by (rule later_trans [of _ "log_event e1 w"], simp,
        rule later_trans [of _ "log_event e2 (log_event e1 w)"]) simp_all
  then show ?thesis
    by (simp add: report_session_def bind_def print_out_def write_stdout_def)
qed

lemma snapshot_returns:
  assumes "tmux_obeys w"
  shows "\<exists>w'. snapshot target wait_s w = Some (Inr (), w') \<and> later w w'"
proof (cases "wait_s > 0")
  case False
  then show ?thesis by (simp add: snapshot_def ret_def)
next
  case True
  define w1 where "w1 = after_sleep w (of_int wait_s)"
  have s: "time_sleep (of_int wait_s) w = Some (Inr (), w1)"
    unfolding w1_def using True by (intro time_sleep_ok) simp
  have l1: "later w w1" by (simp add: w1_def)
  have "tmux_obeys w1" using assms by (simp add: later_notions [OF l1])
  from tmux_runs [OF this] obtain c where
    c: "subprocess_run (capture_argv target) None w1 = Some (Inr c, after_run w1 (capture_argv target))"
    unfolding capture_argv_tmux by blast
  have l2: "later w (after_run w1 (capture_argv target))"
    by (rule later_trans [OF l1]) simp
  have l3: "later w (log_event e1 (log_event e2 (after_run w1 (capture_argv target))))" for e1 e2
    by (rule later_trans [OF l2], rule later_trans [of _ "log_event e2 (after_run w1 (capture_argv target))"])
       simp_all
  show ?thesis
    using True l2 l3
    by (simp add: snapshot_def bind_def s try_except_def tmux_capture_argv check_output_def c
        raise_def ret_def print_out_def write_stdout_def)
qed

lemma run_interactive_tmux_ok:
  assumes tm: "find (runnable w) (candidates w (ascii ''tmux'')) = Some tb" "tb \<noteq> []"
    and ob: "tmux_obeys w"
    and ca: "clock_advances w (tmux_session a @ ascii '':0.0'')"
    and dl: "0 \<le> interactive_send_delay_ms a"
  shows "\<exists>w' evs. run_interactive_tmux a w = Some (Inr 0, w')
      \<and> events w' = events w
           @ [Spawn (tmux_cmd [ascii ''kill-session'', ascii ''-t'', tmux_session a]) None,
              Spawn (tmux_cmd [ascii ''new'', ascii ''-d'', ascii ''-s'', tmux_session a,
                               ascii ''-n'', ascii ''claude'']) None,
              Spawn (send_keys (tmux_session a @ ascii '':0.0'')
                      [ascii ''-l'', ascii ''--'', launch_line w a]) None,
              Spawn (send_keys (tmux_session a @ ascii '':0.0'') [ascii ''Enter'']) None]
           @ evs
      \<and> (\<forall>line \<in> set (prompt_lines (prompt a)).
            Spawn (send_keys (tmux_session a @ ascii '':0.0'') [ascii ''-l'', ascii ''--'', line]) None
              \<in> set (events w'))"
proof -
  let ?target = "tmux_session a @ ascii '':0.0''"
  let ?kill = "tmux_cmd [ascii ''kill-session'', ascii ''-t'', tmux_session a]"
  let ?new = "tmux_cmd [ascii ''new'', ascii ''-d'', ascii ''-s'', tmux_session a,
                        ascii ''-n'', ascii ''claude'']"
  let ?launch = "send_keys ?target [ascii ''-l'', ascii ''--'', launch_line w a]"
  let ?enter = "send_keys ?target [ascii ''Enter'']"
  let ?delay = "of_int (interactive_send_delay_ms a) / 1000 :: rat"
  let ?lines = "case prompt a of
               None \<Rightarrow> ret ()
             | Some p \<Rightarrow>
                 if p = [] then ret ()
                 else send_lines ?target ?delay (filter (\<lambda>ln. strip ln \<noteq> []) (splitlines p))"
  define w1 where "w1 = after_run w ?kill"
  define w2 where "w2 = after_run w1 ?new"
  define w3 where "w3 = after_run w2 ?launch"
  define w4 where "w4 = after_run w3 ?enter"
  have l1: "later w w1" by (simp add: w1_def)
  have l2: "later w w2" unfolding w2_def by (rule later_trans [OF l1]) simp
  have l3: "later w w3" unfolding w3_def by (rule later_trans [OF l2]) simp
  have l4: "later w w4" unfolding w4_def by (rule later_trans [OF l3]) simp
  have o: "tmux_obeys w1" "tmux_obeys w2" "tmux_obeys w3" "tmux_obeys w4"
    "clock_advances w4 ?target"
    using ob ca
    by (simp_all add: later_notions [OF l1] later_notions [OF l2] later_notions [OF l3]
        later_notions [OF l4])
  obtain c0 where k0: "subprocess_run ?kill None w = Some (Inr c0, w1)"
    unfolding w1_def tmux_cmd_def using tmux_runs [OF ob] by blast
  have k1: "check_call ?new w1 = Some (Inr (), w2)"
    unfolding w2_def tmux_cmd_def using o(1) by (rule tmux_checked) simp
  have cw: "cwd_or_getcwd (cwd a) w2 = Some (Inr (header_cwd w (cwd a)), w2)"
    using later_machine(4) [OF l2]
    by (simp add: cwd_or_getcwd_eq header_cwd_def split: option.splits)
  have k2: "check_call ?launch w2 = Some (Inr (), w3)"
    unfolding w3_def using o(2) by (rule send_keys_checked)
  have k3: "check_call ?enter w3 = Some (Inr (), w4)"
    unfolding w4_def using o(3) by (rule send_keys_checked)
  from handle_trust_prompt_returns [OF o(4,5)] obtain w5 where
    k4: "handle_trust_prompt ?target w4 = Some (Inr (), w5)" and l5: "later w4 w5" by blast
  have o5: "tmux_obeys w5"
    using o(4) by (simp add: later_notions [OF l5])
  from dl have "0 \<le> ?delay" by simp
  from send_lines_returns [OF this o5, of ?target "prompt_lines (prompt a)"] obtain w6 where
    sl: "send_lines ?target ?delay (prompt_lines (prompt a)) w5 = Some (Inr (), w6)"
    and l6: "later w5 w6"
    and sent: "\<forall>line \<in> set (prompt_lines (prompt a)).
            Spawn (send_keys ?target [ascii ''-l'', ascii ''--'', line]) None \<in> set (events w6)"
    by blast
  have "?lines = send_lines ?target ?delay (prompt_lines (prompt a))"
    by (simp add: prompt_lines_def splitlines_Nil fun_eq_iff ret_def split: option.splits)
  with sl have k5: "?lines w5 = Some (Inr (), w6)"
    by simp
  from report_session_returns obtain w7 where
    k6: "report_session (tmux_session a) ?target w6 = Some (Inr (), w7)" and l7: "later w6 w7"
    by blast
  have "tmux_obeys w7"
    using o5 by (simp add: later_notions [OF l6] later_notions [OF l7])
  from snapshot_returns [OF this] obtain w8 where
    k7: "snapshot ?target (interactive_wait_s a) w7 = Some (Inr (), w8)" and l8: "later w7 w8"
    by blast
  have l68: "later w6 w8" using l7 l8 by (rule later_trans)
  have "later w4 w8"
    using l5 l6 l68 by (blast intro: later_trans)
  then obtain evs where "events w8 = events w4 @ evs"
    using later_machine(5) by blast
  then have ev: "events w8 = events w @ [Spawn ?kill None, Spawn ?new None, Spawn ?launch None,
                    Spawn ?enter None] @ evs"
    by (simp add: w4_def w3_def w2_def w1_def)
  from sent l68 have sent8: "\<forall>line \<in> set (prompt_lines (prompt a)).
            Spawn (send_keys ?target [ascii ''-l'', ascii ''--'', line]) None \<in> set (events w8)"
    by (blast intro: later_events)
  have "run_interactive_tmux a w = Some (Inr 0, w8)"
    using tm(2)
    by (simp add: run_interactive_tmux_def bind_def which_find tm(1) Let_def k0 k1 cw k2 [unfolded launch_line_def]
        k3 k4 k5 k6 k7 ret_def)
  with ev sent8 show ?thesis
    by blast
qed

lemma dispatch_interactive:
  assumes "determine_mode a = Interactive" and "run_interactive_tmux a w = Some (Inr rc, w1)"
  shows "\<exists>w' evs. dispatch a w = Some (Inr rc, w') \<and> events w' = events w1 @ evs"
proof -
  let ?n = "if notify a
              then notify_macos (ascii ''Claude Code'')
                     (ascii ''Headless task ''
                      @ (if rc = 0 then ascii ''completed''
                         else ascii ''failed (exit '' @ str_int rc @ ascii '')''))
              else ret ()"
  from notify_if_returns obtain w' evs where n: "?n w1 = Some (Inr (), w')" and "events w' = events w1 @ evs"
    by blast
  moreover have "dispatch a w = Some (Inr rc, w')"
    using assms n by (simp add: dispatch_def Let_def bind_def ret_def cong: if_cong)
  ultimately show ?thesis by blast
qed

lemma resolved_args_tmux [simp]:
  "tmux_session (resolved_args a f) = tmux_session a"
  "prompt (resolved_args a f) = prompt a"
  "interactive_send_delay_ms (resolved_args a f) = interactive_send_delay_ms a"
  by (simp_all add: resolved_args_def)

lemma capture_argv_eq:
  "[ascii ''tmux'', ascii ''capture-pane'', ascii ''-p'', ascii ''-J'', ascii ''-t'', target,
    ascii ''-S'', ascii ''-200''] = capture_argv target"
  by (simp add: capture_argv_def tmux_cmd_def str_int_def str_nat.simps ascii_def)

lemma send_keys_eq:
  "[ascii ''tmux'', ascii ''send-keys'', ascii ''-t'', target, key] = send_keys target [key]"
  by (simp add: send_keys_tmux)

lemma wait_loop_events:
  assumes ret: "wait_loop target pattern deadline poll_s w = Some (r, w')"
  shows "\<exists>evs. events w' = events w @ evs
           \<and> (\<forall>e \<in> set evs. e = Spawn (capture_argv target) None \<or> e = Slept poll_s)"
proof -
  have "\<exists>evs. events (snd y) = events w @ evs
           \<and> (\<forall>e \<in> set evs. e = Spawn (capture_argv target) None \<or> e = Slept poll_s)"
    if "wait_loop target pattern deadline poll_s w = Some y" for y
    using that
  proof (induction rule: wait_loop.raw_induct [rotated 1, consumes 1, case_names step])
    case (step f target pattern deadline poll_s w y)
    note IH = step(1) and body = step(2)
    let ?cap = "capture_argv target"
    show ?case
    proof (cases "clock w < deadline")
      case False
      with body have "y = (Inr False, w)" by simp
      then show ?thesis by simp
    next
      case early: True
      show ?thesis
      proof (cases "child w (clock w) ?cap None")
        case (Inl e)
        with body early have "y = (Inl (OSError e), w)"
          by (simp add: poll_pane_raises)
        then show ?thesis by simp
      next
        case (Inr c)
        show ?thesis
        proof (cases "returncode c = 0 \<and> str_contains pattern (out_text c)")
          case True
          with body early Inr have "y = (Inr True, after_run w ?cap)"
            by (auto simp add: poll_pane_runs)
          then show ?thesis by simp
        next
          case False
          show ?thesis
          proof (cases "poll_s < 0")
            case True
            with body early Inr False have "snd y = after_run w ?cap"
              by (auto simp add: poll_pane_runs time_sleep_def)
            then show ?thesis by simp
          next
            case nonneg: False
            with body early Inr False
            have "f target pattern deadline poll_s (after_sleep (after_run w ?cap) poll_s) = Some y"
              by (auto simp add: poll_pane_runs time_sleep_ok)
            from IH [OF this] obtain evs where
              "events (snd y) = events w @ [Spawn ?cap None, Slept poll_s] @ evs"
              and "\<forall>e \<in> set evs. e = Spawn ?cap None \<or> e = Slept poll_s"
              by auto
            then show ?thesis
              by (intro exI [of _ "[Spawn ?cap None, Slept poll_s] @ evs"]) auto
          qed
        qed
      qed
    qed
  qed
  from this [OF ret] show ?thesis by simp
qed

lemma quiet_world_interactive:
  "locate_claude quiet_world (ascii ''/opt/bin/claude'') = Located (ascii ''/opt/bin/claude'')"
  "find (runnable quiet_world) (candidates quiet_world (ascii ''tmux'')) = Some (ascii ''/opt/bin/tmux'')"
  "tmux_obeys quiet_world"
  "events quiet_world = []"
  "os_getcwd quiet_world = ascii ''/home/u''"
  by (simp_all add: quiet_world_def base_tmux tmux_obeys_def)

lemma slash_help_args:
  "determine_mode (base_args\<lparr>prompt := Some (ascii ''/help'')\<rparr>) = Interactive"
  "prompt_lines (Some (ascii ''/help'')) = [ascii ''/help'']"
  "claude_bin (base_args\<lparr>prompt := Some (ascii ''/help'')\<rparr>) = ascii ''/opt/bin/claude''"
  "tmux_session (base_args\<lparr>prompt := Some (ascii ''/help'')\<rparr>) = ascii ''claude-code''"
  "interactive_send_delay_ms (base_args\<lparr>prompt := Some (ascii ''/help'')\<rparr>) = 800"
  "prompt (base_args\<lparr>prompt := Some (ascii ''/help'')\<rparr>) = Some (ascii ''/help'')"
  by (simp_all add: determine_mode_def looks_like_slash_commands_def prompt_lines_def splitlines_def
      strip_def lstrip_def rstrip_def is_space_def is_linebreak_def ascii_def base_args_def)

lemma slash_help_launch:
  "launch_line quiet_world (resolved_args (base_args\<lparr>prompt := Some (ascii ''/help'')\<rparr>) (ascii ''/opt/bin/claude''))
     = ascii ''cd /home/u && /opt/bin/claude''"
  by (simp add: launch_line_def header_cwd_def quiet_world_interactive resolved_args_def base_args_def
      claude_parts_def opt_flag_def strip_dashes_def command_line_def shlex_quote_def safe_char_def
      ascii_def)

chapter \<open>The claims\<close>

text \<open>
  Claim C1 (mode selection). Mode \<^verbatim>\<open>auto\<close> becomes \<^verbatim>\<open>interactive\<close> exactly when some line
  of the prompt, trimmed, begins with a slash; otherwise the run is the one of mode
  \<^verbatim>\<open>headless\<close> (the variable keeps the value \<^verbatim>\<open>auto\<close>, which the dispatch treats as
  headless). An explicit \<^verbatim>\<open>headless\<close> or \<^verbatim>\<open>interactive\<close> is never changed, and neither the
  empty prompt nor a missing one has a slash line. A prompt has such a line exactly when
  the pass over its characters meets a slash with only whitespace between it and the start
  of its line.
\<close>

theorem mode_resolution:
  "(determine_mode (a\<lparr>mode := Auto\<rparr>) = Interactive \<longleftrightarrow> has_slash_line (prompt a))
   \<and> main (a\<lparr>mode := Auto\<rparr>)
       = (if has_slash_line (prompt a) then main (a\<lparr>mode := Interactive\<rparr>)
          else main (a\<lparr>mode := Headless\<rparr>))
   \<and> determine_mode (a\<lparr>mode := Headless\<rparr>) = Headless
   \<and> determine_mode (a\<lparr>mode := Interactive\<rparr>) = Interactive
   \<and> \<not> has_slash_line (Some []) \<and> \<not> has_slash_line None
   \<and> (has_slash_line (Some s) \<longleftrightarrow> slash_scan True s)"
proof -
  have scan: "has_slash_line (Some s) \<longleftrightarrow> slash_scan True s"
    by (rule has_slash_line_scan)
  have "main (a\<lparr>mode := Auto\<rparr>) = main (a\<lparr>mode := Interactive\<rparr>)" if "has_slash_line (prompt a)"
    by (rule main_mode) (use that in \<open>simp add: determine_mode_def looks_like_has_slash_line\<close>)
  moreover have "main (a\<lparr>mode := Auto\<rparr>) = main (a\<lparr>mode := Headless\<rparr>)" if "\<not> has_slash_line (prompt a)"
    by (rule main_mode) (use that in \<open>simp add: determine_mode_def looks_like_has_slash_line\<close>)
  ultimately have "(determine_mode (a\<lparr>mode := Auto\<rparr>) = Interactive \<longleftrightarrow> has_slash_line (prompt a))
   \<and> main (a\<lparr>mode := Auto\<rparr>)
       = (if has_slash_line (prompt a) then main (a\<lparr>mode := Interactive\<rparr>)
          else main (a\<lparr>mode := Headless\<rparr>))
   \<and> determine_mode (a\<lparr>mode := Headless\<rparr>) = Headless
   \<and> determine_mode (a\<lparr>mode := Interactive\<rparr>) = Interactive
   \<and> \<not> has_slash_line (Some []) \<and> \<not> has_slash_line None"
    by (simp add: determine_mode_def looks_like_has_slash_line has_slash_line_def splitlines_Nil)
  with scan show ?thesis
    by blast
qed

text \<open>The prompts of the specification, and a slash that is not at the start of a line.\<close>

theorem mode_resolution_witness:
  "determine_mode (base_args\<lparr>prompt := Some [], mode := Auto\<rparr>) \<noteq> Interactive
   \<and> determine_mode (base_args\<lparr>prompt := Some (ascii ''/help''), mode := Auto\<rparr>) = Interactive
   \<and> determine_mode (base_args\<lparr>prompt := Some (ascii ''hello'' @ [10] @ ascii ''/clear''), mode := Auto\<rparr>)
       = Interactive
   \<and> determine_mode (base_args\<lparr>prompt := Some (ascii ''hello world''), mode := Auto\<rparr>) \<noteq> Interactive
   \<and> main (base_args\<lparr>prompt := Some (ascii ''  /help''), mode := Auto\<rparr>)
       = main (base_args\<lparr>prompt := Some (ascii ''  /help''), mode := Interactive\<rparr>)
   \<and> main (base_args\<lparr>prompt := Some (ascii ''a/b''), mode := Auto\<rparr>)
       = main (base_args\<lparr>prompt := Some (ascii ''a/b''), mode := Headless\<rparr>)"
  using mode_resolution [of "base_args\<lparr>prompt := Some []\<rparr>"]
    mode_resolution [of "base_args\<lparr>prompt := Some (ascii ''/help'')\<rparr>"]
    mode_resolution [of "base_args\<lparr>prompt := Some (ascii ''hello'' @ [10] @ ascii ''/clear'')\<rparr>"]
    mode_resolution [of "base_args\<lparr>prompt := Some (ascii ''hello world'')\<rparr>"]
    mode_resolution [of "base_args\<lparr>prompt := Some (ascii ''  /help'')\<rparr>"]
    mode_resolution [of "base_args\<lparr>prompt := Some (ascii ''a/b'')\<rparr>"]
  by (simp add: has_slash_line_def splitlines_def strip_def lstrip_def rstrip_def is_space_def
      is_linebreak_def ascii_def)

text \<open>
  Claim C2 (missing binaries). When the claude binary does not exist at the configured
  path and no directory of the search path has a runnable \<^verbatim>\<open>claude\<close>, main returns 2 and
  the error stream gets a line that names claude. When claude is located, the mode is
  interactive and no directory of the search path has a runnable \<^verbatim>\<open>tmux\<close>, main returns 2
  and the error stream gets a line that names tmux.
\<close>

theorem missing_binary_exit_2:
  "(path_exists w (path_str (claude_bin a)) = Inr False
      \<and> (\<forall>c \<in> set (candidates w (ascii ''claude'')). \<not> runnable w c)
    \<longrightarrow> (\<exists>w' msg. main a w = Some (Inr 2, w')
            \<and> Print_err msg \<in> set (events w')
            \<and> msg = ascii ''Error: claude binary not found at '' @ claude_bin a @ [10]
            \<and> str_contains (ascii ''claude'') msg))
   \<and> (locate_claude w (claude_bin a) = Located f
      \<and> determine_mode a = Interactive
      \<and> (\<forall>c \<in> set (candidates w (ascii ''tmux'')). \<not> runnable w c)
    \<longrightarrow> (\<exists>w' msg. main a w = Some (Inr 2, w')
            \<and> Print_err msg \<in> set (events w')
            \<and> msg = ascii ''Error: tmux not found. Install via: brew install tmux'' @ [10]
            \<and> str_contains (ascii ''tmux'') msg))"
proof (intro conjI impI)
  assume "path_exists w (path_str (claude_bin a)) = Inr False
            \<and> (\<forall>c \<in> set (candidates w (ascii ''claude'')). \<not> runnable w c)"
  then have "locate_claude w (claude_bin a) = Missing"
    by (simp add: locate_claude_def find_None_iff [THEN iffD2])
  then show "\<exists>w' msg. main a w = Some (Inr 2, w')
            \<and> Print_err msg \<in> set (events w')
            \<and> msg = ascii ''Error: claude binary not found at '' @ claude_bin a @ [10]
            \<and> str_contains (ascii ''claude'') msg"
    by (simp add: main_cases claude_message_names_claude)
next
  assume h: "locate_claude w (claude_bin a) = Located f
      \<and> determine_mode a = Interactive
      \<and> (\<forall>c \<in> set (candidates w (ascii ''tmux'')). \<not> runnable w c)"
  then have f: "locate_claude w (claude_bin a) = Located f"
    by blast
  let ?a = "a\<lparr>extra := strip_dashes (extra a), claude_bin := f\<rparr>"
  let ?msg = "ascii ''Error: tmux not found. Install via: brew install tmux'' @ [10]"
  let ?w1 = "w\<lparr>events := events w @ [Print_err ?msg]\<rparr>"
  from h have no_tmux: "find (runnable w) (candidates w (ascii ''tmux'')) = None"
    by (simp add: find_None_iff)
  from h have m: "determine_mode ?a = Interactive"
    by (simp add: determine_mode_fields)
  obtain w2 evs where w2: "notify_macos (ascii ''Claude Code'')
        (ascii ''Headless task '' @ ascii ''failed (exit '' @ str_int 2 @ ascii '')'') ?w1
          = Some (Inr (), w2)" and evs: "events w2 = events ?w1 @ evs"
    using notify_macos_returns by blast
  have "main a w = Some (Inr 2, if notify a then w2 else ?w1)"
    using f m w2
    by (simp add: main_cases dispatch_def Let_def bind_def run_interactive_tmux_no_tmux [OF no_tmux] ret_def)
  moreover have "Print_err ?msg \<in> set (events (if notify a then w2 else ?w1))"
    using evs by simp
  ultimately show "\<exists>w' msg. main a w = Some (Inr 2, w')
            \<and> Print_err msg \<in> set (events w')
            \<and> msg = ascii ''Error: tmux not found. Install via: brew install tmux'' @ [10]
            \<and> str_contains (ascii ''tmux'') msg"
    using tmux_message_names_tmux by blast
qed

text \<open>A machine without claude, and one without tmux.\<close>

theorem missing_binary_exit_2_witness:
  "(\<exists>w'. main base_args no_claude_world = Some (Inr 2, w')
       \<and> Print_err (ascii ''Error: claude binary not found at /opt/bin/claude'' @ [10]) \<in> set (events w'))
   \<and> (\<exists>w'. main (base_args\<lparr>mode := Interactive\<rparr>) no_tmux_world = Some (Inr 2, w')
       \<and> Print_err (ascii ''Error: tmux not found. Install via: brew install tmux'' @ [10])
            \<in> set (events w'))"
proof -
  have "determine_mode (base_args\<lparr>mode := Interactive\<rparr>) = Interactive"
    by (simp add: determine_mode_def)
  with missing_binary_exit_2 [of no_claude_world base_args]
    missing_binary_exit_2 [of no_tmux_world "base_args\<lparr>mode := Interactive\<rparr>" "ascii ''/opt/bin/claude''"]
    no_claude_missing no_tmux_missing
  show ?thesis by (auto simp: ascii_def)
qed

text \<open>
  Claim C3 (exit codes), as the code has it. Once claude is located: a synchronous
  headless run returns the exit code of the process it ran, which is the command under
  the \<^verbatim>\<open>script\<close> wrapper found on the search path or the command itself when there is none,
  and the command under the literal \<^verbatim>\<open>script\<close> with the clipboard flag; a background run
  returns 0 whenever it returns, and does return once the log file is open and the child
  started, whatever the exit code of the child. An interactive run returns 0 or 2
  whenever it returns; it returns 2 when no directory of the search path has a runnable
  tmux; and it returns 0 when tmux is found, can be started whenever it is called and
  succeeds at \<^verbatim>\<open>new\<close> and \<^verbatim>\<open>send-keys\<close>, time does not run backwards and the delay between
  lines is not negative. By then it has killed the old session, made the new one, typed
  the launch line and Enter, in this order, and typed every line of the prompt that is
  not blank.
\<close>

theorem exit_code_by_mode:
  assumes "locate_claude w (claude_bin a) = Located f"
    and "cmd = build_headless_cmd (resolved_args a f)"
  shows
   "(determine_mode a \<noteq> Interactive \<and> \<not> background a \<and> \<not> clipboard a
       \<and> child w (clock w) (launched_cmd w cmd) (cwd a) = Inr c
      \<longrightarrow> (\<exists>w'. main a w = Some (Inr (returncode c), w')))
    \<and> (determine_mode a \<noteq> Interactive \<and> \<not> background a \<and> clipboard a
       \<and> child w (clock w) (script_wrap (ascii ''script'') cmd) (cwd a) = Inr c
      \<longrightarrow> (\<exists>w'. main a w = Some (Inr (returncode c), w')))
    \<and> (determine_mode a \<noteq> Interactive \<and> background a
      \<longrightarrow> (\<forall>rc w'. main a w = Some (Inr rc, w') \<longrightarrow> rc = 0))
    \<and> (determine_mode a \<noteq> Interactive \<and> background a
       \<and> makedirs_error w (log_dir a) = None \<and> open_error w (log_path w (log_dir a)) = None
       \<and> child w (launch_time w) (launched_cmd w cmd) (cwd a) = Inr c
       \<and> (notify a \<longrightarrow> (\<forall>t. \<exists>c'. child w t (watcher_cmd w cmd) None = Inr c'))
      \<longrightarrow> (\<exists>w'. main a w = Some (Inr 0, w')))
    \<and> (determine_mode a = Interactive
      \<longrightarrow> (\<forall>rc w'. main a w = Some (Inr rc, w') \<longrightarrow> rc = 0 \<or> rc = 2))
    \<and> (determine_mode a = Interactive
       \<and> (\<forall>c \<in> set (candidates w (ascii ''tmux'')). \<not> runnable w c)
      \<longrightarrow> (\<exists>w'. main a w = Some (Inr 2, w')))
    \<and> (determine_mode a = Interactive
       \<and> find (runnable w) (candidates w (ascii ''tmux'')) = Some tb \<and> tb \<noteq> []
       \<and> tmux_obeys w \<and> clock_advances w (tmux_session a @ ascii '':0.0'')
       \<and> 0 \<le> interactive_send_delay_ms a
      \<longrightarrow> (\<exists>w' evs. main a w = Some (Inr 0, w')
            \<and> events w' = events w
                @ [Spawn [ascii ''tmux'', ascii ''kill-session'', ascii ''-t'', tmux_session a] None,
                   Spawn [ascii ''tmux'', ascii ''new'', ascii ''-d'', ascii ''-s'', tmux_session a,
                          ascii ''-n'', ascii ''claude''] None,
                   Spawn [ascii ''tmux'', ascii ''send-keys'', ascii ''-t'',
                          tmux_session a @ ascii '':0.0'', ascii ''-l'', ascii ''--'',
                          launch_line w (resolved_args a f)] None,
                   Spawn [ascii ''tmux'', ascii ''send-keys'', ascii ''-t'',
                          tmux_session a @ ascii '':0.0'', ascii ''Enter''] None]
                @ evs
            \<and> (\<forall>line \<in> set (prompt_lines (prompt a)).
                  Spawn [ascii ''tmux'', ascii ''send-keys'', ascii ''-t'',
                         tmux_session a @ ascii '':0.0'', ascii ''-l'', ascii ''--'', line] None
                    \<in> set (events w'))))"
proof (intro conjI impI allI)
  assume "determine_mode a \<noteq> Interactive \<and> \<not> background a \<and> \<not> clipboard a
       \<and> child w (clock w) (launched_cmd w cmd) (cwd a) = Inr c"
  then show "\<exists>w'. main a w = Some (Inr (returncode c), w')"
    using dispatch_pty [of "resolved_args a f" w c] assms by (auto simp: main_located)
next
  assume "determine_mode a \<noteq> Interactive \<and> \<not> background a \<and> clipboard a
       \<and> child w (clock w) (script_wrap (ascii ''script'') cmd) (cwd a) = Inr c"
  then show "\<exists>w'. main a w = Some (Inr (returncode c), w')"
    using dispatch_clipboard_ok [of "resolved_args a f" w c] assms by (auto simp: main_located)
next
  fix rc w'
  assume "determine_mode a \<noteq> Interactive \<and> background a" and "main a w = Some (Inr rc, w')"
  then show "rc = 0"
    using assms dispatch_background [of "resolved_args a f"]
    by (auto simp: main_located dest: run_background_returns_0)
next
  assume "determine_mode a \<noteq> Interactive \<and> background a
       \<and> makedirs_error w (log_dir a) = None \<and> open_error w (log_path w (log_dir a)) = None
       \<and> child w (launch_time w) (launched_cmd w cmd) (cwd a) = Inr c
       \<and> (notify a \<longrightarrow> (\<forall>t. \<exists>c'. child w t (watcher_cmd w cmd) None = Inr c'))"
  then show "\<exists>w'. main a w = Some (Inr 0, w')"
    using assms dispatch_background [of "resolved_args a f"]
      run_background_ok [of w "log_dir a" cmd "cwd a" c "notify a"]
    by (auto simp: main_located)
next
  fix rc w'
  assume "determine_mode a = Interactive" and "main a w = Some (Inr rc, w')"
  then show "rc = 0 \<or> rc = 2"
    using assms dispatch_interactive_returns [of "resolved_args a f" w rc w']
    by (simp add: main_located)
next
  assume h: "determine_mode a = Interactive
       \<and> (\<forall>c \<in> set (candidates w (ascii ''tmux'')). \<not> runnable w c)"
  then have "find (runnable w) (candidates w (ascii ''tmux'')) = None"
    by (simp add: find_None_iff)
  from run_interactive_tmux_no_tmux [OF this, of "resolved_args a f"] h
    dispatch_interactive [of "resolved_args a f" w 2]
  show "\<exists>w'. main a w = Some (Inr 2, w')"
    using assms(1) by (auto simp: main_located)
next
  let ?target = "tmux_session a @ ascii '':0.0''"
  assume h: "determine_mode a = Interactive
       \<and> find (runnable w) (candidates w (ascii ''tmux'')) = Some tb \<and> tb \<noteq> []
       \<and> tmux_obeys w \<and> clock_advances w ?target
       \<and> 0 \<le> interactive_send_delay_ms a"
  from run_interactive_tmux_ok [of w tb "resolved_args a f"] h obtain w1 evs1 where
    r: "run_interactive_tmux (resolved_args a f) w = Some (Inr 0, w1)"
    and ev: "events w1 = events w
           @ [Spawn (tmux_cmd [ascii ''kill-session'', ascii ''-t'', tmux_session a]) None,
              Spawn (tmux_cmd [ascii ''new'', ascii ''-d'', ascii ''-s'', tmux_session a,
                               ascii ''-n'', ascii ''claude'']) None,
              Spawn (send_keys ?target [ascii ''-l'', ascii ''--'', launch_line w (resolved_args a f)]) None,
              Spawn (send_keys ?target [ascii ''Enter'']) None]
           @ evs1"
    and sent: "\<forall>line \<in> set (prompt_lines (prompt a)).
            Spawn (send_keys ?target [ascii ''-l'', ascii ''--'', line]) None \<in> set (events w1)"
    by auto
  from dispatch_interactive [OF _ r] h obtain w' evs2 where
    d: "dispatch (resolved_args a f) w = Some (Inr 0, w')" and ev2: "events w' = events w1 @ evs2"
    by auto
  have "main a w = Some (Inr 0, w')"
    using d assms(1) by (simp add: main_located)
  moreover have "events w' = events w
                @ [Spawn [ascii ''tmux'', ascii ''kill-session'', ascii ''-t'', tmux_session a] None,
                   Spawn [ascii ''tmux'', ascii ''new'', ascii ''-d'', ascii ''-s'', tmux_session a,
                          ascii ''-n'', ascii ''claude''] None,
                   Spawn [ascii ''tmux'', ascii ''send-keys'', ascii ''-t'', ?target, ascii ''-l'',
                          ascii ''--'', launch_line w (resolved_args a f)] None,
                   Spawn [ascii ''tmux'', ascii ''send-keys'', ascii ''-t'', ?target, ascii ''Enter''] None]
                @ (evs1 @ evs2)"
    unfolding ev2 ev by (simp add: send_keys_def tmux_cmd_def)
  moreover have "\<forall>line \<in> set (prompt_lines (prompt a)).
                  Spawn [ascii ''tmux'', ascii ''send-keys'', ascii ''-t'', ?target, ascii ''-l'',
                         ascii ''--'', line] None \<in> set (events w')"
    using sent unfolding ev2 by (simp add: send_keys_def tmux_cmd_def)
  ultimately show "\<exists>w' evs. main a w = Some (Inr 0, w')
            \<and> events w' = events w
                @ [Spawn [ascii ''tmux'', ascii ''kill-session'', ascii ''-t'', tmux_session a] None,
                   Spawn [ascii ''tmux'', ascii ''new'', ascii ''-d'', ascii ''-s'', tmux_session a,
                          ascii ''-n'', ascii ''claude''] None,
                   Spawn [ascii ''tmux'', ascii ''send-keys'', ascii ''-t'',
                          tmux_session a @ ascii '':0.0'', ascii ''-l'', ascii ''--'',
                          launch_line w (resolved_args a f)] None,
                   Spawn [ascii ''tmux'', ascii ''send-keys'', ascii ''-t'',
                          tmux_session a @ ascii '':0.0'', ascii ''Enter''] None]
                @ evs
            \<and> (\<forall>line \<in> set (prompt_lines (prompt a)).
                  Spawn [ascii ''tmux'', ascii ''send-keys'', ascii ''-t'',
                         tmux_session a @ ascii '':0.0'', ascii ''-l'', ascii ''--'', line] None
                    \<in> set (events w'))"
    by blast
qed

text \<open>
  On the example machine every child exits with code 3: the synchronous runs return 3,
  the background run returns 0. Without tmux the interactive run returns 2. On the
  machine whose commands all succeed the prompt \<^verbatim>\<open>/help\<close> makes the run interactive: it
  returns 0, having typed the launch line and the prompt.
\<close>

theorem exit_code_by_mode_witness:
  "(\<exists>w'. main base_args base_world = Some (Inr 3, w'))
   \<and> (\<exists>w'. main (base_args\<lparr>clipboard := True\<rparr>) base_world = Some (Inr 3, w'))
   \<and> (\<exists>w'. main (base_args\<lparr>background := True\<rparr>) base_world = Some (Inr 0, w'))
   \<and> (\<exists>w'. main (base_args\<lparr>mode := Interactive\<rparr>) no_tmux_world = Some (Inr 2, w'))
   \<and> (\<exists>w' evs. main (base_args\<lparr>prompt := Some (ascii ''/help'')\<rparr>) quiet_world = Some (Inr 0, w')
         \<and> events w'
             = [Spawn [ascii ''tmux'', ascii ''kill-session'', ascii ''-t'', ascii ''claude-code''] None,
                Spawn [ascii ''tmux'', ascii ''new'', ascii ''-d'', ascii ''-s'', ascii ''claude-code'',
                       ascii ''-n'', ascii ''claude''] None,
                Spawn [ascii ''tmux'', ascii ''send-keys'', ascii ''-t'', ascii ''claude-code:0.0'',
                       ascii ''-l'', ascii ''--'', ascii ''cd /home/u && /opt/bin/claude''] None,
                Spawn [ascii ''tmux'', ascii ''send-keys'', ascii ''-t'', ascii ''claude-code:0.0'',
                       ascii ''Enter''] None]
               @ evs
         \<and> Spawn [ascii ''tmux'', ascii ''send-keys'', ascii ''-t'', ascii ''claude-code:0.0'',
                   ascii ''-l'', ascii ''--'', ascii ''/help''] None \<in> set (events w'))"
proof -
  let ?c = "\<lparr>returncode = 3, out_text = ascii ''out'' @ [10], err_text = []\<rparr>"
  let ?cmd = "[ascii ''/opt/bin/claude'', ascii ''-p'', ascii ''hello world'']"
  let ?h = "base_args\<lparr>prompt := Some (ascii ''/help'')\<rparr>"
  have cmd: "?cmd = build_headless_cmd (resolved_args (base_args\<lparr>mode := Auto, clipboard := c, background := b\<rparr>)
                (ascii ''/opt/bin/claude''))" for c b
    by (simp add: base_headless_cmd)
  have 1: "\<exists>w'. main (base_args\<lparr>mode := Auto, clipboard := False, background := False\<rparr>) base_world
              = Some (Inr 3, w')"
    using exit_code_by_mode [of base_world "base_args\<lparr>mode := Auto, clipboard := False, background := False\<rparr>"
        "ascii ''/opt/bin/claude''" ?cmd ?c, OF _ cmd]
    by simp
  have 2: "\<exists>w'. main (base_args\<lparr>mode := Auto, clipboard := True, background := False\<rparr>) base_world
              = Some (Inr 3, w')"
    using exit_code_by_mode [of base_world "base_args\<lparr>mode := Auto, clipboard := True, background := False\<rparr>"
        "ascii ''/opt/bin/claude''" ?cmd ?c, OF _ cmd]
    by simp
  have 3: "\<exists>w'. main (base_args\<lparr>mode := Auto, clipboard := False, background := True\<rparr>) base_world
              = Some (Inr 0, w')"
    using exit_code_by_mode [of base_world "base_args\<lparr>mode := Auto, clipboard := False, background := True\<rparr>"
        "ascii ''/opt/bin/claude''" ?cmd ?c, OF _ cmd]
    by simp
  have i: "determine_mode (base_args\<lparr>mode := Interactive\<rparr>) = Interactive"
    "claude_bin (base_args\<lparr>mode := Interactive\<rparr>) = ascii ''/opt/bin/claude''"
    by (simp_all add: determine_mode_def)
  have 4: "\<exists>w'. main (base_args\<lparr>mode := Interactive\<rparr>) no_tmux_world = Some (Inr 2, w')"
    using exit_code_by_mode [of no_tmux_world "base_args\<lparr>mode := Interactive\<rparr>"
        "ascii ''/opt/bin/claude''" "build_headless_cmd (resolved_args (base_args\<lparr>mode := Interactive\<rparr>)
          (ascii ''/opt/bin/claude''))"]
      no_tmux_missing i
    by simp
  have 5: "\<exists>w' evs. main ?h quiet_world = Some (Inr 0, w')
         \<and> events w'
             = [Spawn [ascii ''tmux'', ascii ''kill-session'', ascii ''-t'', ascii ''claude-code''] None,
                Spawn [ascii ''tmux'', ascii ''new'', ascii ''-d'', ascii ''-s'', ascii ''claude-code'',
                       ascii ''-n'', ascii ''claude''] None,
                Spawn [ascii ''tmux'', ascii ''send-keys'', ascii ''-t'', ascii ''claude-code:0.0'',
                       ascii ''-l'', ascii ''--'', ascii ''cd /home/u && /opt/bin/claude''] None,
                Spawn [ascii ''tmux'', ascii ''send-keys'', ascii ''-t'', ascii ''claude-code:0.0'',
                       ascii ''Enter''] None]
               @ evs
         \<and> Spawn [ascii ''tmux'', ascii ''send-keys'', ascii ''-t'', ascii ''claude-code:0.0'',
                   ascii ''-l'', ascii ''--'', ascii ''/help''] None \<in> set (events w')"
  proof -
    have t: "ascii ''claude-code'' @ ascii '':0.0'' = ascii ''claude-code:0.0''"
      by (simp add: ascii_def)
    have "ascii ''/opt/bin/tmux'' \<noteq> []"
      by (simp add: ascii_def)
    with exit_code_by_mode [of quiet_world ?h "ascii ''/opt/bin/claude''"
        "build_headless_cmd (resolved_args ?h (ascii ''/opt/bin/claude''))" _ "ascii ''/opt/bin/tmux''"]
      quiet_world_interactive quiet_world_facts(2) [of "ascii ''claude-code:0.0''"]
    show ?thesis
      unfolding slash_help_args slash_help_launch t by simp
  qed
  have "base_args\<lparr>mode := Auto, clipboard := False, background := False\<rparr> = base_args"
    "base_args\<lparr>mode := Auto, clipboard := True, background := False\<rparr> = base_args\<lparr>clipboard := True\<rparr>"
    "base_args\<lparr>mode := Auto, clipboard := False, background := True\<rparr> = base_args\<lparr>background := True\<rparr>"
    by (simp_all add: base_args_def)
  with 1 2 3 4 5 show ?thesis by simp
qed

text \<open>
  The exit code is not the child's in background mode: the child that is launched exits
  with 3 and the launcher with 0.
\<close>

theorem background_exit_code_counterexample:
  "\<exists>w' c. main (base_args\<lparr>background := True\<rparr>) base_world = Some (Inr 0, w')
      \<and> launches (events w') = [[ascii ''/opt/bin/claude'', ascii ''-p'', ascii ''hello world'']]
      \<and> child base_world (launch_time base_world)
           [ascii ''/opt/bin/claude'', ascii ''-p'', ascii ''hello world''] None = Inr c
      \<and> returncode c = 3"
proof -
  let ?a = "base_args\<lparr>mode := Auto, clipboard := False, background := True\<rparr>"
  let ?c = "\<lparr>returncode = 3, out_text = ascii ''out'' @ [10], err_text = []\<rparr>"
  let ?cmd = "[ascii ''/opt/bin/claude'', ascii ''-p'', ascii ''hello world'']"
  have a: "?a = base_args\<lparr>background := True\<rparr>"
    by (simp add: base_args_def)
  have "main ?a base_world = run_background ?cmd None (ascii ''logs'') False base_world"
    by (simp add: main_located [of base_world ?a "ascii ''/opt/bin/claude''"] dispatch_background
        base_headless_cmd)
  moreover have "\<exists>w'. run_background ?cmd None (ascii ''logs'') False base_world = Some (Inr 0, w')
      \<and> launches (events w') = [?cmd]"
    using run_background_ok [of base_world "ascii ''logs''" ?cmd None ?c False] by auto
  ultimately show ?thesis
    unfolding a by auto
qed

text \<open>
  Claim C4 (the log file of a background launch), as the code has it. When the log
  directory can be made, the log file opened and the child started, the launch returns
  0; the log file is \<^verbatim>\<open>os.path.join\<close> of the log directory and
  \<^verbatim>\<open>claude-<YYYYmmdd-HHMMSS>.log\<close>, which is the directory, a slash and that name when
  the directory is not empty and does not end with a slash; the file holds the header
  (the \<^verbatim>\<open># Command:\<close>, \<^verbatim>\<open># Started:\<close> and \<^verbatim>\<open># CWD:\<close> entries, each ended by a line feed,
  and one more line feed) followed by the output of the child. The header is three lines
  and a blank line when no element of the command and not the working directory has a
  line feed in it. The working directory of the header is the one given, absolute or
  not, and the current directory when none or an empty one is given.
\<close>

theorem background_log_file:
  assumes "makedirs_error w logdir = None"
    and "open_error w (log_path w logdir) = None"
    and "child w (launch_time w) (launched_cmd w cmd) wd = Inr c"
    and "ntfy \<longrightarrow> (\<forall>t. \<exists>c'. child w t (watcher_cmd w cmd) None = Inr c')"
  shows "\<exists>w'. run_background cmd wd logdir ntfy w = Some (Inr 0, w')
      \<and> files w' (log_path w logdir) = Some (log_header w cmd wd @ out_text c)
      \<and> (logdir \<noteq> [] \<and> last logdir \<noteq> 47 \<longrightarrow>
           log_path w logdir = logdir @ [47] @ ascii ''claude-''
             @ strftime_compact (localtime w (after_io w (clock w))) @ ascii ''.log'')
      \<and> ((\<forall>x \<in> set cmd. 10 \<notin> set x) \<and> 10 \<notin> set (header_cwd w wd) \<longrightarrow>
           take 4 (str_split 10 (log_header w cmd wd @ out_text c)) = header_lines w cmd wd @ [[]])"
proof -
  have "\<not> startswith (ascii ''claude-'' @ ts @ ascii ''.log'') [47]" for ts
    by (simp add: ascii_def)
  then have "logdir \<noteq> [] \<and> last logdir \<noteq> 47 \<longrightarrow>
           log_path w logdir = logdir @ [47] @ ascii ''claude-''
             @ strftime_compact (localtime w (after_io w (clock w))) @ ascii ''.log''"
    by (simp add: log_path_def posix_join_plain)
  with run_background_ok [OF assms] header_three_lines [of cmd w wd "out_text c"]
  show ?thesis by blast
qed

text \<open>The log file of a launch on the example machine.\<close>

theorem background_log_file_witness:
  "\<exists>w'. run_background [ascii ''/opt/bin/claude'', ascii ''-p'', ascii ''hi there''] None (ascii ''logs'') False base_world
           = Some (Inr 0, w')
       \<and> files w' (ascii ''logs/claude-20261106-030405.log'')
           = Some (ascii ''# Command: /opt/bin/claude -p '' @ [39] @ ascii ''hi there'' @ [39, 10]
                   @ ascii ''# Started: 2026-11-06 03:04:05'' @ [10]
                   @ ascii ''# CWD: /home/u'' @ [10, 10] @ ascii ''out'' @ [10])"
  using background_log_file [of base_world "ascii ''logs''"
      "[ascii ''/opt/bin/claude'', ascii ''-p'', ascii ''hi there'']" None
      "\<lparr>returncode = 3, out_text = ascii ''out'' @ [10], err_text = []\<rparr>" False]
  by (auto simp add: log_path_def log_header_def header_lines_def header_cwd_def after_io_def
      stamp_compact stamp_iso posix_join_def endswith_def command_line_def shlex_quote_def
      safe_char_def ascii_def)

text \<open>
  A prompt of two lines and a relative working directory: the second line of the log
  file is the rest of the prompt, not the \<^verbatim>\<open># Started:\<close> entry, the fourth line is not
  blank, and the path after \<^verbatim>\<open># CWD:\<close> is not absolute.
\<close>

theorem log_header_counterexample:
  "\<exists>w' content.
     run_background [ascii ''/opt/bin/claude'', ascii ''-p'', ascii ''a'' @ [10] @ ascii ''b'']
         (Some (ascii ''work'')) (ascii ''logs'') False base_world = Some (Inr 0, w')
     \<and> files w' (ascii ''logs/claude-20261106-030405.log'') = Some content
     \<and> take 4 (str_split 10 content)
         = [ascii ''# Command: /opt/bin/claude -p '' @ [39] @ ascii ''a'',
            ascii ''b'' @ [39],
            ascii ''# Started: 2026-11-06 03:04:05'',
            ascii ''# CWD: work'']"
proof -
  have "\<exists>w'. run_background [ascii ''/opt/bin/claude'', ascii ''-p'', ascii ''a'' @ [10] @ ascii ''b'']
         (Some (ascii ''work'')) (ascii ''logs'') False base_world = Some (Inr 0, w')
     \<and> files w' (log_path base_world (ascii ''logs''))
         = Some (log_header base_world [ascii ''/opt/bin/claude'', ascii ''-p'', ascii ''a'' @ [10] @ ascii ''b'']
                   (Some (ascii ''work'')) @ ascii ''out'' @ [10])"
    using run_background_ok [of base_world "ascii ''logs''"
      "[ascii ''/opt/bin/claude'', ascii ''-p'', ascii ''a'' @ [10] @ ascii ''b'']" "Some (ascii ''work'')"
      "\<lparr>returncode = 3, out_text = ascii ''out'' @ [10], err_text = []\<rparr>" False]
    by auto
  then show ?thesis
    by (auto simp add: log_path_def log_header_def header_lines_def header_cwd_def after_io_def
      stamp_compact stamp_iso posix_join_def endswith_def command_line_def shlex_quote_def
      safe_char_def ascii_def str_split_def)
qed

text \<open>
  Claim C5 (which). The search never raises and changes nothing; its result is the first
  candidate, in the order of the directories of the search path, that is a regular file
  and executable, and \<^verbatim>\<open>None\<close> when there is no such candidate. A candidate whose file
  test raises an \<^verbatim>\<open>OSError\<close> is not runnable, so it is passed over.
\<close>

theorem which_first_match:
  "\<exists>r. which name w = Some (Inr r, w)
     \<and> r = find (runnable w) (candidates w name)
     \<and> (\<forall>c. r = Some c \<longleftrightarrow>
           (\<exists>i < length (candidates w name).
              candidates w name ! i = c \<and> runnable w c
              \<and> (\<forall>j < i. \<not> runnable w (candidates w name ! j))))
     \<and> (r = None \<longleftrightarrow> (\<forall>c \<in> set (candidates w name). \<not> runnable w c))"
  by (auto simp: which_find find_Some_iff find_None_iff)

text \<open>
  On the example machine the first directory cannot be read: tmux is found in the second
  one, and no \<^verbatim>\<open>script\<close> is found.
\<close>

theorem which_first_match_witness:
  "which (ascii ''tmux'') base_world = Some (Inr (Some (ascii ''/opt/bin/tmux'')), base_world)
   \<and> which (ascii ''script'') base_world = Some (Inr None, base_world)"
proof -
  from which_first_match [of "ascii ''tmux''" base_world] obtain r
    where "which (ascii ''tmux'') base_world = Some (Inr r, base_world)"
      and "r = find (runnable base_world) (candidates base_world (ascii ''tmux''))"
    by blast
  moreover from which_first_match [of "ascii ''script''" base_world] obtain r'
    where "which (ascii ''script'') base_world = Some (Inr r', base_world)"
      and "r' = find (runnable base_world) (candidates base_world (ascii ''script''))"
    by blast
  ultimately show ?thesis
    by (simp add: base_tmux base_no_script)
qed

text \<open>
  Claim C6 (the trust prompt). A capture is a run of
  \<^verbatim>\<open>tmux capture-pane -p -J -t <target> -S -200\<close>, and a key is sent by a run of
  \<^verbatim>\<open>tmux send-keys -t <target> <key>\<close>. The first wait looks for the trust text for 20
  seconds, polling every half second. When it returns true, some capture started before
  the deadline showed the text; \<^verbatim>\<open>Enter\<close> is sent, 0.8 seconds are slept and a second wait
  of 2 seconds follows. When the second wait returns true, the key \<^verbatim>\<open>1\<close> and \<^verbatim>\<open>Enter\<close> are
  sent, in this order, and nothing else; when it returns false, nothing more is done.
  When the first wait returns false, and it does when no capture ever shows the text,
  the step ends in the world the wait left, without an exception, and nothing but
  captures and sleeps of half a second has happened. With a tmux that can be started
  whenever it is called and a clock that does not run backwards the step always returns,
  without an exception.
\<close>

theorem trust_prompt_step:
  "tmux_capture target 200
     = check_output [ascii ''tmux'', ascii ''capture-pane'', ascii ''-p'', ascii ''-J'', ascii ''-t'',
                     target, ascii ''-S'', ascii ''-200'']
   \<and> capture_argv target
       = [ascii ''tmux'', ascii ''capture-pane'', ascii ''-p'', ascii ''-J'', ascii ''-t'',
          target, ascii ''-S'', ascii ''-200'']
   \<and> (tmux_wait_for_text target trust_text 20 (1 / 2) w = Some (Inr True, w1) \<longrightarrow>
      (\<exists>t. t < clock w + 20 \<and> pane_shows w target trust_text t))
   \<and> (clock_advances w target \<and> (\<forall>t. pane_misses w target trust_text t) \<longrightarrow>
      (\<exists>w'. tmux_wait_for_text target trust_text 20 (1 / 2) w = Some (Inr False, w')
           \<and> handle_trust_prompt target w = Some (Inr (), w')))
   \<and> (tmux_wait_for_text target trust_text 20 (1 / 2) w = Some (Inr False, w1) \<longrightarrow>
      handle_trust_prompt target w = Some (Inr (), w1)
      \<and> (\<exists>evs. events w1 = events w @ evs
            \<and> (\<forall>e \<in> set evs.
                  e = Spawn [ascii ''tmux'', ascii ''capture-pane'', ascii ''-p'', ascii ''-J'',
                             ascii ''-t'', target, ascii ''-S'', ascii ''-200''] None
                  \<or> e = Slept (1 / 2))))
   \<and> (tmux_wait_for_text target trust_text 20 (1 / 2) w = Some (Inr True, w1)
       \<and> child w1 (clock w1) [ascii ''tmux'', ascii ''send-keys'', ascii ''-t'', target, ascii ''Enter'']
            None = Inr c1
       \<and> w2 = after_sleep
                (after_run w1 [ascii ''tmux'', ascii ''send-keys'', ascii ''-t'', target, ascii ''Enter''])
                (4 / 5) \<longrightarrow>
        events w2
          = events w1 @ [Spawn [ascii ''tmux'', ascii ''send-keys'', ascii ''-t'', target, ascii ''Enter'']
                           None,
                         Slept (4 / 5)]
        \<and> (tmux_wait_for_text target trust_text 2 (1 / 2) w2 = Some (Inr False, w3) \<longrightarrow>
           handle_trust_prompt target w = Some (Inr (), w3))
        \<and> (tmux_wait_for_text target trust_text 2 (1 / 2) w2 = Some (Inr True, w3)
            \<and> child w3 (clock w3) [ascii ''tmux'', ascii ''send-keys'', ascii ''-t'', target, ascii ''1'']
                 None = Inr c2
            \<and> w4 = after_run w3 [ascii ''tmux'', ascii ''send-keys'', ascii ''-t'', target, ascii ''1'']
            \<and> child w4 (clock w4) [ascii ''tmux'', ascii ''send-keys'', ascii ''-t'', target, ascii ''Enter'']
                 None = Inr c3 \<longrightarrow>
              (\<exists>w5. handle_trust_prompt target w = Some (Inr (), w5)
                 \<and> events w5
                     = events w3
                       @ [Spawn [ascii ''tmux'', ascii ''send-keys'', ascii ''-t'', target, ascii ''1''] None,
                          Spawn [ascii ''tmux'', ascii ''send-keys'', ascii ''-t'', target, ascii ''Enter'']
                            None])))
   \<and> (tmux_obeys w \<and> clock_advances w target \<longrightarrow>
        (\<exists>w'. handle_trust_prompt target w = Some (Inr (), w')))"
  unfolding capture_argv_eq send_keys_eq
proof (intro conjI impI)
  show "tmux_capture target 200 = check_output (capture_argv target)"
    by (rule tmux_capture_argv)
  show "capture_argv target = capture_argv target" ..
next
  assume "tmux_wait_for_text target trust_text 20 (1 / 2) w = Some (Inr True, w1)"
  then show "\<exists>t. t < clock w + 20 \<and> pane_shows w target trust_text t"
    using wait_loop_seen [of target trust_text "clock w + 20" "1 / 2" w w1]
    by (simp add: tmux_wait_for_text_eq)
next
  assume h: "clock_advances w target \<and> (\<forall>t. pane_misses w target trust_text t)"
  have "clock w + 20 - clock w \<le> of_nat 40 * (1 / 2 :: rat)" by simp
  with wait_loop_absent [of "1 / 2" w target trust_text "clock w + 20" 40] h
  obtain w' where "tmux_wait_for_text target trust_text 20 (1 / 2) w = Some (Inr False, w')"
    by (auto simp: tmux_wait_for_text_eq)
  then show "\<exists>w'. tmux_wait_for_text target trust_text 20 (1 / 2) w = Some (Inr False, w')
           \<and> handle_trust_prompt target w = Some (Inr (), w')"
    by (simp add: handle_trust_prompt_def bind_def ret_def)
next
  assume f: "tmux_wait_for_text target trust_text 20 (1 / 2) w = Some (Inr False, w1)"
  then show "handle_trust_prompt target w = Some (Inr (), w1)"
    by (simp add: handle_trust_prompt_def bind_def ret_def)
  from f show "\<exists>evs. events w1 = events w @ evs
            \<and> (\<forall>e \<in> set evs. e = Spawn (capture_argv target) None \<or> e = Slept (1 / 2))"
    unfolding tmux_wait_for_text_eq by (rule wait_loop_events)
next
  assume h: "tmux_wait_for_text target trust_text 20 (1 / 2) w = Some (Inr True, w1)
       \<and> child w1 (clock w1) (send_keys target [ascii ''Enter'']) None = Inr c1
       \<and> w2 = after_sleep (after_run w1 (send_keys target [ascii ''Enter''])) (4 / 5)"
  then have e: "subprocess_run (send_keys target [ascii ''Enter'']) None w1
                  = Some (Inr c1, after_run w1 (send_keys target [ascii ''Enter'']))"
    by (simp add: subprocess_run_after)
  have s: "time_sleep (4 / 5) (after_run w1 (send_keys target [ascii ''Enter''])) = Some (Inr (), w2)"
    using h by (simp add: time_sleep_ok)
  from h show "events w2 = events w1 @ [Spawn (send_keys target [ascii ''Enter'']) None, Slept (4 / 5)]"
    by simp
  have start: "handle_trust_prompt target w
      = bind (tmux_wait_for_text target trust_text 2 (1 / 2)) (\<lambda>again.
         if again then
           bind (subprocess_run (send_keys target [ascii ''1'']) None) (\<lambda>c2.
           bind (subprocess_run (send_keys target [ascii ''Enter'']) None) (\<lambda>c3. ret ()))
         else ret ()) w2"
    using h by (simp add: handle_trust_prompt_def bind_def e s)
  {
    assume "tmux_wait_for_text target trust_text 2 (1 / 2) w2 = Some (Inr False, w3)"
    then show "handle_trust_prompt target w = Some (Inr (), w3)"
      by (simp add: start bind_def ret_def)
  next
    assume h2: "tmux_wait_for_text target trust_text 2 (1 / 2) w2 = Some (Inr True, w3)
            \<and> child w3 (clock w3) (send_keys target [ascii ''1'']) None = Inr c2
            \<and> w4 = after_run w3 (send_keys target [ascii ''1''])
            \<and> child w4 (clock w4) (send_keys target [ascii ''Enter'']) None = Inr c3"
    then have k1: "subprocess_run (send_keys target [ascii ''1'']) None w3 = Some (Inr c2, w4)"
      by (simp add: subprocess_run_after)
    from h2 have "child w4 (clock w4) (send_keys target [ascii ''Enter'']) None = Inr c3"
      by blast
    then have k2: "subprocess_run (send_keys target [ascii ''Enter'']) None w4
                  = Some (Inr c3, after_run w4 (send_keys target [ascii ''Enter'']))"
      by (rule subprocess_run_after)
    from h2 have t2: "tmux_wait_for_text target trust_text 2 (1 / 2) w2 = Some (Inr True, w3)"
      by blast
    have "handle_trust_prompt target w
                = Some (Inr (), after_run w4 (send_keys target [ascii ''Enter'']))"
      by (simp add: start bind_def ret_def t2 k1 k2)
    moreover from h2 have "events (after_run w4 (send_keys target [ascii ''Enter'']))
                  = events w3 @ [Spawn (send_keys target [ascii ''1'']) None,
                                 Spawn (send_keys target [ascii ''Enter'']) None]"
      by (simp add: after_run_def)
    ultimately show "\<exists>w5. handle_trust_prompt target w = Some (Inr (), w5)
                 \<and> events w5 = events w3 @ [Spawn (send_keys target [ascii ''1'']) None,
                                              Spawn (send_keys target [ascii ''Enter'']) None]"
      by blast
  }
next
  assume "tmux_obeys w \<and> clock_advances w target"
  then show "\<exists>w'. handle_trust_prompt target w = Some (Inr (), w')"
    using handle_trust_prompt_returns [of w target] by blast
qed

text \<open>
  The ways through the step: the text never shows, it shows during the first second
  only, it stays on the screen; and the step returns on the machine whose panes show a
  shell prompt.
\<close>

theorem trust_prompt_step_witness:
  "(\<exists>w1. handle_trust_prompt (ascii ''claude-code:0.0'') base_world = Some (Inr (), w1)
        \<and> 20 \<le> clock w1)
   \<and> (\<exists>w3. handle_trust_prompt (ascii ''claude-code:0.0'') fading_world = Some (Inr (), w3)
        \<and> launches (events w3)
            = [[ascii ''tmux'', ascii ''capture-pane'', ascii ''-p'', ascii ''-J'', ascii ''-t'',
                ascii ''claude-code:0.0'', ascii ''-S'', ascii ''-200''],
               [ascii ''tmux'', ascii ''send-keys'', ascii ''-t'', ascii ''claude-code:0.0'', ascii ''Enter''],
               [ascii ''tmux'', ascii ''capture-pane'', ascii ''-p'', ascii ''-J'', ascii ''-t'',
                ascii ''claude-code:0.0'', ascii ''-S'', ascii ''-200''],
               [ascii ''tmux'', ascii ''capture-pane'', ascii ''-p'', ascii ''-J'', ascii ''-t'',
                ascii ''claude-code:0.0'', ascii ''-S'', ascii ''-200''],
               [ascii ''tmux'', ascii ''capture-pane'', ascii ''-p'', ascii ''-J'', ascii ''-t'',
                ascii ''claude-code:0.0'', ascii ''-S'', ascii ''-200'']])
   \<and> (\<exists>w5. handle_trust_prompt (ascii ''claude-code:0.0'') trusting_world = Some (Inr (), w5)
        \<and> launches (events w5)
            = [[ascii ''tmux'', ascii ''capture-pane'', ascii ''-p'', ascii ''-J'', ascii ''-t'',
                ascii ''claude-code:0.0'', ascii ''-S'', ascii ''-200''],
               [ascii ''tmux'', ascii ''send-keys'', ascii ''-t'', ascii ''claude-code:0.0'', ascii ''Enter''],
               [ascii ''tmux'', ascii ''capture-pane'', ascii ''-p'', ascii ''-J'', ascii ''-t'',
                ascii ''claude-code:0.0'', ascii ''-S'', ascii ''-200''],
               [ascii ''tmux'', ascii ''send-keys'', ascii ''-t'', ascii ''claude-code:0.0'', ascii ''1''],
               [ascii ''tmux'', ascii ''send-keys'', ascii ''-t'', ascii ''claude-code:0.0'', ascii ''Enter'']])
   \<and> (\<exists>w'. handle_trust_prompt (ascii ''claude-code:0.0'') quiet_world = Some (Inr (), w'))"
  unfolding capture_argv_eq send_keys_eq
proof (intro conjI)
  let ?t = "ascii ''claude-code:0.0''"
  let ?cap = "capture_argv ?t"
  let ?enter = "send_keys ?t [ascii ''Enter'']"
  let ?one = "send_keys ?t [ascii ''1'']"
  note step = trust_prompt_step [unfolded capture_argv_eq send_keys_eq]
  show "\<exists>w1. handle_trust_prompt ?t base_world = Some (Inr (), w1) \<and> 20 \<le> clock w1"
  proof -
    have "(20 :: rat) - clock base_world \<le> of_nat 40 * (1 / 2)" by simp
    from wait_loop_absent [of "1 / 2" base_world ?t trust_text 20 40, OF _ _ _ this]
    obtain w1 where w1: "wait_loop ?t trust_text 20 (1 / 2) base_world = Some (Inr False, w1)"
      and late: "20 \<le> clock w1"
      by (auto simp: base_world_captures)
    then have "tmux_wait_for_text ?t trust_text 20 (1 / 2) base_world = Some (Inr False, w1)"
      by (simp add: tmux_wait_for_text_eq)
    with step [of ?t base_world w1] late show ?thesis by blast
  qed
  show "\<exists>w3. handle_trust_prompt ?t fading_world = Some (Inr (), w3)
        \<and> launches (events w3) = [?cap, ?enter, ?cap, ?cap, ?cap]"
  proof -
    define w1 where "w1 = after_run fading_world ?cap"
    define w2 where "w2 = after_sleep (after_run w1 ?enter) (4 / 5)"
    define w3 where "w3 = after_poll (after_poll (after_poll w2 ?t (1 / 2)) ?t (1 / 2)) ?t (1 / 2)"
    have f: "clock fading_world = 0" "child_duration fading_world = (\<lambda>t argv. 2 / 5)"
      "oversleep fading_world = (\<lambda>t. 0)" "events fading_world = []"
      by (simp_all add: fading_world_def)
    have seen: "pane_shows fading_world ?t trust_text t" if "t < 1" for t
      using that trust_screen_shows by (simp add: pane_shows_def fading_world_def)
    have misses: "pane_misses fading_world ?t trust_text t" if "1 \<le> t" for t
      using that by (simp add: pane_misses_def fading_world_def trust_text_def ascii_def)
    have c2: "clock w2 = 8 / 5"
      by (simp add: w2_def w1_def f)
    have d2: "child_duration w2 = (\<lambda>t argv. 2 / 5)" "oversleep w2 = (\<lambda>t. 0)"
      "pane_misses w2 = pane_misses fading_world"
      by (simp_all add: w2_def w1_def f)
    have "wait_loop ?t trust_text 20 (1 / 2) fading_world = Some (Inr True, w1)"
      unfolding w1_def by (rule wait_loop_hit) (simp_all add: f seen)
    then have first: "tmux_wait_for_text ?t trust_text 20 (1 / 2) fading_world = Some (Inr True, w1)"
      by (simp add: tmux_wait_for_text_eq f)
    have enter: "child w1 (clock w1) ?enter None = Inr trust_screen"
      by (simp add: w1_def f fading_world_def)
    have "wait_loop ?t trust_text (18 / 5) (1 / 2) w2
            = wait_loop ?t trust_text (18 / 5) (1 / 2) (after_poll w2 ?t (1 / 2))"
      by (rule wait_loop_miss) (simp_all add: c2 d2 misses)
    also have "\<dots> = wait_loop ?t trust_text (18 / 5) (1 / 2)
                       (after_poll (after_poll w2 ?t (1 / 2)) ?t (1 / 2))"
      by (rule wait_loop_miss) (simp_all add: after_poll_clock c2 d2 misses)
    also have "\<dots> = wait_loop ?t trust_text (18 / 5) (1 / 2) w3"
      unfolding w3_def
      by (rule wait_loop_miss) (simp_all add: after_poll_clock c2 d2 misses)
    also have "\<dots> = Some (Inr False, w3)"
      by (rule wait_loop_late) (simp add: w3_def after_poll_clock c2 d2)
    finally have second: "tmux_wait_for_text ?t trust_text 2 (1 / 2) w2 = Some (Inr False, w3)"
      by (simp add: tmux_wait_for_text_eq c2)
    from step [of ?t fading_world w1 trust_screen w2 w3] first enter second
    have "handle_trust_prompt ?t fading_world = Some (Inr (), w3)"
      by (simp add: w2_def)
    moreover have "launches (events w3) = [?cap, ?enter, ?cap, ?cap, ?cap]"
      by (simp add: w3_def w2_def w1_def f)
    ultimately show ?thesis by blast
  qed
  show "\<exists>w5. handle_trust_prompt ?t trusting_world = Some (Inr (), w5)
        \<and> launches (events w5) = [?cap, ?enter, ?cap, ?one, ?enter]"
  proof -
    define w1 where "w1 = after_run trusting_world ?cap"
    define w2 where "w2 = after_sleep (after_run w1 ?enter) (4 / 5)"
    define w3 where "w3 = after_run w2 ?cap"
    define w4 where "w4 = after_run w3 ?one"
    have f: "clock trusting_world = 0" "child_duration trusting_world = (\<lambda>t argv. 2 / 5)"
      "oversleep trusting_world = (\<lambda>t. 0)" "events trusting_world = []"
      "child trusting_world = (\<lambda>t argv wd. Inr trust_screen)"
      by (simp_all add: trusting_world_def)
    have seen: "pane_shows trusting_world ?t trust_text t" for t
      using trust_screen_shows by (simp add: pane_shows_def f)
    have "wait_loop ?t trust_text 20 (1 / 2) trusting_world = Some (Inr True, w1)"
      unfolding w1_def by (rule wait_loop_hit) (simp_all add: f seen)
    then have first: "tmux_wait_for_text ?t trust_text 20 (1 / 2) trusting_world = Some (Inr True, w1)"
      by (simp add: tmux_wait_for_text_eq f)
    have "wait_loop ?t trust_text (clock w2 + 2) (1 / 2) w2 = Some (Inr True, w3)"
      unfolding w3_def by (rule wait_loop_hit) (simp_all add: w2_def w1_def seen)
    then have second: "tmux_wait_for_text ?t trust_text 2 (1 / 2) w2 = Some (Inr True, w3)"
      by (simp add: tmux_wait_for_text_eq)
    have keys: "child w1 (clock w1) ?enter None = Inr trust_screen"
      "child w3 (clock w3) ?one None = Inr trust_screen"
      "child w4 (clock w4) ?enter None = Inr trust_screen"
      by (simp_all add: w4_def w3_def w2_def w1_def f)
    from step [of ?t trusting_world w1 trust_screen w2 w3 trust_screen w4 trust_screen]
      first second keys
    obtain w5 where "handle_trust_prompt ?t trusting_world = Some (Inr (), w5)"
      and "events w5 = events w3 @ [Spawn ?one None, Spawn ?enter None]"
      by (auto simp add: w2_def w4_def)
    moreover have "events w3 = [Spawn ?cap None, Spawn ?enter None, Slept (4 / 5), Spawn ?cap None]"
      by (simp add: w3_def w2_def w1_def f)
    ultimately show ?thesis by auto
  qed
  show "\<exists>w'. handle_trust_prompt ?t quiet_world = Some (Inr (), w')"
    using step [of ?t quiet_world] quiet_world_facts(2) [of ?t]
    by (simp add: quiet_world_def tmux_obeys_def)
qed

text \<open>
  Claim C7 (the bounded wait), as the code has it. The deadline is the clock at entry plus
  the timeout, computed once. With a positive poll interval, a timeout that is not
  negative and a clock that does not run backwards, a wait for a text that no capture
  ever shows returns false, not before the deadline and not later than the deadline plus
  one poll interval plus the longest capture \<open>C\<close> and the longest extra delay \<open>D\<close> of a
  sleep.
\<close>

theorem wait_for_absent_text:
  assumes "0 < poll_s" and "0 \<le> timeout_s"
    and "clock_advances w target" and "delays_within w target C D"
    and "\<forall>t. pane_misses w target pattern t"
  shows "tmux_wait_for_text target pattern timeout_s poll_s w
           = wait_loop target pattern (clock w + of_int timeout_s) poll_s w
         \<and> (\<exists>w'. tmux_wait_for_text target pattern timeout_s poll_s w = Some (Inr False, w')
              \<and> clock w + of_int timeout_s \<le> clock w'
              \<and> clock w' \<le> clock w + of_int timeout_s + poll_s + C + D)"
proof -
  let ?deadline = "clock w + of_int timeout_s"
  obtain n where "?deadline - clock w \<le> of_nat n * poll_s"
    using enough_polls [OF assms(1)] by blast
  from wait_loop_absent [OF assms(1,3,5) this] obtain w' where
    w': "wait_loop target pattern ?deadline poll_s w = Some (Inr False, w')"
    and lo: "?deadline \<le> clock w'"
    and hi: "\<forall>C D. delays_within w target C D \<longrightarrow> clock w' \<le> max (clock w) (?deadline + poll_s + C + D)"
    by blast
  from assms(3,4) have "0 \<le> C" "0 \<le> D"
    by (auto simp: clock_advances_def delays_within_def intro: order_trans)
  with assms(1,2) have "clock w \<le> ?deadline + poll_s + C + D" by simp
  with hi assms(4) have "clock w' \<le> ?deadline + poll_s + C + D" by (simp add: max_def split: if_splits)
  with w' lo show ?thesis by (simp add: tmux_wait_for_text_eq)
qed

text \<open>A timeout of one second, captures of 0.4 seconds and exact sleeps.\<close>

theorem wait_for_absent_text_witness:
  "\<exists>w'. tmux_wait_for_text (ascii ''claude-code:0.0'') trust_text 1 (1 / 2) quiet_world
           = Some (Inr False, w')
      \<and> 1 \<le> clock w' \<and> clock w' \<le> 19 / 10"
proof -
  have "\<exists>w'. tmux_wait_for_text (ascii ''claude-code:0.0'') trust_text 1 (1 / 2) quiet_world
               = Some (Inr False, w')
          \<and> clock quiet_world + of_int 1 \<le> clock w'
          \<and> clock w' \<le> clock quiet_world + of_int 1 + 1 / 2 + 2 / 5 + 0"
    by (rule wait_for_absent_text [THEN conjunct2]) (simp_all add: quiet_world_facts)
  then show ?thesis
    by (simp add: quiet_world_facts)
qed

text \<open>
  With captures that take 0.4 seconds the wait for one second ends after 1.8 seconds,
  later than the timeout plus one poll interval.
\<close>

theorem wait_upper_bound_counterexample:
  "\<exists>w'. tmux_wait_for_text (ascii ''claude-code:0.0'') trust_text 1 (1 / 2) quiet_world
           = Some (Inr False, w')
      \<and> clock w' = 9 / 5
      \<and> \<not> clock w' \<le> clock quiet_world + 1 + 1 / 2"
proof -
  let ?t = "ascii ''claude-code:0.0''"
  let ?w1 = "after_poll quiet_world ?t (1 / 2)"
  let ?w2 = "after_poll ?w1 ?t (1 / 2)"
  have c1: "clock ?w1 = 9 / 10"
    by (simp add: after_poll_clock quiet_world_facts)
  have c2: "clock ?w2 = 9 / 5"
    by (simp add: after_poll_clock c1 quiet_world_facts)
  have "wait_loop ?t trust_text 1 (1 / 2) quiet_world = wait_loop ?t trust_text 1 (1 / 2) ?w1"
    by (rule wait_loop_miss) (simp_all add: quiet_world_facts)
  also have "\<dots> = wait_loop ?t trust_text 1 (1 / 2) ?w2"
    by (rule wait_loop_miss) (simp_all add: c1 quiet_world_facts)
  also have "\<dots> = Some (Inr False, ?w2)"
    by (rule wait_loop_late) (simp add: c2)
  finally show ?thesis
    using c2 by (simp add: tmux_wait_for_text_eq quiet_world_facts)
qed

text \<open>
  Claim C8 (round trip). Rendering a command vector into the shell-escaped command line
  of the log header and splitting that line again gives back the vector, whatever its
  elements contain: spaces, quotes, backslashes, line breaks, or nothing at all.
\<close>

theorem shlex_roundtrip: "shlex_split (command_line cmd) = Inr cmd"
  unfolding shlex_split_def command_line_def by (rule read_command_line)

text \<open>
  Claim C9 (a failing capture). A capture that exits with an error makes the poll answer
  "not seen" instead of raising; when the deadline has not passed, the loop then sleeps
  for the poll interval and goes on from there; and when every capture fails, the wait
  returns false, not before its deadline.
\<close>

theorem capture_failure_is_miss:
  "(capture_exits_nonzero w target (clock w) \<longrightarrow>
      poll_pane target pattern w = Some (Inr False, after_run w (capture_argv target)))
   \<and> (clock w < deadline \<and> capture_exits_nonzero w target (clock w) \<and> 0 \<le> poll_s \<longrightarrow>
        wait_loop target pattern deadline poll_s w
          = wait_loop target pattern deadline poll_s (after_poll w target poll_s)
        \<and> events (after_poll w target poll_s)
            = events w @ [Spawn (capture_argv target) None, Slept poll_s])
   \<and> (0 < poll_s \<and> clock_advances w target \<and> (\<forall>t. capture_exits_nonzero w target t) \<longrightarrow>
        (\<exists>w'. tmux_wait_for_text target pattern timeout_s poll_s w = Some (Inr False, w')
             \<and> clock w + of_int timeout_s \<le> clock w'))"
proof (intro conjI impI)
  assume "capture_exits_nonzero w target (clock w)"
  then obtain c where "child w (clock w) (capture_argv target) None = Inr c" "returncode c \<noteq> 0"
    by (auto simp: capture_exits_nonzero_def split: sum.splits)
  then show "poll_pane target pattern w = Some (Inr False, after_run w (capture_argv target))"
    by (simp add: poll_pane_runs)
next
  assume "clock w < deadline \<and> capture_exits_nonzero w target (clock w) \<and> 0 \<le> poll_s"
  then show "wait_loop target pattern deadline poll_s w
          = wait_loop target pattern deadline poll_s (after_poll w target poll_s)"
    by (intro wait_loop_miss capture_failure_misses) auto
next
  show "events (after_poll w target poll_s)
            = events w @ [Spawn (capture_argv target) None, Slept poll_s]"
    by (simp add: after_poll_def after_sleep_def after_run_def)
next
  assume h: "0 < poll_s \<and> clock_advances w target \<and> (\<forall>t. capture_exits_nonzero w target t)"
  let ?deadline = "clock w + of_int timeout_s"
  from h have miss: "\<forall>t. pane_misses w target pattern t"
    by (auto intro: capture_failure_misses)
  obtain n where "?deadline - clock w \<le> of_nat n * poll_s"
    using enough_polls h by blast
  from wait_loop_absent [OF _ _ miss this] h
  show "\<exists>w'. tmux_wait_for_text target pattern timeout_s poll_s w = Some (Inr False, w')
             \<and> clock w + of_int timeout_s \<le> clock w'"
    by (auto simp: tmux_wait_for_text_eq)
qed

text \<open>On the example machine every capture exits with code 3.\<close>

theorem capture_failure_is_miss_witness:
  "poll_pane (ascii ''claude-code:0.0'') trust_text base_world
     = Some (Inr False, after_run base_world (capture_argv (ascii ''claude-code:0.0'')))
   \<and> wait_loop (ascii ''claude-code:0.0'') trust_text 20 (1 / 2) base_world
       = wait_loop (ascii ''claude-code:0.0'') trust_text 20 (1 / 2)
           (after_poll base_world (ascii ''claude-code:0.0'') (1 / 2))
   \<and> (\<exists>w'. tmux_wait_for_text (ascii ''claude-code:0.0'') trust_text 1 (1 / 2) base_world
              = Some (Inr False, w')
         \<and> 1 \<le> clock w')"
  using capture_failure_is_miss [of base_world "ascii ''claude-code:0.0''" trust_text 20 "1 / 2" 1]
  by (simp add: base_world_captures)

text \<open>
  Claim C10 (the clipboard run), as the code has it. In a headless run with the clipboard
  flag and without the background flag the command is run under the literal
  \<^verbatim>\<open>script -q /dev/null\<close>, whatever the search path holds: when that process cannot be
  started the error is raised and nothing else is run, and otherwise its exit code is
  returned and it is the first process started.
\<close>

theorem clipboard_uses_literal_script:
  assumes "locate_claude w (claude_bin a) = Located f"
    and "cmd = build_headless_cmd (resolved_args a f)"
    and "determine_mode a \<noteq> Interactive" and "\<not> background a" and "clipboard a"
  shows
   "script_wrap (ascii ''script'') cmd = ascii ''script'' # ascii ''-q'' # ascii ''/dev/null'' # cmd
    \<and> (child w (clock w) (script_wrap (ascii ''script'') cmd) (cwd a) = Inl e
      \<longrightarrow> main a w = Some (Inl (OSError e), w))
    \<and> (child w (clock w) (script_wrap (ascii ''script'') cmd) (cwd a) = Inr c
      \<longrightarrow> (\<exists>w' evs. main a w = Some (Inr (returncode c), w')
            \<and> events w' = events w @ Spawn (script_wrap (ascii ''script'') cmd) (cwd a) # evs))"
proof (intro conjI impI)
  show "script_wrap (ascii ''script'') cmd = ascii ''script'' # ascii ''-q'' # ascii ''/dev/null'' # cmd"
    by (simp add: script_wrap_def)
next
  assume "child w (clock w) (script_wrap (ascii ''script'') cmd) (cwd a) = Inl e"
  then show "main a w = Some (Inl (OSError e), w)"
    using dispatch_clipboard_fails [of "resolved_args a f" w e] assms by (simp add: main_located)
next
  assume "child w (clock w) (script_wrap (ascii ''script'') cmd) (cwd a) = Inr c"
  then show "\<exists>w' evs. main a w = Some (Inr (returncode c), w')
            \<and> events w' = events w @ Spawn (script_wrap (ascii ''script'') cmd) (cwd a) # evs"
    using dispatch_clipboard_ok [of "resolved_args a f" w c] assms by (simp add: main_located)
qed

text \<open>
  The clipboard run on the example machine, and on a machine that cannot start
  \<^verbatim>\<open>script\<close>.
\<close>

theorem clipboard_uses_literal_script_witness:
  "(\<exists>w' evs. main (base_args\<lparr>clipboard := True\<rparr>) base_world = Some (Inr 3, w')
       \<and> events w' = Spawn [ascii ''script'', ascii ''-q'', ascii ''/dev/null'', ascii ''/opt/bin/claude'',
                             ascii ''-p'', ascii ''hello world''] None # evs)
   \<and> main (base_args\<lparr>clipboard := True\<rparr>) no_script_world
       = Some (Inl (OSError FileNotFoundError), no_script_world)"
proof -
  let ?a = "base_args\<lparr>mode := Auto, clipboard := True, background := False\<rparr>"
  let ?c = "\<lparr>returncode = 3, out_text = ascii ''out'' @ [10], err_text = []\<rparr>"
  let ?cmd = "[ascii ''/opt/bin/claude'', ascii ''-p'', ascii ''hello world'']"
  have a: "?a = base_args\<lparr>clipboard := True\<rparr>"
    by (simp add: base_args_def)
  have cmd: "?cmd = build_headless_cmd (resolved_args ?a (ascii ''/opt/bin/claude''))"
    by (simp add: base_headless_cmd)
  have loc: "locate_claude no_script_world (claude_bin ?a) = Located (ascii ''/opt/bin/claude'')"
    by (simp add: no_script_world_def)
  have 1: "\<exists>w' evs. main ?a base_world = Some (Inr 3, w')
       \<and> events w' = Spawn (script_wrap (ascii ''script'') ?cmd) None # evs"
    using clipboard_uses_literal_script [of base_world ?a "ascii ''/opt/bin/claude''" ?cmd
        FileNotFoundError ?c, OF _ cmd]
    by auto
  have 2: "main ?a no_script_world = Some (Inl (OSError FileNotFoundError), no_script_world)"
    using clipboard_uses_literal_script [of no_script_world ?a "ascii ''/opt/bin/claude''" ?cmd
        FileNotFoundError ?c, OF loc cmd]
    by (simp add: no_script_world_def script_wrap_def)
  from 1 2 show ?thesis
    unfolding a by (simp add: script_wrap_def)
qed

text \<open>
  With the background flag the clipboard flag is ignored: the command is launched by the
  background launcher, which probes for the helper and, finding none, starts the command
  unwrapped.
\<close>

theorem clipboard_background_counterexample:
  "\<exists>w'. main (base_args\<lparr>mode := Headless, clipboard := True, background := True\<rparr>) base_world
           = Some (Inr 0, w')
      \<and> launches (events w') = [[ascii ''/opt/bin/claude'', ascii ''-p'', ascii ''hello world'']]"
proof -
  let ?a = "base_args\<lparr>mode := Headless, clipboard := True, background := True\<rparr>"
  let ?c = "\<lparr>returncode = 3, out_text = ascii ''out'' @ [10], err_text = []\<rparr>"
  let ?cmd = "[ascii ''/opt/bin/claude'', ascii ''-p'', ascii ''hello world'']"
  have "main ?a base_world = run_background ?cmd None (ascii ''logs'') False base_world"
    by (simp add: main_located [of base_world ?a "ascii ''/opt/bin/claude''"] dispatch_background
        base_headless_cmd)
  moreover have "\<exists>w'. run_background ?cmd None (ascii ''logs'') False base_world = Some (Inr 0, w')
      \<and> launches (events w') = [?cmd]"
    using run_background_ok [of base_world "ascii ''logs''" ?cmd None ?c False] by auto
  ultimately show ?thesis by auto
qed

end
